(* ===== verification/Drv_Prelude.thy ===== *)
theory Drv_Prelude
  imports "HOL-Library.Word"
begin

text \<open>
  Shared base of the development: the C integer types, the result type of an operation that may
  run into undefined behaviour, byte memories with bounds-checked copying, little-endian decoding,
  and the lemmas about them that the components share.
\<close>

unbundle bit_operations_syntax

named_theorems res_simps "rules that step through the result type"
named_theorems mem_simps "rules about byte memories"

type_synonym u8 = "8 word"
type_synonym u16 = "16 word"
type_synonym u32 = "32 word"
type_synonym u64 = "64 word"

section \<open>Results\<close>

text \<open>
  A C function either returns (\<open>Inr\<close>) or runs into undefined behaviour (\<open>Inl\<close>):
  a null dereference, an access outside an object, a division by zero, or a shift by a negative
  distance or by the whole width. Error codes that the
  function returns on purpose are values under \<open>Inr\<close>.
\<close>

datatype fault = Null_Deref | Out_Of_Bounds | Div_By_Zero | Bad_Shift

type_synonym 'a res = "fault + 'a"

definition res_bind :: "'a res \<Rightarrow> ('a \<Rightarrow> 'b res) \<Rightarrow> 'b res" where
  "res_bind m f = (case m of Inl e \<Rightarrow> Inl e | Inr x \<Rightarrow> f x)"

definition faults :: "'a res \<Rightarrow> bool" where
  "faults m = (case m of Inl e \<Rightarrow> True | Inr x \<Rightarrow> False)"

lemma res_bind_Inl [simp, res_simps]: "res_bind (Inl e) f = Inl e"
  by (simp add: res_bind_def)

lemma res_bind_Inr [simp, res_simps]: "res_bind (Inr x) f = f x"
  by (simp add: res_bind_def)

lemma res_bind_eq_Inr: "res_bind m f = Inr y \<longleftrightarrow> (\<exists>x. m = Inr x \<and> f x = Inr y)"
  by (cases m) auto

lemma res_bind_eq_Inl:
  "res_bind m f = Inl e \<longleftrightarrow> m = Inl e \<or> (\<exists>x. m = Inr x \<and> f x = Inl e)"
  by (cases m) auto

lemma res_bind_split:
  "P (res_bind m f) \<longleftrightarrow> (\<forall>e. m = Inl e \<longrightarrow> P (Inl e)) \<and> (\<forall>x. m = Inr x \<longrightarrow> P (f x))"
  by (cases m) auto

lemma faults_simps [simp]: "faults (Inl e)" "\<not> faults (Inr x)"
  by (simp_all add: faults_def)

lemma faults_bind [simp]: "faults (res_bind m f) \<longleftrightarrow> faults m \<or> (\<exists>x. m = Inr x \<and> faults (f x))"
  by (cases m) auto

text \<open>
  An operation with a loop that may not end has a result under \<open>option\<close>; \<open>None\<close> is a run without end.
\<close>

definition run_bind :: "'a res option \<Rightarrow> ('a \<Rightarrow> 'b res option) \<Rightarrow> 'b res option" where
  "run_bind m f = (case m of None \<Rightarrow> None | Some (Inl e) \<Rightarrow> Some (Inl e) | Some (Inr x) \<Rightarrow> f x)"

lemma run_bind_simps [simp, res_simps]:
  "run_bind None f = None" "run_bind (Some (Inl e)) f = Some (Inl e)" "run_bind (Some (Inr x)) f = f x"
  by (simp_all add: run_bind_def)

section \<open>Byte memories\<close>

text \<open>
  An object of memory is the list of its bytes. \<open>bytes_at\<close> is a slice of it, \<open>blit\<close>
  overwrites a slice, and \<open>mem_copy\<close> is \<open>memcpy\<close>: copying nothing touches nothing, and
  an access outside either object is a fault.
\<close>

definition bytes_at :: "nat \<Rightarrow> nat \<Rightarrow> 'a list \<Rightarrow> 'a list" where
  "bytes_at k n xs = take n (drop k xs)"

definition blit :: "'a list \<Rightarrow> nat \<Rightarrow> 'a list \<Rightarrow> 'a list" where
  "blit xs k ys = take k xs @ ys @ drop (k + length ys) xs"

definition mem_read :: "u8 list \<Rightarrow> nat \<Rightarrow> nat \<Rightarrow> u8 list res" where
  "mem_read m k n =
     (if n = 0 then Inr [] else if k + n \<le> length m then Inr (bytes_at k n m) else Inl Out_Of_Bounds)"

definition mem_write :: "u8 list \<Rightarrow> nat \<Rightarrow> u8 list \<Rightarrow> u8 list res" where
  "mem_write m k bs =
     (if bs = [] then Inr m else if k + length bs \<le> length m then Inr (blit m k bs)
      else Inl Out_Of_Bounds)"

definition mem_copy :: "u8 list \<Rightarrow> nat \<Rightarrow> u8 list \<Rightarrow> nat \<Rightarrow> nat \<Rightarrow> u8 list res" where
  "mem_copy dst i src j n = res_bind (mem_read src j n) (\<lambda>bs. mem_write dst i bs)"

lemma length_bytes_at [simp]: "length (bytes_at k n xs) = min n (length xs - k)"
  by (simp add: bytes_at_def)

lemma bytes_at_0 [simp]: "bytes_at k 0 xs = []"
  by (simp add: bytes_at_def)

lemma bytes_at_all [simp]: "bytes_at 0 (length xs) xs = xs"
  by (simp add: bytes_at_def)

lemma nth_bytes_at: "i < n \<Longrightarrow> k + i < length xs \<Longrightarrow> bytes_at k n xs ! i = xs ! (k + i)"
  by (simp add: bytes_at_def)

lemma bytes_at_bytes_at [mem_simps]:
  "j + m \<le> n \<Longrightarrow> bytes_at j m (bytes_at k n xs) = bytes_at (k + j) m xs"
  by (simp add: bytes_at_def take_drop add.commute min_def)

lemma bytes_at_append1: "k + n \<le> length xs \<Longrightarrow> bytes_at k n (xs @ ys) = bytes_at k n xs"
  by (simp add: bytes_at_def)

lemma bytes_at_append2 [simp]: "bytes_at (length xs + k) n (xs @ ys) = bytes_at k n ys"
  by (simp add: bytes_at_def)

lemma bytes_at_after: "length xs \<le> k \<Longrightarrow> bytes_at k n (xs @ ys) = bytes_at (k - length xs) n ys"
  by (simp add: bytes_at_def)

lemma bytes_at_first: "length xs = n \<Longrightarrow> bytes_at 0 n (xs @ ys) = xs"
  by (simp add: bytes_at_def)

lemma bytes_at_split: "bytes_at k m xs @ bytes_at (k + m) n xs = bytes_at k (m + n) xs"
  by (simp add: bytes_at_def take_add add.commute)

lemma length_blit [simp]: "k + length ys \<le> length xs \<Longrightarrow> length (blit xs k ys) = length xs"
  by (simp add: blit_def)

lemma blit_Nil [simp]: "blit xs k [] = xs"
  by (simp add: blit_def)

lemma bytes_at_blit_same [mem_simps]:
  "k + length ys \<le> length xs \<Longrightarrow> bytes_at k (length ys) (blit xs k ys) = ys"
  by (simp add: bytes_at_def blit_def)

lemma nth_blit:
  assumes "k + length ys \<le> length xs" and "i < length xs"
  shows "blit xs k ys ! i = (if k \<le> i \<and> i < k + length ys then ys ! (i - k) else xs ! i)"
  using assms by (auto simp: blit_def nth_append min_def)

lemma bytes_at_blit_other [mem_simps]:
  assumes "k + length ys \<le> length xs" and "j + n \<le> k \<or> k + length ys \<le> j"
  shows "bytes_at j n (blit xs k ys) = bytes_at j n xs"
proof (rule nth_equalityI)
  show "length (bytes_at j n (blit xs k ys)) = length (bytes_at j n xs)"
    using assms(1) by simp
  fix i assume "i < length (bytes_at j n (blit xs k ys))"
  then have "i < n" and "j + i < length xs" using assms(1) by auto
  then show "bytes_at j n (blit xs k ys) ! i = bytes_at j n xs ! i"
    using assms by (auto simp: nth_bytes_at nth_blit)
qed

lemma blit_self [mem_simps]: "k + n \<le> length xs \<Longrightarrow> blit xs k (bytes_at k n xs) = xs"
  by (rule nth_equalityI) (auto simp: nth_blit nth_bytes_at)

lemma blit_blit_same [mem_simps]:
  "length ys = length zs \<Longrightarrow> k + length ys \<le> length xs \<Longrightarrow> blit (blit xs k ys) k zs = blit xs k zs"
  by (rule nth_equalityI) (auto simp: nth_blit)

lemma bytes_at_blit_inside [mem_simps]:
  assumes "i + length ys \<le> n" and "k + n \<le> length xs"
  shows "bytes_at k n (blit xs (k + i) ys) = blit (bytes_at k n xs) i ys"
  using assms by (intro nth_equalityI) (auto simp: nth_bytes_at nth_blit)

lemma mem_read_ok [mem_simps]: "k + n \<le> length m \<Longrightarrow> mem_read m k n = Inr (bytes_at k n m)"
  by (simp add: mem_read_def)

lemma mem_read_oob: "0 < n \<Longrightarrow> length m < k + n \<Longrightarrow> mem_read m k n = Inl Out_Of_Bounds"
  by (simp add: mem_read_def)

lemma mem_read_Inr: "mem_read m k n = Inr bs \<Longrightarrow> bs = bytes_at k n m \<and> (n = 0 \<or> k + n \<le> length m)"
  by (auto simp: mem_read_def split: if_splits)

lemma mem_write_ok [mem_simps]: "k + length bs \<le> length m \<Longrightarrow> mem_write m k bs = Inr (blit m k bs)"
  by (simp add: mem_write_def)

lemma mem_copy_ok [mem_simps]:
  "i + n \<le> length dst \<Longrightarrow> j + n \<le> length src \<Longrightarrow>
   mem_copy dst i src j n = Inr (blit dst i (bytes_at j n src))"
  by (simp add: mem_copy_def mem_read_ok mem_write_ok)

lemma mem_copy_src_oob: "0 < n \<Longrightarrow> length src < j + n \<Longrightarrow> mem_copy dst i src j n = Inl Out_Of_Bounds"
  by (simp add: mem_copy_def mem_read_oob)

lemma mem_copy_0 [simp]: "mem_copy dst i src j 0 = Inr dst"
  by (simp add: mem_copy_def mem_read_def mem_write_def)

lemma mem_copy_length: "mem_copy dst i src j n = Inr dst' \<Longrightarrow> length dst' = length dst"
  by (auto simp: mem_copy_def mem_read_def mem_write_def res_bind_eq_Inr split: if_splits)

section \<open>Little-endian numbers\<close>

fun le_nat :: "u8 list \<Rightarrow> nat" where
  "le_nat [] = 0"
| "le_nat (b # bs) = unat b + 256 * le_nat bs"

fun le_bytes :: "nat \<Rightarrow> nat \<Rightarrow> u8 list" where
  "le_bytes 0 v = []"
| "le_bytes (Suc n) v = word_of_nat (v mod 256) # le_bytes n (v div 256)"

definition le_word :: "u8 list \<Rightarrow> 'a::len word" where
  "le_word bs = word_of_nat (le_nat bs)"

text \<open>A little-endian field of a packed structure at a byte offset of a memory.\<close>

definition le_at :: "u8 list \<Rightarrow> nat \<Rightarrow> nat \<Rightarrow> 'a::len word" where
  "le_at m k n = le_word (bytes_at k n m)"

lemma length_le_bytes [simp]: "length (le_bytes n v) = n"
  by (induction n arbitrary: v) auto

lemma le_nat_le_bytes: "le_nat (le_bytes n v) = v mod 256 ^ n"
  by (induction n arbitrary: v) (simp_all add: mod_mult2_eq unat_of_nat)

lemma le_nat_zeros: "le_nat (replicate n 0) = 0"
  by (induction n) simp_all

lemma le_nat_less: "le_nat bs < 256 ^ length bs"
proof (induction bs)
  case Nil
  then show ?case by simp
next
  case (Cons b bs)
  have "unat b < 256" using unsigned_less [of b] by simp
  with Cons show ?case by simp
qed

lemma le_word_le_bytes2 [simp]: "(le_word (le_bytes 2 (unat (w :: u16))) :: u16) = w"
  using unsigned_less [of w, where 'a = nat] by (simp add: le_word_def le_nat_le_bytes)

lemma le_word_le_bytes4 [simp]: "(le_word (le_bytes 4 (unat (w :: u32))) :: u32) = w"
  using unsigned_less [of w, where 'a = nat] by (simp add: le_word_def le_nat_le_bytes)

lemma bytes_at_table:
  "i < length xs \<Longrightarrow> bytes_at (4 * i) 4 (concat (map (le_bytes 4) xs) @ rest) = le_bytes 4 (xs ! i)"
proof (induction xs arbitrary: i)
  case Nil
  then show ?case by simp
next
  case (Cons x xs)
  show ?case
  proof (cases i)
    case 0
    then show ?thesis by (simp add: bytes_at_first)
  next
    case (Suc k)
    then show ?thesis using Cons by (simp add: bytes_at_after)
  qed
qed

lemma length_table: "length (concat (map (le_bytes 4) xs)) = 4 * length xs"
  by (induction xs) simp_all

lemma le_word_entry: "n < 2 ^ 32 \<Longrightarrow> (le_word (le_bytes 4 n) :: u32) = word_of_nat n"
  by (simp add: le_word_def le_nat_le_bytes)

section \<open>Words built from halves\<close>

lemma unat_and_1: "unat ((w :: 'a::len word) AND 1) = unat w mod 2"
  unfolding unsigned_and_eq unsigned_1 by (rule and_one_eq)

lemma join16_value:
  fixes a b :: u16
  shows "unat (push_bit 16 (ucast a) OR ucast b :: u32) = unat a * 65536 + unat b"
proof -
  have v: "unat a < 65536" "unat b < 65536"
    using unsigned_less [of a, where 'a = nat] unsigned_less [of b, where 'a = nat] by simp_all
  have "push_bit 16 (ucast a) OR ucast b = (push_bit 16 (ucast a) + ucast b :: u32)"
    by (rule disjunctive_add [symmetric]) (auto simp: bit_simps dest: bit_imp_le_length)
  then show ?thesis
    using v by (simp add: unat_word_ariths push_bit_eq_mult unsigned_ucast_eq take_bit_nat_eq_self)
qed

section \<open>Signed readings\<close>

lemma int_unat_less_2p63: "unat (w :: u64) < 2 ^ 63 \<Longrightarrow> int (unat w) < 2 ^ 63"
  using of_nat_less_iff [of "unat w" "2 ^ 63", where 'a = int] by (simp only: of_nat_power of_nat_numeral)

lemma sint_small: "unat (w :: u64) < 2 ^ 63 \<Longrightarrow> sint w = int (unat w)"
proof -
  assume a: "unat w < 2 ^ 63"
  have "- (2 ^ 63) \<le> int (unat w)" by (rule order_trans [of _ 0]) (simp, rule of_nat_0_le_iff)
  with int_unat_less_2p63 [OF a] have "signed_take_bit 63 (int (unat w)) = int (unat w)"
    by (rule signed_take_bit_int_eq_self [rotated])
  then show ?thesis by (simp add: sint_uint)
qed

lemma sint_diff_small:
  fixes a b :: u64
  assumes "unat a < 2 ^ 63" and "unat b < 2 ^ 63"
  shows "sint (a - b) = int (unat a) - int (unat b)"
proof -
  have "sint (a - b) = signed_take_bit 63 (int (unat a) - int (unat b))"
    unfolding sint_small [OF assms(1), symmetric] sint_small [OF assms(2), symmetric]
    by (simp add: sint_word_ariths(2))
  also have "\<dots> = int (unat a) - int (unat b)"
    using int_unat_less_2p63 [OF assms(1)] int_unat_less_2p63 [OF assms(2)]
    by (intro signed_take_bit_int_eq_self) linarith+
  finally show ?thesis .
qed

section \<open>C strings\<close>

text \<open>
  A C string is the list of its bytes before the terminator. \<open>strncmp_mem\<close> is
  \<open>strncmp(p, s, n) == 0\<close> for a pointer into a memory and a string: it stops at the first
  difference, at a common terminator, or after \<open>n\<close> bytes, and faults when it has to read
  outside the memory.
\<close>

definition cstr_at :: "u8 list \<Rightarrow> nat \<Rightarrow> u8" where
  "cstr_at s i = (if i < length s then s ! i else 0)"

fun strncmp_mem :: "u8 list \<Rightarrow> nat \<Rightarrow> u8 list \<Rightarrow> nat \<Rightarrow> nat \<Rightarrow> bool res" where
  "strncmp_mem m k s i 0 = Inr True"
| "strncmp_mem m k s i (Suc n) =
     (if k < length m then
        (if m ! k \<noteq> cstr_at s i then Inr False
         else if m ! k = 0 then Inr True
         else strncmp_mem m (Suc k) s (Suc i) n)
      else Inl Out_Of_Bounds)"

definition is_cstr :: "u8 list \<Rightarrow> bool" where
  "is_cstr s = (0 \<notin> set s)"

lemma strncmp_mem_take:
  assumes "is_cstr s" and "i + n \<le> length s" and "k + n \<le> length m"
  shows "strncmp_mem m k s i n = Inr (bytes_at k n m = bytes_at i n s)"
  using assms
proof (induction n arbitrary: k i)
  case 0
  then show ?case by simp
next
  case (Suc n)
  have b: "bytes_at k (Suc n) m = m ! k # bytes_at (Suc k) n m"
    using Suc.prems by (simp add: bytes_at_def flip: Cons_nth_drop_Suc)
  have c: "bytes_at i (Suc n) s = s ! i # bytes_at (Suc i) n s"
    using Suc.prems by (simp add: bytes_at_def flip: Cons_nth_drop_Suc)
  have "s ! i \<noteq> 0"
    using Suc.prems by (metis Suc_le_lessD add_Suc_right is_cstr_def le_add1 le_trans nth_mem not_less_eq_eq)
  with Suc b c show ?case by (auto simp: cstr_at_def)
qed

section \<open>Decimal numbers\<close>

text \<open>\<open>sprintf\<close> of an \<open>int\<close> with \<open>%d\<close>.\<close>

fun dec_digits :: "nat \<Rightarrow> u8 list" where
  "dec_digits n = (if n < 10 then [word_of_nat (48 + n)]
                   else dec_digits (n div 10) @ [word_of_nat (48 + n mod 10)])"

declare dec_digits.simps [simp del]

definition dec_int :: "u32 \<Rightarrow> u8 list" where
  "dec_int v = (if sint v < 0 then 45 # dec_digits (nat (- sint v)) else dec_digits (nat (sint v)))"

end
