(* ===== verification/Kernel_Api.thy ===== *)
theory Kernel_Api
  imports Drv_Prelude
begin

text \<open>
  The part of the kernel the drivers call that is not in this repository (\<open>lib/util.h\<close>,
  \<open>mm/allocator.h\<close>, \<open>fs/vfs.h\<close>, \<open>arch/io/port.h\<close>, \<open>lib/atomics.h\<close>,
  \<open>global.h\<close>): a record of functions over an arbitrary world \<open>'w\<close>, which every
  definition of the model takes as its first argument. What the drivers rely on is stated as
  predicates over the record; the record itself is never defined, except for the instance that
  the witnesses use.
\<close>

section \<open>The parameter\<close>

text \<open>
  \<open>k_masked_read v s m\<close> is the value of \<open>MASKED_READ(v, s, m)\<close>, and
  \<open>k_masked_write t v s m\<close> the value that \<open>MASKED_WRITE(t, v, s, m)\<close> leaves in
  \<open>t\<close>; a narrower operand is extended before and truncated after. Pointers are their
  addresses, with \<open>0\<close> for \<open>NULL\<close>. \<open>k_vfs_open p h w\<close> returns the new value of
  the handle variable, which held \<open>h\<close> before. \<open>k_vfs_read\<close> returns the count and the
  bytes it put at the start of the caller's buffer. \<open>k_fresh p i\<close> is what byte \<open>i\<close> of a block
  just allocated at \<open>p\<close> happens to hold.
\<close>

record 'w kernel =
  k_masked_read :: "u64 \<Rightarrow> nat \<Rightarrow> u64 \<Rightarrow> u64"
  k_masked_write :: "u64 \<Rightarrow> u64 \<Rightarrow> nat \<Rightarrow> u64 \<Rightarrow> u64"
  k_min :: "u64 \<Rightarrow> u64 \<Rightarrow> u64"
  k_align_up :: "u64 \<Rightarrow> u64 \<Rightarrow> u64"
  k_atomic_inc :: "u64 \<Rightarrow> u64 \<times> u64"
  k_std_buff_size :: u64
  k_alloc :: "u64 \<Rightarrow> 'w \<Rightarrow> u64 \<times> 'w"
  k_fresh :: "u64 \<Rightarrow> nat \<Rightarrow> u8"
  k_free :: "u64 \<Rightarrow> 'w \<Rightarrow> 'w"
  k_inb :: "u32 \<Rightarrow> 'w \<Rightarrow> u8 \<times> 'w"
  k_outb :: "u32 \<Rightarrow> u8 \<Rightarrow> 'w \<Rightarrow> 'w"
  k_vfs_open :: "u8 list \<Rightarrow> u64 \<Rightarrow> 'w \<Rightarrow> u64 \<times> 'w"
  k_vfs_close :: "u64 \<Rightarrow> 'w \<Rightarrow> 'w"
  k_vfs_seek :: "u64 \<Rightarrow> u64 \<Rightarrow> 'w \<Rightarrow> 'w"
  k_vfs_read :: "u64 \<Rightarrow> u64 \<Rightarrow> u64 \<Rightarrow> 'w \<Rightarrow> u64 \<times> u8 list \<times> 'w"
  k_vfs_write :: "u64 \<Rightarrow> u8 list \<Rightarrow> u64 \<Rightarrow> u64 \<Rightarrow> 'w \<Rightarrow> u64 \<times> 'w"

text \<open>The bytes of a freshly allocated block, which the drivers may read before they set them.\<close>

definition fresh_bytes :: "('w, 'z) kernel_scheme \<Rightarrow> u64 \<Rightarrow> u64 \<Rightarrow> u8 list" where
  "fresh_bytes K p n = map (k_fresh K p) [0..<unat n]"

lemma length_fresh_bytes [simp]: "length (fresh_bytes K p n) = unat n"
  by (simp add: fresh_bytes_def)

section \<open>What the drivers rely on\<close>

text \<open>
  The bit-field macros read and replace the field of mask \<open>m\<close> at shift \<open>s\<close>;
  \<open>min\<close> is the minimum; \<open>ARC_ATOMIC_INC\<close> increments and yields the new value (its
  only caller subtracts one).
\<close>

definition masked_read_ref :: "u64 \<Rightarrow> nat \<Rightarrow> u64 \<Rightarrow> u64" where
  "masked_read_ref v s m = drop_bit s v AND m"

definition masked_write_ref :: "u64 \<Rightarrow> u64 \<Rightarrow> nat \<Rightarrow> u64 \<Rightarrow> u64" where
  "masked_write_ref t v s m = (t AND NOT (push_bit s m)) OR push_bit s (v AND m)"

definition mask_laws :: "('w, 'z) kernel_scheme \<Rightarrow> bool" where
  "mask_laws K \<longleftrightarrow> k_masked_read K = masked_read_ref \<and> k_masked_write K = masked_write_ref"

definition min_law :: "('w, 'z) kernel_scheme \<Rightarrow> bool" where
  "min_law K \<longleftrightarrow> k_min K = min"

definition atomic_law :: "('w, 'z) kernel_scheme \<Rightarrow> bool" where
  "atomic_law K \<longleftrightarrow> k_atomic_inc K = (\<lambda>x. (x + 1, x + 1))"

lemma mask_lawsD:
  assumes "mask_laws K"
  shows "k_masked_read K v s m = drop_bit s v AND m"
    and "k_masked_write K t v s m = (t AND NOT (push_bit s m)) OR push_bit s (v AND m)"
  using assms by (simp_all add: mask_laws_def masked_read_ref_def masked_write_ref_def)

text \<open>
  A ledger of the allocator: \<open>live w\<close> holds the addresses in use. A successful
  \<open>alloc\<close> adds a fresh nonzero address, a failed one changes nothing, \<open>free\<close>
  of a live address removes it, and \<open>free(NULL)\<close> does nothing.
\<close>

locale kernel_heap =
  fixes K :: "('w, 'z) kernel_scheme" and live :: "'w \<Rightarrow> u64 set"
  assumes alloc_failed: "k_alloc K n w = (0, w') \<Longrightarrow> live w' = live w"
    and alloc_fresh: "k_alloc K n w = (p, w') \<Longrightarrow> p \<noteq> 0 \<Longrightarrow> p \<notin> live w"
    and alloc_adds: "k_alloc K n w = (p, w') \<Longrightarrow> p \<noteq> 0 \<Longrightarrow> live w' = insert p (live w)"
    and free_live: "p \<in> live w \<Longrightarrow> live (k_free K p w) = live w - {p}"
    and free_NULL: "live (k_free K 0 w) = live w"
begin

lemma free_after_alloc:
  "k_alloc K n w = (p, w') \<Longrightarrow> p \<noteq> 0 \<Longrightarrow> live (k_free K p w') = live w"
  using alloc_fresh alloc_adds free_live by (metis Diff_insert_absorb insertI1)

lemma alloc_mono: "k_alloc K n w = (p, w') \<Longrightarrow> live w \<subseteq> live w'"
  using alloc_failed alloc_adds by (cases "p = 0") auto

end

end
