(* ===== verification/Resource.thy ===== *)
theory Resource
  imports Kernel_Api
begin

text \<open>
  \<open>src/c/resource.c\<close> with the types of \<open>include/drivers/resource.h\<close>: looking a
  driver up in the generated table by index or by vendor code, creating a resource bound to it,
  and destroying the resource. The table (\<open>dri_defs.c\<close>) is generated by the build and is
  an argument of the definitions.
\<close>

section \<open>Types\<close>

datatype dri_grp = ARC_DRIGRP_FS_SUPER | ARC_DRIGRP_FS_DIR | ARC_DRIGRP_FS_FILE
  | ARC_DRIGRP_DEV_ACPI | ARC_DRIGRP_DEV_PCI | ARC_DRIGRP_DEV

primrec group_no :: "dri_grp \<Rightarrow> int" where
  "group_no ARC_DRIGRP_FS_SUPER = 0"
| "group_no ARC_DRIGRP_FS_DIR = 1"
| "group_no ARC_DRIGRP_FS_FILE = 2"
| "group_no ARC_DRIGRP_DEV_ACPI = 3"
| "group_no ARC_DRIGRP_DEV_PCI = 4"
| "group_no ARC_DRIGRP_DEV = 5"

text \<open>
  A driver definition is reached through a pointer (\<open>dptr\<close>); a resource holds that pointer,
  the driver's own state, and where it was found.
\<close>

type_synonym dptr = nat

record 'st resource =
  driver :: "dptr option"
  driver_state :: "'st option"
  res_id :: u64
  dri_index :: u64
  dri_group :: int

text \<open>
  The global \<open>current_id\<close> and the rest of the kernel. A driver's \<open>init\<close> gets the whole
  of it, since it may create further resources.
\<close>

record 'w rsys =
  current_id :: u64
  env :: 'w

text \<open>
  The function pointers of \<open>ARC_DriverDef\<close> that \<open>resource.c\<close> calls or reads; the others
  are in extensions of the record. \<open>None\<close> is \<open>NULL\<close>.
\<close>

record ('st, 'a, 'w) driver_def =
  drv_init :: "('st resource \<Rightarrow> 'a \<Rightarrow> 'w rsys \<Rightarrow> (int \<times> 'st resource \<times> 'w rsys) res) option"
  drv_uninit :: "('st resource \<Rightarrow> 'w rsys \<Rightarrow> (int \<times> 'w rsys) res) option"
  drv_codes :: "u64 list option"

record ('st, 'a, 'w) dri_table =
  t_groups :: int
  t_count :: "int \<Rightarrow> u64"
  t_rows :: "dptr option list list"
  t_deref :: "dptr \<Rightarrow> ('st, 'a, 'w) driver_def"
  t_terminator :: u64

text \<open>
  What the generator (\<open>tools/gen_dri_defs.py\<close>) writes: one row per group, the entry count of
  a group is its row's length and 0 for any other number, and a row's indices fit an \<open>int\<close>.
\<close>

definition table_laws :: "('st, 'a, 'w) dri_table \<Rightarrow> bool" where
  "table_laws T \<longleftrightarrow>
     t_groups T = int (length (t_rows T)) \<and>
     (\<forall>g. if 0 \<le> g \<and> g < t_groups T
          then unat (t_count T g) = length (t_rows T ! nat g) \<and> length (t_rows T ! nat g) < 2 ^ 31
          else t_count T g = 0)"

text \<open>\<open>arc_dris_table[g][i]\<close>.\<close>

definition table_at :: "('st, 'a, 'w) dri_table \<Rightarrow> int \<Rightarrow> nat \<Rightarrow> dptr option res" where
  "table_at T g i =
     (if 0 \<le> g \<and> nat g < length (t_rows T) \<and> i < length (t_rows T ! nat g)
      then Inr (t_rows T ! nat g ! i) else Inl Out_Of_Bounds)"

section \<open>Operations\<close>

definition sizeof_resource :: u64 where
  "sizeof_resource = 40"

definition init_resource ::
  "('w, 'z) kernel_scheme \<Rightarrow> ('st, 'a, 'w) dri_table \<Rightarrow> int \<Rightarrow> int \<Rightarrow> 'a \<Rightarrow> 'w rsys \<Rightarrow>
   ((u64 \<times> 'st resource) option \<times> 'w rsys) res" where
  "init_resource K T grp idx args s =
     (if grp < 0 \<or> idx < 0 \<or> grp \<ge> t_groups T \<or> (word_of_int idx :: u64) \<ge> t_count T grp
      then Inr (None, s)
      else res_bind (table_at T grp (nat idx)) (\<lambda>def.
        case def of None \<Rightarrow> Inr (None, s)
        | Some p \<Rightarrow>
          (case drv_init (t_deref T p) of None \<Rightarrow> Inr (None, s)
           | Some init \<Rightarrow>
             (case k_alloc K sizeof_resource (env s) of (a, w1) \<Rightarrow>
                if a = 0 then Inr (None, s\<lparr>env := w1\<rparr>)
                else (case k_atomic_inc K (current_id s) of (v, cur) \<Rightarrow>
                  res_bind (init \<lparr>driver = Some p, driver_state = None, res_id = v - 1,
                                  dri_index = word_of_int idx, dri_group = grp\<rparr> args
                                 \<lparr>current_id = cur, env = w1\<rparr>)
                    (\<lambda>(ret, r, s2).
                       if ret \<noteq> 0 then Inr (None, s2\<lparr>env := k_free K a (env s2)\<rparr>)
                       else Inr (Some (a, r), s2)))))))"

text \<open>
  The inner loop of \<open>internal_find_code\<close>: scan a code array up to its terminator. Reading
  past the end of an unterminated array is a fault.
\<close>

fun codes_match :: "u64 \<Rightarrow> u64 \<Rightarrow> u64 list \<Rightarrow> bool res" where
  "codes_match term target [] = Inl Out_Of_Bounds"
| "codes_match term target (c # cs) =
     (if c = term then Inr False else if c = target then Inr True else codes_match term target cs)"

text \<open>The outer loop from index \<open>i\<close>, with \<open>n\<close> entries left.\<close>

fun find_code_from :: "('st, 'a, 'w) dri_table \<Rightarrow> u64 \<Rightarrow> int \<Rightarrow> nat \<Rightarrow> nat \<Rightarrow> int res" where
  "find_code_from T target grp i 0 = Inr (- 1)"
| "find_code_from T target grp i (Suc n) =
     res_bind (table_at T grp i) (\<lambda>def.
       case def of None \<Rightarrow> find_code_from T target grp (Suc i) n
       | Some p \<Rightarrow>
         (case drv_codes (t_deref T p) of None \<Rightarrow> find_code_from T target grp (Suc i) n
          | Some cs \<Rightarrow>
            res_bind (codes_match (t_terminator T) target cs) (\<lambda>hit.
              if hit then Inr (sint (word_of_nat i :: 32 word))
              else find_code_from T target grp (Suc i) n)))"

definition internal_find_code :: "('st, 'a, 'w) dri_table \<Rightarrow> u64 \<Rightarrow> int \<Rightarrow> int res" where
  "internal_find_code T target grp = find_code_from T target grp 0 (unat (t_count T grp))"

definition pci_target :: "u16 \<Rightarrow> u16 \<Rightarrow> u32" where
  "pci_target vendor device = push_bit 16 (ucast vendor) OR ucast device"

definition init_pci_resource ::
  "('w, 'z) kernel_scheme \<Rightarrow> ('st, 'a, 'w) dri_table \<Rightarrow> u16 \<Rightarrow> u16 \<Rightarrow> 'a \<Rightarrow> 'w rsys \<Rightarrow>
   ((u64 \<times> 'st resource) option \<times> 'w rsys) res" where
  "init_pci_resource K T vendor device meta s =
     (if vendor = 0xFFFF \<and> device = 0xFFFF then Inr (None, s)
      else res_bind (internal_find_code T (ucast (pci_target vendor device)) (group_no ARC_DRIGRP_DEV_PCI))
             (\<lambda>index. init_resource K T (group_no ARC_DRIGRP_DEV_PCI) index meta s))"

definition init_acpi_resource ::
  "('w, 'z) kernel_scheme \<Rightarrow> ('st, 'a, 'w) dri_table \<Rightarrow> u64 \<Rightarrow> 'a \<Rightarrow> 'w rsys \<Rightarrow>
   ((u64 \<times> 'st resource) option \<times> 'w rsys) res" where
  "init_acpi_resource K T hid_hash args s =
     (if hid_hash = 0 then Inr (None, s)
      else res_bind (internal_find_code T hid_hash (group_no ARC_DRIGRP_DEV_ACPI))
             (\<lambda>index. init_resource K T (group_no ARC_DRIGRP_DEV_ACPI) index args s))"

definition uninit_resource ::
  "('w, 'z) kernel_scheme \<Rightarrow> ('st, 'a, 'w) dri_table \<Rightarrow> (u64 \<times> 'st resource) option \<Rightarrow> 'w rsys \<Rightarrow>
   (int \<times> 'w rsys) res" where
  "uninit_resource K T res s =
     (case res of None \<Rightarrow> Inr (1, s)
      | Some (a, r) \<Rightarrow>
        (case driver r of None \<Rightarrow> Inl Null_Deref
         | Some p \<Rightarrow>
           (case drv_uninit (t_deref T p) of None \<Rightarrow> Inl Null_Deref
            | Some un \<Rightarrow>
              res_bind (un r s) (\<lambda>(ret, s2). Inr (0, s2\<lparr>env := k_free K a (env s2)\<rparr>)))))"

section \<open>Looking a code up\<close>

text \<open>
  The specification: entry \<open>i\<close> of a group carries the code if it has a code array and the
  code stands before the terminator; the lookup returns the first such index, or \<open>-1\<close>.
\<close>

definition entry_has :: "('st, 'a, 'w) dri_table \<Rightarrow> u64 \<Rightarrow> int \<Rightarrow> nat \<Rightarrow> bool" where
  "entry_has T target grp i =
     (case t_rows T ! nat grp ! i of None \<Rightarrow> False
      | Some p \<Rightarrow> (case drv_codes (t_deref T p) of None \<Rightarrow> False
                  | Some cs \<Rightarrow> target \<in> set (takeWhile (\<lambda>c. c \<noteq> t_terminator T) cs)))"

definition first_entry :: "('st, 'a, 'w) dri_table \<Rightarrow> u64 \<Rightarrow> int \<Rightarrow> int" where
  "first_entry T target grp =
     (if 0 \<le> grp \<and> grp < t_groups T
      then (case find (entry_has T target grp) [0..<length (t_rows T ! nat grp)] of
              None \<Rightarrow> - 1 | Some j \<Rightarrow> int j)
      else - 1)"

definition codes_terminated :: "('st, 'a, 'w) dri_table \<Rightarrow> bool" where
  "codes_terminated T \<longleftrightarrow>
     (\<forall>row \<in> set (t_rows T). \<forall>p. Some p \<in> set row \<longrightarrow>
        (case drv_codes (t_deref T p) of None \<Rightarrow> True | Some cs \<Rightarrow> t_terminator T \<in> set cs))"

lemma codes_match_ok:
  "term \<in> set cs \<Longrightarrow>
   codes_match term target cs = Inr (target \<in> set (takeWhile (\<lambda>c. c \<noteq> term) cs))"
  by (induction cs) auto

lemma table_at_ok:
  assumes "table_laws T" and "0 \<le> g" and "g < t_groups T" and "i < length (t_rows T ! nat g)"
  shows "table_at T g i = Inr (t_rows T ! nat g ! i)"
  using assms by (auto simp: table_laws_def table_at_def nat_less_iff)

lemma table_laws_row:
  assumes "table_laws T" and "0 \<le> g" and "g < t_groups T"
  shows "unat (t_count T g) = length (t_rows T ! nat g)" and "length (t_rows T ! nat g) < 2 ^ 31"
    and "t_rows T ! nat g \<in> set (t_rows T)"
  using assms unfolding table_laws_def by (auto simp: nat_less_iff split: if_splits)

lemma table_laws_outside:
  "table_laws T \<Longrightarrow> \<not> (0 \<le> g \<and> g < t_groups T) \<Longrightarrow> t_count T g = 0"
  by (auto simp: table_laws_def)

lemma sint_index: "i < 2 ^ 31 \<Longrightarrow> sint (word_of_nat i :: 32 word) = int i"
  by (simp add: signed_of_nat signed_take_bit_int_eq_self)

lemma codes_terminatedD:
  assumes "codes_terminated T" and "row \<in> set (t_rows T)" and "Some p \<in> set row"
    and "drv_codes (t_deref T p) = Some cs"
  shows "t_terminator T \<in> set cs"
  using assms unfolding codes_terminated_def by fastforce

lemma find_code_from_find:
  assumes T: "table_laws T" "codes_terminated T" and g: "0 \<le> g" "g < t_groups T"
    and "i + n = length (t_rows T ! nat g)"
  shows "find_code_from T target g i n =
    Inr (case find (entry_has T target g) [i..<i + n] of None \<Rightarrow> - 1 | Some j \<Rightarrow> int j)"
  using assms(5)
proof (induction n arbitrary: i)
  case 0
  then show ?case by simp
next
  case (Suc n)
  let ?row = "t_rows T ! nat g"
  note row = table_laws_row [OF T(1) g]
  have i: "i < length ?row" using Suc.prems by simp
  have at: "table_at T g i = Inr (?row ! i)" by (rule table_at_ok [OF T(1) g i])
  have IH: "find_code_from T target g (Suc i) n =
      Inr (case find (entry_has T target g) [Suc i..<Suc i + n] of None \<Rightarrow> - 1 | Some j \<Rightarrow> int j)"
    using Suc.IH [of "Suc i"] Suc.prems by (simp del: upt_Suc)
  have list: "[i..<Suc (i + n)] = i # [Suc i..<Suc (i + n)]"
    by (simp add: upt_conv_Cons del: upt_Suc)
  have idx: "sint (word_of_nat i :: 32 word) = int i"
    using i row(2) by (intro sint_index) simp
  have "codes_match (t_terminator T) target cs =
      Inr (target \<in> set (takeWhile (\<lambda>c. c \<noteq> t_terminator T) cs))"
    if "?row ! i = Some p" and "drv_codes (t_deref T p) = Some cs" for p cs
    using codes_terminatedD [OF T(2) row(3) _ that(2)] that(1) i
    by (intro codes_match_ok) (metis nth_mem)
  then have "find_code_from T target g i (Suc n) =
      (if entry_has T target g i then Inr (int i) else find_code_from T target g (Suc i) n)"
    by (simp add: at idx entry_has_def split: option.split)
  then show ?case by (simp add: IH list del: upt_Suc find_code_from.simps)
qed

lemma find_code_eq_first_entry:
  assumes "table_laws T" and "codes_terminated T"
  shows "internal_find_code T target g = Inr (first_entry T target g)"
proof (cases "0 \<le> g \<and> g < t_groups T")
  case True
  then show ?thesis
    using find_code_from_find [OF assms, of g 0 "length (t_rows T ! nat g)" target]
      table_laws_row(1) [OF assms(1), of g]
    by (simp add: internal_find_code_def first_entry_def)
next
  case False
  then show ?thesis
    using table_laws_outside [OF assms(1)] by (auto simp: internal_find_code_def first_entry_def)
qed

lemma first_entry_bounds:
  assumes "first_entry T target g \<noteq> - 1"
  shows "0 \<le> g" and "g < t_groups T" and "0 \<le> first_entry T target g"
    and "nat (first_entry T target g) < length (t_rows T ! nat g)"
    and "entry_has T target g (nat (first_entry T target g))"
proof -
  show g: "0 \<le> g" "g < t_groups T"
    using assms by (auto simp: first_entry_def split: if_splits)
  then obtain j where j: "find (entry_has T target g) [0..<length (t_rows T ! nat g)] = Some j"
    using assms by (auto simp: first_entry_def split: option.splits)
  then have e: "first_entry T target g = int j" using g by (simp add: first_entry_def)
  from j show "0 \<le> first_entry T target g"
    and "nat (first_entry T target g) < length (t_rows T ! nat g)"
    and "entry_has T target g (nat (first_entry T target g))"
    by (auto simp: e find_Some_iff)
qed

section \<open>Creating a resource\<close>

definition fresh_resource :: "dptr \<Rightarrow> int \<Rightarrow> int \<Rightarrow> u64 \<Rightarrow> 'st resource" where
  "fresh_resource p g idx i =
     \<lparr>driver = Some p, driver_state = None, res_id = i, dri_index = word_of_int idx, dri_group = g\<rparr>"

text \<open>
  The index check compares as \<open>size_t\<close>; under the table's laws it is the plain bound, and the
  table access that follows it is in range.
\<close>

lemma index_check:
  assumes T: "table_laws T" and g: "0 \<le> g" "g < t_groups T" and i: "0 \<le> idx" "idx < 2 ^ 63"
  shows "t_count T g \<le> (word_of_int idx :: u64) \<longleftrightarrow> length (t_rows T ! nat g) \<le> nat idx"
proof -
  have "unat (word_of_int idx :: u64) = nat idx"
  proof -
    have "uint (word_of_int idx :: u64) = idx"
      unfolding uint_word_of_int using i by (intro mod_pos_pos_trivial) auto
    then show ?thesis by (simp only: unat_eq_nat_uint)
  qed
  then show ?thesis
    unfolding word_le_nat_alt table_laws_row(1) [OF T g] by (simp only:)
qed

lemma init_resource_invalid:
  assumes "table_laws T" and "idx < 2 ^ 63"
    and "\<not> (0 \<le> g \<and> g < t_groups T \<and> 0 \<le> idx \<and> nat idx < length (t_rows T ! nat g))"
  shows "init_resource K T g idx args s = Inr (None, s)"
  using assms index_check [OF assms(1), of g idx]
  by (auto simp: init_resource_def not_less)

lemma init_resource_valid:
  assumes T: "table_laws T" and "idx < 2 ^ 63" and "0 \<le> g" "g < t_groups T"
    and "0 \<le> idx" "nat idx < length (t_rows T ! nat g)"
  shows "init_resource K T g idx args s =
    (case t_rows T ! nat g ! nat idx of None \<Rightarrow> Inr (None, s)
     | Some p \<Rightarrow>
       (case drv_init (t_deref T p) of None \<Rightarrow> Inr (None, s)
        | Some init \<Rightarrow>
          (let (a, w1) = k_alloc K sizeof_resource (env s); (v, cur) = k_atomic_inc K (current_id s)
           in if a = 0 then Inr (None, s\<lparr>env := w1\<rparr>)
              else res_bind (init (fresh_resource p g idx (v - 1)) args \<lparr>current_id = cur, env = w1\<rparr>)
                     (\<lambda>(ret, r, s2).
                       if ret \<noteq> 0 then Inr (None, s2\<lparr>env := k_free K a (env s2)\<rparr>)
                       else Inr (Some (a, r), s2)))))"
proof -
  have c: "\<not> (g < 0 \<or> idx < 0 \<or> g \<ge> t_groups T \<or> (word_of_int idx :: u64) \<ge> t_count T g)"
    using assms index_check [OF T, of g idx] by simp
  show ?thesis
    unfolding init_resource_def if_not_P [OF c] table_at_ok [OF T assms(3,4,6)] res_bind_Inr
    by (cases "k_alloc K sizeof_resource (env s)"; cases "k_atomic_inc K (current_id s)")
      (simp add: fresh_resource_def split: option.split)
qed

text \<open>
  What every driver's \<open>init\<close> owes to \<open>resource.c\<close>: it leaves the identity of the
  resource and the id counter alone, and when it reports an error it has released what it took.
\<close>

locale driver_contract = kernel_heap +
  fixes init :: "'st resource \<Rightarrow> 'a \<Rightarrow> 'w rsys \<Rightarrow> (int \<times> 'st resource \<times> 'w rsys) res"
  assumes keeps_identity: "init r a s = Inr (ret, r', s') \<Longrightarrow>
      driver r' = driver r \<and> res_id r' = res_id r \<and> dri_index r' = dri_index r \<and> dri_group r' = dri_group r"
    and keeps_counter: "init r a s = Inr (ret, r', s') \<Longrightarrow> current_id s' = current_id s"
    and balanced: "init r a s = Inr (ret, r', s') \<Longrightarrow> ret \<noteq> 0 \<Longrightarrow> live (env s') = live (env s)"
    and grows: "init r a s = Inr (0, r', s') \<Longrightarrow> live (env s) \<subseteq> live (env s')"
begin

lemma init_resource_cases:
  assumes T: "table_laws T" and i: "idx < 2 ^ 63" and at: "atomic_law K"
    and entry: "\<And>p. t_rows T ! nat g ! nat idx = Some p \<Longrightarrow>
      drv_init (t_deref T p) = None \<or> drv_init (t_deref T p) = Some init"
    and res: "init_resource K T g idx args s = Inr (out, s')"
  obtains (fails) "out = None" "live (env s') = live (env s)"
      "current_id s' = current_id s \<or> current_id s' = current_id s + 1"
  | (created) p a r where "out = Some (a, r)" "0 \<le> g" "g < t_groups T" "0 \<le> idx"
      "nat idx < length (t_rows T ! nat g)" "t_rows T ! nat g ! nat idx = Some p"
      "driver r = Some p" "res_id r = current_id s" "dri_index r = word_of_int idx" "dri_group r = g"
      "a \<noteq> 0" "a \<notin> live (env s)" "insert a (live (env s)) \<subseteq> live (env s')"
      "current_id s' = current_id s + 1"
proof (cases "0 \<le> g \<and> g < t_groups T \<and> 0 \<le> idx \<and> nat idx < length (t_rows T ! nat g)")
  case False
  then show thesis using init_resource_invalid [OF T i False, of K args s] res fails by simp
next
  case True
  note eq = init_resource_valid [OF T i, of g K args s]
  obtain a w1 where aw: "k_alloc K sizeof_resource (env s) = (a, w1)" by fastforce
  show thesis
  proof (cases "t_rows T ! nat g ! nat idx")
    case None
    then show thesis using True eq res fails by simp
  next
    case (Some p)
    show thesis
    proof (cases "drv_init (t_deref T p) = None \<or> a = 0")
      case True2: True
      show thesis
      proof (cases "drv_init (t_deref T p)")
        case None
        then show thesis using True eq res fails Some by simp
      next
        case (Some f)
        with True2 have "a = 0" by simp
        then have "live w1 = live (env s)" using alloc_failed aw by blast
        moreover have "out = None" and "s' = s\<lparr>env := w1\<rparr>"
          using eq True res Some \<open>t_rows T ! nat g ! nat idx = Some p\<close> aw \<open>a = 0\<close>
          by (simp_all add: case_prod_beta Let_def)
        ultimately show thesis using fails by simp
      qed
    next
      case False
      then have f: "drv_init (t_deref T p) = Some init" and a: "a \<noteq> 0"
        using entry [OF Some] by auto
      let ?s1 = "\<lparr>current_id = current_id s + 1, env = w1\<rparr>"
      have "init_resource K T g idx args s =
          res_bind (init (fresh_resource p g idx (current_id s)) args ?s1)
            (\<lambda>(ret, r, s2). if ret \<noteq> 0 then Inr (None, s2\<lparr>env := k_free K a (env s2)\<rparr>)
                           else Inr (Some (a, r), s2))"
        using True Some f a aw at by (simp add: eq atomic_law_def)
      with res obtain ret r s2
        where call: "init (fresh_resource p g idx (current_id s)) args ?s1 = Inr (ret, r, s2)"
          and out: "(if ret \<noteq> 0 then (None, s2\<lparr>env := k_free K a (env s2)\<rparr>) else (Some (a, r), s2)) = (out, s')"
        by (auto simp: res_bind_eq_Inr split: if_splits)
      note fresh = alloc_fresh [OF aw a] and adds = alloc_adds [OF aw a]
      show thesis
      proof (cases "ret = 0")
        case False
        then have "live (env s2) = insert a (live (env s))" using balanced [OF call] adds by simp
        then have "live (k_free K a (env s2)) = live (env s)" using free_live [of a "env s2"] fresh by auto
        moreover have "out = None" and "s' = s2\<lparr>env := k_free K a (env s2)\<rparr>" using out False by auto
        ultimately show thesis using keeps_counter [OF call] by (intro fails) simp_all
      next
        case ret0: True
        then have "out = Some (a, r)" and "s' = s2" using out by auto
        moreover have "driver r = Some p" "res_id r = current_id s" "dri_index r = word_of_int idx"
            "dri_group r = g"
          using keeps_identity [OF call] by (simp_all add: fresh_resource_def)
        moreover have "insert a (live (env s)) \<subseteq> live (env s2)"
          using grows call ret0 adds by fastforce
        moreover have "current_id s2 = current_id s + 1" using keeps_counter [OF call] by simp
        ultimately show thesis using created Some True a fresh by blast
      qed
    qed
  qed
qed

end

text \<open>
  A driver whose state accounts for all it allocated, and whose \<open>uninit\<close> gives it back.
\<close>

locale driver_lifecycle = driver_contract +
  fixes uninit :: "'st resource \<Rightarrow> 'w rsys \<Rightarrow> (int \<times> 'w rsys) res"
    and owned :: "'st \<Rightarrow> u64 set"
    and valid :: "'st \<Rightarrow> bool"
  assumes init_owns: "init r a s = Inr (0, r', s') \<Longrightarrow>
      \<exists>st. driver_state r' = Some st \<and> valid st \<and> live (env s') = live (env s) \<union> owned st \<and>
           owned st \<inter> live (env s) = {}"
    and uninit_frees: "driver_state r = Some st \<Longrightarrow> valid st \<Longrightarrow> owned st \<subseteq> live (env s) \<Longrightarrow>
      \<exists>ret s'. uninit r s = Inr (ret, s') \<and> live (env s') = live (env s) - owned st"
begin

lemma init_uninit:
  assumes T: "table_laws T" and i: "idx < 2 ^ 63" and at: "atomic_law K"
    and entry: "t_rows T ! nat g ! nat idx = Some p" "drv_init (t_deref T p) = Some init"
      "drv_uninit (t_deref T p) = Some uninit"
    and res: "init_resource K T g idx args s = Inr (Some (a, r), s1)"
  shows "\<exists>s2. uninit_resource K T (Some (a, r)) s1 = Inr (0, s2) \<and> live (env s2) = live (env s)"
proof -
  have v: "0 \<le> g \<and> g < t_groups T \<and> 0 \<le> idx \<and> nat idx < length (t_rows T ! nat g)"
    using init_resource_invalid [OF T i, of g K args s] res by fastforce
  obtain a' w1 where aw: "k_alloc K sizeof_resource (env s) = (a', w1)" by fastforce
  from v res aw have "a' \<noteq> 0"
    using init_resource_valid [OF T i, of g K args s] entry
    by (auto simp: case_prod_beta Let_def split: if_splits)
  with res init_resource_valid [OF T i, of g K args s] v entry aw at
  have call: "init (fresh_resource p g idx (current_id s)) args
      \<lparr>current_id = current_id s + 1, env = w1\<rparr> = Inr (0, r, s1)" and [simp]: "a' = a"
    by (auto simp: atomic_law_def res_bind_eq_Inr split: if_splits)
  from init_owns [OF call] obtain st where st: "driver_state r = Some st" "valid st"
    and live1: "live (env s1) = live w1 \<union> owned st" and disj: "owned st \<inter> live w1 = {}" by auto
  from uninit_frees [OF st, of s1] live1 obtain ret s' where
    un: "uninit r s1 = Inr (ret, s')" and live': "live (env s') = live (env s1) - owned st" by auto
  have dr: "driver r = Some p" using keeps_identity [OF call] by (simp add: fresh_resource_def)
  have "live w1 = insert a (live (env s))" and "a \<notin> live (env s)"
    using alloc_adds [OF aw] alloc_fresh [OF aw] \<open>a' \<noteq> 0\<close> by simp_all
  with live1 disj live' have "live (env s') = insert a (live (env s))" by auto
  then have "live (k_free K a (env s')) = live (env s)"
    using free_live [of a "env s'"] \<open>a \<notin> live (env s)\<close> by auto
  then show ?thesis using dr entry(3) un by (simp add: uninit_resource_def)
qed

end

section \<open>Sequences of creations\<close>

text \<open>A run of \<open>init_resource\<close> calls, collecting the resources that were created.\<close>

fun init_all :: "('w, 'z) kernel_scheme \<Rightarrow> ('st, 'a, 'w) dri_table \<Rightarrow> (int \<times> int \<times> 'a) list \<Rightarrow> 'w rsys \<Rightarrow>
  ((u64 \<times> 'st resource) list \<times> 'w rsys) res" where
  "init_all K T [] s = Inr ([], s)"
| "init_all K T ((g, i, args) # reqs) s =
     res_bind (init_resource K T g i args s) (\<lambda>(r, s1).
       res_bind (init_all K T reqs s1) (\<lambda>(rs, s2).
         Inr (case r of None \<Rightarrow> rs | Some x \<Rightarrow> x # rs, s2)))"

definition all_contracts :: "('w, 'z) kernel_scheme \<Rightarrow> ('w \<Rightarrow> u64 set) \<Rightarrow> ('st, 'a, 'w) dri_table \<Rightarrow> bool" where
  "all_contracts K live T \<longleftrightarrow>
     (\<forall>p init. drv_init (t_deref T p) = Some init \<longrightarrow> driver_contract K live init)"

lemma init_resource_cases_all:
  assumes K: "kernel_heap K live" and A: "all_contracts K live T" and T: "table_laws T" and i: "idx < 2 ^ 63" and at: "atomic_law K"
    and res: "init_resource K T g idx args s = Inr (out, s')"
  obtains (fails) "out = None" "live (env s') = live (env s)"
      "current_id s' = current_id s \<or> current_id s' = current_id s + 1"
  | (created) p a r where "out = Some (a, r)" "0 \<le> g" "g < t_groups T" "0 \<le> idx"
      "nat idx < length (t_rows T ! nat g)" "t_rows T ! nat g ! nat idx = Some p"
      "driver r = Some p" "res_id r = current_id s" "dri_index r = word_of_int idx" "dri_group r = g"
      "a \<noteq> 0" "a \<notin> live (env s)" "insert a (live (env s)) \<subseteq> live (env s')"
      "current_id s' = current_id s + 1"
proof (cases "0 \<le> g \<and> g < t_groups T \<and> 0 \<le> idx \<and> nat idx < length (t_rows T ! nat g) \<and>
    (\<exists>p init. t_rows T ! nat g ! nat idx = Some p \<and> drv_init (t_deref T p) = Some init)")
  case False
  then have "out = None \<and> s' = s"
    using init_resource_invalid [OF T i, of g K args s] init_resource_valid [OF T i, of g K args s] res
    by (cases "0 \<le> g \<and> g < t_groups T \<and> 0 \<le> idx \<and> nat idx < length (t_rows T ! nat g)")
      (auto split: option.splits)
  then show thesis by (intro fails) simp_all
next
  case True
  then obtain p init where e: "t_rows T ! nat g ! nat idx = Some p" "drv_init (t_deref T p) = Some init"
    by blast
  with A have C: "driver_contract K live init" by (simp add: all_contracts_def)
  show thesis
    by (rule driver_contract.init_resource_cases [OF C T i at _ res, of thesis])
      (use e fails created in \<open>auto\<close>)
qed

text \<open>
  Every resource of a run has an id in the window the counter moves through, in increasing
  offsets, so ids repeat only when the counter wraps.
\<close>

lemma init_all_ids:
  assumes K: "kernel_heap K live" and A: "all_contracts K live T" and T: "table_laws T"
    and at: "atomic_law K" and reqs: "\<forall>(g, i, a) \<in> set reqs. i < 2 ^ 63"
    and res: "init_all K T reqs s = Inr (rs, s')"
  shows "\<exists>ks. sorted_wrt (<) ks \<and> (\<forall>k \<in> set ks. k < length reqs) \<and>
    map (\<lambda>x. res_id (snd x)) rs = map (\<lambda>k. current_id s + word_of_nat k) ks"
  using reqs res
proof (induction reqs arbitrary: s rs)
  case Nil
  then show ?case by (intro exI [of _ "[]"]) simp
next
  case (Cons q reqs)
  obtain g i args where q: "q = (g, i, args)" by (cases q)
  with Cons.prems(1) have i: "i < 2 ^ 63" by simp
  from Cons.prems(2) q obtain out s1 rs1 where first: "init_resource K T g i args s = Inr (out, s1)"
    and rest: "init_all K T reqs s1 = Inr (rs1, s')"
    and rs: "rs = (case out of None \<Rightarrow> rs1 | Some x \<Rightarrow> x # rs1)"
    by (auto simp: res_bind_eq_Inr)
  have "\<forall>(g, i, a) \<in> set reqs. i < 2 ^ 63" using Cons.prems(1) by simp
  from Cons.IH [OF this rest] obtain ks where ks: "sorted_wrt (<) ks"
    "\<forall>k \<in> set ks. k < length reqs"
    "map (\<lambda>x. res_id (snd x)) rs1 = map (\<lambda>k. current_id s1 + word_of_nat k) ks" by blast
  let ?up = "map Suc ks"
  have up: "sorted_wrt (<) (0 # ?up)" "\<forall>k \<in> set ?up. k < length (q # reqs)"
    using ks(1,2) by (auto simp: sorted_wrt_map)
  have shift: "current_id s1 = current_id s + 1 \<Longrightarrow>
      map (\<lambda>x. res_id (snd x)) rs1 = map (\<lambda>k. current_id s + word_of_nat k) ?up"
    using ks(3) by (simp add: add.assoc)
  show ?case
  proof (rule init_resource_cases_all [OF K A T i at first])
    assume "out = None" and "live (env s1) = live (env s)"
      and "current_id s1 = current_id s \<or> current_id s1 = current_id s + 1"
    then show ?thesis
    proof (elim disjE)
      assume "current_id s1 = current_id s"
      then show ?thesis using ks rs \<open>out = None\<close> by (intro exI [of _ ks]) auto
    next
      assume "current_id s1 = current_id s + 1"
      then show ?thesis using up shift rs \<open>out = None\<close> by (intro exI [of _ ?up]) auto
    qed
  next
    fix p a r assume "out = Some (a, r)" "res_id r = current_id s" "current_id s1 = current_id s + 1"
    then show ?thesis using up shift rs by (intro exI [of _ "0 # ?up"]) auto
  qed
qed

lemma init_all_live:
  assumes K: "kernel_heap K live" and A: "all_contracts K live T" and T: "table_laws T"
    and at: "atomic_law K" and reqs: "\<forall>(g, i, a) \<in> set reqs. i < 2 ^ 63"
    and res: "init_all K T reqs s = Inr (rs, s')"
  shows "distinct (map fst rs) \<and> fst ` set rs \<inter> live (env s) = {} \<and>
    live (env s) \<union> fst ` set rs \<subseteq> live (env s')"
  using reqs res
proof (induction reqs arbitrary: s rs)
  case Nil
  then show ?case by simp
next
  case (Cons q reqs)
  obtain g i args where q: "q = (g, i, args)" by (cases q)
  with Cons.prems(1) have i: "i < 2 ^ 63" by simp
  from Cons.prems(2) q obtain out s1 rs1 where first: "init_resource K T g i args s = Inr (out, s1)"
    and rest: "init_all K T reqs s1 = Inr (rs1, s')"
    and rs: "rs = (case out of None \<Rightarrow> rs1 | Some x \<Rightarrow> x # rs1)"
    by (auto simp: res_bind_eq_Inr)
  from Cons.IH [OF _ rest] Cons.prems(1) have IH: "distinct (map fst rs1)"
    "fst ` set rs1 \<inter> live (env s1) = {}" "live (env s1) \<union> fst ` set rs1 \<subseteq> live (env s')" by auto
  show ?case
  proof (rule init_resource_cases_all [OF K A T i at first])
    assume "out = None" and "live (env s1) = live (env s)"
    then show ?thesis using IH rs by simp
  next
    fix p a r assume "out = Some (a, r)" "a \<notin> live (env s)" "insert a (live (env s)) \<subseteq> live (env s1)"
    then show ?thesis using IH rs by auto
  qed
qed

lemma distinct_offsets:
  fixes c :: u64
  assumes "sorted_wrt (<) ks" and "\<forall>k \<in> set ks. k < n" and "n \<le> 2 ^ 64"
  shows "distinct (map (\<lambda>k. c + word_of_nat k) ks)"
proof -
  have "distinct ks" using assms(1) by (simp add: strict_sorted_iff)
  moreover have "inj_on (\<lambda>k. c + word_of_nat k) (set ks)"
  proof (rule inj_onI)
    fix a b assume ab: "a \<in> set ks" "b \<in> set ks" and "c + word_of_nat a = c + word_of_nat b"
    then have "unat (word_of_nat a :: u64) = unat (word_of_nat b :: u64)" by simp
    moreover have "a < 2 ^ 64" "b < 2 ^ 64" using ab assms(2,3) by fastforce+
    ultimately show "a = b" by (simp add: unat_of_nat)
  qed
  ultimately show ?thesis by (simp add: distinct_map)
qed

end
