(* ===== verification/Dri_Gen.thy ===== *)
theory Dri_Gen
  imports Resource "HOL-Library.AList"
begin

text \<open>
  \<open>tools/gen_dri_defs.py\<close>: the generator of the driver table. It reads the groups and the clusters of groups
  that share indices from \<open>resource.h\<close>, collects the registrations of the sources, gives each driver an index in
  its group and writes the table that \<open>resource.c\<close> indexes. A Python dictionary is an association list in the
  order of insertion, a file is the list of its lines.
\<close>

section \<open>Python\<close>

text \<open>The exceptions the generator can run into, and its own exit.\<close>

datatype gen_error = Key_Error | Index_Error | Value_Error | Unknown_Group

definition gen_bind :: "gen_error + 'a \<Rightarrow> ('a \<Rightarrow> gen_error + 'b) \<Rightarrow> gen_error + 'b" where
  "gen_bind m f = (case m of Inl e \<Rightarrow> Inl e | Inr x \<Rightarrow> f x)"

lemma gen_bind_simps [simp]: "gen_bind (Inl e) f = Inl e" "gen_bind (Inr x) f = f x"
  by (simp_all add: gen_bind_def)

fun gen_each :: "('a \<Rightarrow> 's \<Rightarrow> gen_error + 's) \<Rightarrow> 'a list \<Rightarrow> 's \<Rightarrow> gen_error + 's" where
  "gen_each f [] s = Inr s"
| "gen_each f (x # xs) s = gen_bind (f x s) (gen_each f xs)"

lemma gen_each_append: "gen_each f (xs @ ys) s = gen_bind (gen_each f xs s) (gen_each f ys)"
proof (induction xs arbitrary: s)
  case (Cons x xs)
  then show ?case by (cases "f x s") simp_all
qed simp

definition item :: "'a list \<Rightarrow> nat \<Rightarrow> gen_error + 'a" where
  "item xs i = (if i < length xs then Inr (xs ! i) else Inl Index_Error)"

definition keyed :: "('k \<times> 'v) list \<Rightarrow> 'k \<Rightarrow> gen_error + 'v" where
  "keyed d k = (case map_of d k of None \<Rightarrow> Inl Key_Error | Some v \<Rightarrow> Inr v)"

fun split_on :: "char \<Rightarrow> string \<Rightarrow> string list" where
  "split_on c [] = [[]]"
| "split_on c (x # xs) = (case split_on c xs of
     [] \<Rightarrow> [[]]
   | part # parts \<Rightarrow> if x = c then [] # part # parts else (x # part) # parts)"

fun starts_with :: "string \<Rightarrow> string \<Rightarrow> bool" where
  "starts_with [] ys = True"
| "starts_with (x # xs) [] = False"
| "starts_with (x # xs) (y # ys) = (x = y \<and> starts_with xs ys)"

text \<open>\<open>part in line\<close>.\<close>

fun occurs :: "string \<Rightarrow> string \<Rightarrow> bool" where
  "occurs part [] = (part = [])"
| "occurs part (y # ys) = (starts_with part (y # ys) \<or> occurs part ys)"

definition no_spaces :: "string \<Rightarrow> string" where
  "no_spaces = filter (\<lambda>c. c \<noteq> CHR '' '')"

text \<open>\<open>strip()\<close>, on ASCII text.\<close>

definition py_space :: "char \<Rightarrow> bool" where
  "py_space c \<longleftrightarrow> c \<in> set [CHR '' '', CHR 0x09, CHR 0x0A, CHR 0x0B, CHR 0x0C, CHR 0x0D, CHR 0x1C, CHR 0x1D, CHR 0x1E, CHR 0x1F]"

definition strip :: "string \<Rightarrow> string" where
  "strip xs = rev (dropWhile py_space (rev (dropWhile py_space xs)))"

text \<open>\<open>int(t)\<close> for unsigned decimal numbers without underscores; anything else is taken to be an error.\<close>

definition digit :: "char \<Rightarrow> gen_error + nat" where
  "digit c = (case map_of (zip ''0123456789'' [0, 1, 2, 3, 4, 5, 6, 7, 8, 9]) c of None \<Rightarrow> Inl Value_Error | Some n \<Rightarrow> Inr n)"

definition decimal :: "string \<Rightarrow> gen_error + nat" where
  "decimal xs = (if strip xs = [] then Inl Value_Error
     else gen_each (\<lambda>c n. gen_bind (digit c) (\<lambda>d. Inr (10 * n + d))) (strip xs) 0)"

section \<open>Reading the sources\<close>

type_synonym group = string
type_synonym name = string

text \<open>One line of \<open>resource.h\<close>, in or out of the enumeration.\<close>

definition symbol_line ::
  "string \<Rightarrow> bool \<times> nat \<times> (group \<times> nat) list \<Rightarrow> gen_error + bool \<times> nat \<times> (group \<times> nat) list" where
  "symbol_line line st =
     (case st of (recording, idx, symbols) \<Rightarrow>
        if occurs ''enum ARC_DRI_GROUP'' line then Inr (True, idx, symbols)
        else
          let recording' = (if occurs ''};'' line then False else recording)
          in if \<not> recording' then Inr (recording', idx, symbols)
             else
               let clean = hd (split_on (CHR '','') (no_spaces (strip line)))
               in gen_bind (if CHR ''='' \<in> set clean
                            then let t = split_on (CHR ''='') clean
                                 in gen_bind (item t 1) (\<lambda>n. gen_bind (decimal n) (\<lambda>i. Inr (hd t, i)))
                            else Inr (clean, idx))
                    (\<lambda>(clean', i). Inr (recording', i + 1, AList.update clean' i symbols)))"

definition get_group_indices_and_symbols :: "string list \<Rightarrow> gen_error + (group \<times> nat) list" where
  "get_group_indices_and_symbols file =
     gen_bind (gen_each symbol_line file (False, 0, [])) (\<lambda>(recording, idx, symbols). Inr symbols)"

text \<open>The arguments between the parentheses of a macro call.\<close>

definition macro_args :: "string \<Rightarrow> gen_error + string list" where
  "macro_args line =
     gen_bind (item (split_on (CHR ''('') (no_spaces line)) 1) (\<lambda>rest.
       Inr (split_on (CHR '','') (hd (split_on (CHR '')'') rest))))"

definition share_macro :: string where "share_macro = ''ARC_SHARE_DRIVER_INDICES''"
definition register_macro :: string where "register_macro = ''ARC_REGISTER_DRIVER''"

definition shared_line :: "string \<Rightarrow> group list list \<Rightarrow> gen_error + group list list" where
  "shared_line line shared =
     (if \<not> occurs share_macro line \<or> occurs ''#define'' line then Inr shared
      else gen_bind (macro_args line) (\<lambda>args. Inr (shared @ [args])))"

definition get_shared_groups :: "string list \<Rightarrow> gen_error + group list list" where
  "get_shared_groups file = gen_each shared_line file []"

type_synonym definitions = "(group \<times> (name \<times> int) list) list"

definition register :: "group \<Rightarrow> name \<Rightarrow> definitions \<Rightarrow> definitions" where
  "register g n D = AList.update g (AList.update n (- 1) (case map_of D g of None \<Rightarrow> [] | Some d \<Rightarrow> d)) D"

definition source_line :: "string \<Rightarrow> definitions \<Rightarrow> gen_error + definitions" where
  "source_line line D =
     (if \<not> occurs register_macro line \<or> occurs ''#define'' line then Inr D
      else gen_bind (macro_args line) (\<lambda>args.
             gen_bind (item args 0) (\<lambda>g. gen_bind (item args 1) (\<lambda>n. Inr (register g n D)))))"

text \<open>The files come in the order of the directory, the lines of a file from the last to the first.\<close>

definition enumerate_source_files :: "string list list \<Rightarrow> gen_error + definitions" where
  "enumerate_source_files files = gen_each (\<lambda>file. gen_each source_line (rev file)) files []"

section \<open>Giving indices\<close>

type_synonym gen_state = "definitions \<times> (group \<times> int) list"

text \<open>One group \<open>h\<close> of the cluster: a driver that is not registered there is marked by -100.\<close>

definition place_in :: "name \<Rightarrow> int \<Rightarrow> group \<Rightarrow> gen_state \<Rightarrow> gen_error + gen_state" where
  "place_in n idx h = (\<lambda>(D, I).
     gen_bind (keyed D h) (\<lambda>d.
       case map_of d n of
         None \<Rightarrow> Inr (AList.update h (AList.update n (- 100) d) D, I)
       | Some v \<Rightarrow>
           if v = - 1 then Inr (AList.update h (AList.update n idx d) D, AList.update h (idx + 1) I)
           else Inr (D, I)))"

text \<open>
  The index comes from the last group of the cluster. The order in which Python lists the set of groups is
  the argument \<open>listing\<close>.
\<close>

definition place_name ::
  "(group list \<Rightarrow> group list) \<Rightarrow> group list list \<Rightarrow> group \<Rightarrow> name \<Rightarrow> gen_state \<Rightarrow> gen_error + gen_state" where
  "place_name listing shared g n = (\<lambda>(D, I).
     case map_of I g of None \<Rightarrow> Inl Unknown_Group
     | Some own \<Rightarrow>
       gen_bind (case find (\<lambda>cluster. g \<in> set cluster) shared of
                   None \<Rightarrow> Inr ([g], own)
                 | Some cluster \<Rightarrow> gen_bind (gen_each (\<lambda>h _. keyed I h) cluster own) (\<lambda>idx. Inr (g # cluster, idx)))
         (\<lambda>(increment, idx). gen_each (place_in n idx) (listing increment) (D, I)))"

definition place_group ::
  "(group list \<Rightarrow> group list) \<Rightarrow> group list list \<Rightarrow> group \<Rightarrow> gen_state \<Rightarrow> gen_error + gen_state" where
  "place_group listing shared g = (\<lambda>(D, I).
     gen_bind (keyed D g) (\<lambda>d. gen_each (place_name listing shared g) (map fst d) (D, I)))"

definition fill_in_indices ::
  "(group list \<Rightarrow> group list) \<Rightarrow> group list list \<Rightarrow> (group \<times> nat) list \<Rightarrow> definitions \<Rightarrow> gen_error + definitions" where
  "fill_in_indices listing shared symbols D =
     gen_bind (gen_each (place_group listing shared) (map fst D) (D, map (\<lambda>(s, i). (s, 0)) symbols)) (\<lambda>(D', I). Inr D')"

definition patch_definitions :: "(group \<times> nat) list \<Rightarrow> definitions \<Rightarrow> definitions" where
  "patch_definitions symbols D =
     fold (\<lambda>(s, i) D. case map_of D s of None \<Rightarrow> AList.update s [] D | Some d \<Rightarrow> D) symbols D"

section \<open>Writing the table\<close>

text \<open>The size of a group's array; it is negative when all drivers of the group are marked.\<close>

definition largest_idx :: "(name \<times> int) list \<Rightarrow> int" where
  "largest_idx d = (if d = [] then 0 else Max (set (map snd d)) + 1)"

text \<open>The lines of a group's array: the names of its drivers, \<open>None\<close> for \<open>NULL\<close>.\<close>

definition gen_row :: "(name \<times> int) list \<Rightarrow> name option list" where
  "gen_row d = fold (\<lambda>(n, idx) row. if idx < 0 then row else row[nat idx := Some n]) d
     (replicate (nat (largest_idx d)) None)"

text \<open>The header's macro \<open>ARC_DRIDEF_<group>_<name>\<close>.\<close>

definition dridef :: "definitions \<Rightarrow> group \<Rightarrow> name \<Rightarrow> int option" where
  "dridef D g n = (case map_of D g of None \<Rightarrow> None
     | Some d \<Rightarrow> (case map_of d n of None \<Rightarrow> None | Some idx \<Rightarrow> if idx < 0 then None else Some idx))"

text \<open>
  The table as \<open>resource.c\<close> sees it. \<open>addr\<close> is where the linker puts the definition of a driver, \<open>deref\<close> what is
  there. The rows stand at the numbers of the symbols; \<open>dridefs_get_entry_count\<close> is the switch over them.
\<close>

definition entry_count :: "(group \<times> nat) list \<Rightarrow> definitions \<Rightarrow> int \<Rightarrow> u64" where
  "entry_count symbols D g =
     (if g \<ge> int (length symbols) then 0
      else case find (\<lambda>(s, i). int i = g) symbols of
             None \<Rightarrow> 0
           | Some (s, i) \<Rightarrow> word_of_int (case map_of D s of None \<Rightarrow> 0 | Some d \<Rightarrow> largest_idx d))"

definition gen_table ::
  "(group \<Rightarrow> name \<Rightarrow> dptr) \<Rightarrow> (dptr \<Rightarrow> ('st, 'a, 'w) driver_def) \<Rightarrow> (group \<times> nat) list \<Rightarrow> definitions \<Rightarrow>
   ('st, 'a, 'w) dri_table" where
  "gen_table addr deref symbols D =
     \<lparr>t_groups = int (length D), t_count = entry_count symbols D,
      t_rows = map (\<lambda>i. case find (\<lambda>(s, j). j = i) symbols of
                          None \<Rightarrow> []
                        | Some (s, j) \<Rightarrow> map (map_option (addr s)) (gen_row (case map_of D s of None \<Rightarrow> [] | Some d \<Rightarrow> d)))
                 [0..<(if symbols = [] then 0 else Max (set (map snd symbols)) + 1)],
      t_deref = deref, t_terminator = - 1\<rparr>"

text \<open>The whole run.\<close>

definition gen_dri_defs ::
  "(group list \<Rightarrow> group list) \<Rightarrow> string list \<Rightarrow> string list list \<Rightarrow> gen_error + (group \<times> nat) list \<times> definitions" where
  "gen_dri_defs listing header files =
     gen_bind (get_group_indices_and_symbols header) (\<lambda>symbols.
     gen_bind (get_shared_groups header) (\<lambda>shared.
     gen_bind (enumerate_source_files files) (\<lambda>D.
     gen_bind (fill_in_indices listing shared symbols D) (\<lambda>D'. Inr (symbols, patch_definitions symbols D')))))"

end
