(* ===== verification/Dri_Gen_Props.thy ===== *)
theory Dri_Gen_Props
  imports Dri_Gen
begin

text \<open>
  The indices of the generated table: an invariant of the loops of \<open>fill_in_indices\<close>, and what it gives for the
  rows of the table.
\<close>

section \<open>Loops\<close>

lemma gen_each_run:
  assumes step: "\<And>x s. x \<in> set xs \<Longrightarrow> P s \<Longrightarrow> \<exists>s'. f x s = Inr s' \<and> P s' \<and> R s s' \<and> Q x s'"
    and R: "\<And>s. R s s" "\<And>s t u. R s t \<Longrightarrow> R t u \<Longrightarrow> R s u" and stable: "\<And>x s s'. Q x s \<Longrightarrow> R s s' \<Longrightarrow> Q x s'"
    and "P s"
  shows "\<exists>s'. gen_each f xs s = Inr s' \<and> P s' \<and> R s s' \<and> (\<forall>x \<in> set xs. Q x s')"
  using step \<open>P s\<close>
proof (induction xs arbitrary: s)
  case Nil
  then show ?case using R(1) by simp
next
  case (Cons x xs)
  obtain t where t: "f x s = Inr t" "P t" "R s t" "Q x t" using Cons.prems by (meson list.set_intros(1))
  have "\<And>y u. y \<in> set xs \<Longrightarrow> P u \<Longrightarrow> \<exists>u'. f y u = Inr u' \<and> P u' \<and> R u u' \<and> Q y u'" using Cons.prems(1) by simp
  from Cons.IH [OF this t(2)] obtain s' where s': "gen_each f xs t = Inr s'" "P s'" "R t s'" "\<forall>y \<in> set xs. Q y s'" by blast
  have "gen_each f (x # xs) s = Inr s'" using t(1) s'(1) by simp
  moreover have "R s s'" by (rule R(2) [OF t(3) s'(3)])
  moreover have "Q x s'" by (rule stable [OF t(4) s'(3)])
  ultimately show ?case using s'(2,4) by auto
qed

section \<open>Entries\<close>

definition val_at :: "definitions \<Rightarrow> group \<Rightarrow> name \<Rightarrow> int option" where
  "val_at D g n = (case map_of D g of None \<Rightarrow> None | Some d \<Rightarrow> map_of d n)"

definition placed :: "int \<Rightarrow> int option \<Rightarrow> int option" where
  "placed idx v = (case v of None \<Rightarrow> Some (- 100) | Some v \<Rightarrow> Some (if v = - 1 then idx else v))"

text \<open>The dictionaries have each key once.\<close>

definition dicts :: "definitions \<Rightarrow> bool" where
  "dicts D \<longleftrightarrow> distinct (map fst D) \<and> (\<forall>g d. map_of D g = Some d \<longrightarrow> distinct (map fst d))"

lemma dicts_update:
  assumes "dicts D" and "map_of D h = Some d"
  shows "dicts (AList.update h (AList.update n v d) D)"
    and "map fst (AList.update h (AList.update n v d) D) = map fst D"
    and "val_at (AList.update h (AList.update n v d) D) g m = (if g = h \<and> m = n then Some v else val_at D g m)"
proof -
  have "h \<in> fst ` set D" using assms(2) by (metis domI dom_map_of_conv_image_fst)
  then show "map fst (AList.update h (AList.update n v d) D) = map fst D" by (simp add: update_keys)
  show "dicts (AList.update h (AList.update n v d) D)"
    using assms unfolding dicts_def by (auto simp: distinct_update update_conv')
  show "val_at (AList.update h (AList.update n v d) D) g m = (if g = h \<and> m = n then Some v else val_at D g m)"
    using assms(2) by (auto simp: val_at_def update_conv')
qed

lemma place_in_effect:
  assumes "dicts D" and "h \<in> fst ` set D"
  obtains D' I' where "place_in n idx h (D, I) = Inr (D', I')" "dicts D'" "map fst D' = map fst D"
    "\<And>g m. val_at D' g m = (if g = h \<and> m = n then placed idx (val_at D h n) else val_at D g m)"
    "\<And>g. map_of I' g = (if g = h \<and> val_at D h n = Some (- 1) then Some (idx + 1) else map_of I g)"
proof -
  obtain d where d: "map_of D h = Some d" using assms(2) by (metis domD dom_map_of_conv_image_fst)
  have v: "val_at D h n = map_of d n" using d by (simp add: val_at_def)
  consider "map_of d n = None" | "map_of d n = Some (- 1)" | w where "map_of d n = Some w" "w \<noteq> - 1" by fastforce
  then show thesis
  proof cases
    case 1
    with d show thesis
      by (intro that [of "AList.update h (AList.update n (- 100) d) D" I])
        (auto simp: place_in_def keyed_def v placed_def dicts_update [OF assms(1)])
  next
    case 2
    with d show thesis
      by (intro that [of "AList.update h (AList.update n idx d) D" "AList.update h (idx + 1) I"])
        (auto simp: place_in_def keyed_def v placed_def dicts_update [OF assms(1)] update_conv')
  next
    case 3
    with d assms(1) show thesis by (intro that [of D I]) (auto simp: place_in_def keyed_def v placed_def)
  qed
qed

lemma place_all_effect:
  assumes "dicts D" and "set hs \<subseteq> fst ` set D" and "distinct hs"
  shows "\<exists>D' I'. gen_each (place_in n idx) hs (D, I) = Inr (D', I') \<and> dicts D' \<and> map fst D' = map fst D \<and>
    (\<forall>g m. val_at D' g m = (if g \<in> set hs \<and> m = n then placed idx (val_at D g n) else val_at D g m)) \<and>
    (\<forall>g. map_of I' g = (if g \<in> set hs \<and> val_at D g n = Some (- 1) then Some (idx + 1) else map_of I g))"
  using assms
proof (induction hs arbitrary: D I)
  case Nil
  then show ?case by simp
next
  case (Cons h hs)
  have "h \<in> fst ` set D" using Cons.prems by simp
  from place_in_effect [OF Cons.prems(1) this, of n idx I]
  obtain D1 I1 where 1: "place_in n idx h (D, I) = Inr (D1, I1)" "dicts D1" "map fst D1 = map fst D"
    "\<And>g m. val_at D1 g m = (if g = h \<and> m = n then placed idx (val_at D h n) else val_at D g m)"
    "\<And>g. map_of I1 g = (if g = h \<and> val_at D h n = Some (- 1) then Some (idx + 1) else map_of I g)" by metis
  have "fst ` set D1 = fst ` set D" using 1(3) by (metis list.set_map)
  then have "set hs \<subseteq> fst ` set D1" "distinct hs" using Cons.prems(2,3) by auto
  from Cons.IH [OF 1(2) this, of I1]
  obtain D' I' where 2: "gen_each (place_in n idx) hs (D1, I1) = Inr (D', I')" "dicts D'" "map fst D' = map fst D1"
    "\<And>g m. val_at D' g m = (if g \<in> set hs \<and> m = n then placed idx (val_at D1 g n) else val_at D1 g m)"
    "\<And>g. map_of I' g = (if g \<in> set hs \<and> val_at D1 g n = Some (- 1) then Some (idx + 1) else map_of I1 g)"
    by metis
  have "gen_each (place_in n idx) (h # hs) (D, I) = Inr (D', I')" using 1(1) 2(1) by simp
  moreover have "val_at D' g m = (if g \<in> set (h # hs) \<and> m = n then placed idx (val_at D g n) else val_at D g m)" for g m
    using Cons.prems(3) by (auto simp: 2(4) 1(4))
  moreover have "map_of I' g = (if g \<in> set (h # hs) \<and> val_at D g n = Some (- 1) then Some (idx + 1) else map_of I g)" for g
    using Cons.prems(3) by (auto simp: 2(5) 1(4,5))
  ultimately show ?case using 1(3) 2(2,3) by (intro exI [of _ D'] exI [of _ I'] conjI allI) simp_all
qed

section \<open>Clusters\<close>

definition cluster_of :: "group list list \<Rightarrow> group \<Rightarrow> group list" where
  "cluster_of shared g = (case find (\<lambda>c. g \<in> set c) shared of None \<Rightarrow> [g] | Some c \<Rightarrow> c)"

text \<open>The group the index of a driver of \<open>g\<close> is taken from.\<close>

definition lead :: "group list list \<Rightarrow> group \<Rightarrow> group" where
  "lead shared g = last (cluster_of shared g)"

lemma in_cluster: "g \<in> set (cluster_of shared g)"
  by (auto simp: cluster_of_def find_Some_iff split: option.split)

lemma lead_in: "lead shared g \<in> set (cluster_of shared g)"
  using in_cluster [of g shared] unfolding lead_def by (cases "cluster_of shared g") auto

definition listing_ok :: "(group list \<Rightarrow> group list) \<Rightarrow> bool" where
  "listing_ok listing \<longleftrightarrow> (\<forall>xs. set (listing xs) = set xs \<and> distinct (listing xs))"

lemma last_index:
  assumes "\<forall>h \<in> set hs. \<exists>i. map_of I h = Some i" and "hs \<noteq> []"
  shows "gen_each (\<lambda>h _. keyed I h) hs own = Inr (the (map_of I (last hs)))"
  using assms
proof (induction hs arbitrary: own)
  case (Cons h hs)
  then show ?case by (cases "hs = []") (auto simp: keyed_def)
qed simp

lemma place_name_effect:
  assumes "dicts D" and "listing_ok listing" and "set (cluster_of shared g) \<subseteq> fst ` set D"
    and I: "\<forall>h \<in> set (cluster_of shared g). \<exists>i. map_of I h = Some i" and i: "map_of I (lead shared g) = Some i"
  shows "\<exists>D' I'. place_name listing shared g n (D, I) = Inr (D', I') \<and> dicts D' \<and> map fst D' = map fst D \<and>
    (\<forall>h m. val_at D' h m = (if h \<in> set (cluster_of shared g) \<and> m = n then placed i (val_at D h n) else val_at D h m)) \<and>
    (\<forall>h. map_of I' h = (if h \<in> set (cluster_of shared g) \<and> val_at D h n = Some (- 1) then Some (i + 1) else map_of I h))"
proof -
  obtain own where own: "map_of I g = Some own" using I in_cluster [of g shared] by blast
  define inc where "inc = (case find (\<lambda>c. g \<in> set c) shared of None \<Rightarrow> [g] | Some c \<Rightarrow> g # c)"
  have inc: "set inc = set (cluster_of shared g)"
    using in_cluster [of g shared] by (auto simp: inc_def cluster_of_def split: option.split)
  have "place_name listing shared g n (D, I) = gen_each (place_in n i) (listing inc) (D, I)"
  proof (cases "find (\<lambda>c. g \<in> set c) shared")
    case None
    then show ?thesis using own i by (simp add: place_name_def inc_def lead_def cluster_of_def)
  next
    case (Some c)
    then have c: "cluster_of shared g = c" by (simp add: cluster_of_def)
    have "c \<noteq> []" using in_cluster [of g shared] c by auto
    then have "gen_each (\<lambda>h _. keyed I h) c own = Inr i" using last_index [of c I own] I i c by (simp add: lead_def)
    then show ?thesis using own Some by (simp add: place_name_def inc_def)
  qed
  moreover have L: "set (listing inc) = set (cluster_of shared g)" "distinct (listing inc)"
    using assms(2) inc unfolding listing_ok_def by auto
  ultimately show ?thesis using place_all_effect [OF assms(1) _ L(2), of n i I] assms(3) by (simp add: L(1))
qed

section \<open>The invariant\<close>

definition registered :: "definitions \<Rightarrow> group \<Rightarrow> name \<Rightarrow> bool" where
  "registered D g n \<longleftrightarrow> val_at D g n \<noteq> None"

text \<open>
  What the generator is given: every driver unnumbered, every group known; clusters are disjoint, every group of
  one has a driver, and its last group has all the names of the others.
\<close>

definition gen_input :: "group list list \<Rightarrow> (group \<times> nat) list \<Rightarrow> definitions \<Rightarrow> bool" where
  "gen_input shared symbols D \<longleftrightarrow> dicts D \<and> (\<forall>g n v. val_at D g n = Some v \<longrightarrow> v = - 1) \<and>
     fst ` set D \<subseteq> fst ` set symbols \<and>
     (\<forall>g \<in> fst ` set D. \<forall>h \<in> set (cluster_of shared g). h \<in> fst ` set D \<and> cluster_of shared h = cluster_of shared g) \<and>
     (\<forall>g n. registered D g n \<longrightarrow> registered D (lead shared g) n) \<and> (\<forall>g \<in> fst ` set D. \<exists>n. registered D g n)"

lemma gen_inputD:
  assumes "gen_input shared symbols D"
  shows "dicts D" and "\<And>g n v. val_at D g n = Some v \<Longrightarrow> v = - 1" and "fst ` set D \<subseteq> fst ` set symbols"
    and "\<And>g h. g \<in> fst ` set D \<Longrightarrow> h \<in> set (cluster_of shared g) \<Longrightarrow> h \<in> fst ` set D"
    and "\<And>g h. g \<in> fst ` set D \<Longrightarrow> h \<in> set (cluster_of shared g) \<Longrightarrow> cluster_of shared h = cluster_of shared g"
    and "\<And>g n. registered D g n \<Longrightarrow> registered D (lead shared g) n" and "\<And>g. g \<in> fst ` set D \<Longrightarrow> \<exists>n. registered D g n"
proof -
  note all = assms [unfolded gen_input_def]
  show "dicts D"
    using all [THEN conjunct1] by blast
  show "\<And>g n v. val_at D g n = Some v \<Longrightarrow> v = - 1"
    using all [THEN conjunct2, THEN conjunct1] by blast
  show "fst ` set D \<subseteq> fst ` set symbols"
    using all [THEN conjunct2, THEN conjunct2, THEN conjunct1] by blast
  show "\<And>g h. g \<in> fst ` set D \<Longrightarrow> h \<in> set (cluster_of shared g) \<Longrightarrow> h \<in> fst ` set D"
    using all [THEN conjunct2, THEN conjunct2, THEN conjunct2, THEN conjunct1] by blast
  show "\<And>g h. g \<in> fst ` set D \<Longrightarrow> h \<in> set (cluster_of shared g) \<Longrightarrow> cluster_of shared h = cluster_of shared g"
    using all [THEN conjunct2, THEN conjunct2, THEN conjunct2, THEN conjunct1] by blast
  show "\<And>g n. registered D g n \<Longrightarrow> registered D (lead shared g) n"
    using all [THEN conjunct2, THEN conjunct2, THEN conjunct2, THEN conjunct2, THEN conjunct1] by blast
  show "\<And>g. g \<in> fst ` set D \<Longrightarrow> \<exists>n. registered D g n"
    using all [THEN conjunct2, THEN conjunct2, THEN conjunct2, THEN conjunct2, THEN conjunct2] by blast
qed

text \<open>The numbered drivers of a group that leads.\<close>

definition numbered :: "definitions \<Rightarrow> group \<Rightarrow> name set" where
  "numbered D g = {n. \<exists>v \<ge> 0. val_at D g n = Some v}"

definition gen_inv :: "group list list \<Rightarrow> definitions \<Rightarrow> gen_state \<Rightarrow> bool" where
  "gen_inv shared D0 = (\<lambda>(D, I). dicts D \<and> map fst D = map fst D0 \<and>
     (\<forall>g \<in> fst ` set D0. \<exists>i. map_of I g = Some i) \<and>
     (\<forall>g n. registered D0 g n \<longrightarrow> (\<exists>v \<ge> - 1. val_at D g n = Some v)) \<and>
     (\<forall>g n. \<not> registered D0 g n \<longrightarrow> val_at D g n \<in> {None, Some (- 100)}) \<and>
     (\<forall>g n. registered D0 g n \<longrightarrow> val_at D g n = val_at D (lead shared g) n) \<and>
     (\<forall>g \<in> fst ` set D0. lead shared g = g \<longrightarrow> map_of I g = Some (int (card (numbered D g)))) \<and>
     (\<forall>g n v. g \<in> fst ` set D0 \<and> lead shared g = g \<and> 0 \<le> v \<and> val_at D g n = Some v \<longrightarrow> v < int (card (numbered D g))) \<and>
     (\<forall>g n m v. g \<in> fst ` set D0 \<and> lead shared g = g \<and> 0 \<le> v \<and> val_at D g n = Some v \<and> val_at D g m = Some v \<longrightarrow> m = n))"

lemma gen_invD:
  assumes "gen_inv shared D0 (D, I)"
  shows "dicts D" and "map fst D = map fst D0" and "\<And>g. g \<in> fst ` set D0 \<Longrightarrow> \<exists>i. map_of I g = Some i"
    and "\<And>g n. registered D0 g n \<Longrightarrow> \<exists>v \<ge> - 1. val_at D g n = Some v"
    and "\<And>g n. \<not> registered D0 g n \<Longrightarrow> val_at D g n \<in> {None, Some (- 100)}"
    and "\<And>g n. registered D0 g n \<Longrightarrow> val_at D g n = val_at D (lead shared g) n"
    and "\<And>g. g \<in> fst ` set D0 \<Longrightarrow> lead shared g = g \<Longrightarrow> map_of I g = Some (int (card (numbered D g)))"
    and "\<And>g n v. g \<in> fst ` set D0 \<Longrightarrow> lead shared g = g \<Longrightarrow> 0 \<le> v \<Longrightarrow> val_at D g n = Some v \<Longrightarrow> v < int (card (numbered D g))"
    and "\<And>g n m v. g \<in> fst ` set D0 \<Longrightarrow> lead shared g = g \<Longrightarrow> 0 \<le> v \<Longrightarrow> val_at D g n = Some v \<Longrightarrow> val_at D g m = Some v \<Longrightarrow> m = n"
proof -
  note all = assms [unfolded gen_inv_def prod.case]
  show "dicts D"
    by (rule all [THEN conjunct1])
  show "map fst D = map fst D0"
    by (rule all [THEN conjunct2, THEN conjunct1])
  show "\<And>g. g \<in> fst ` set D0 \<Longrightarrow> \<exists>i. map_of I g = Some i"
    using all [THEN conjunct2, THEN conjunct2, THEN conjunct1] by blast
  show "\<And>g n. registered D0 g n \<Longrightarrow> \<exists>v \<ge> - 1. val_at D g n = Some v"
    using all [THEN conjunct2, THEN conjunct2, THEN conjunct2, THEN conjunct1] by blast
  show "\<And>g n. \<not> registered D0 g n \<Longrightarrow> val_at D g n \<in> {None, Some (- 100)}"
    using all [THEN conjunct2, THEN conjunct2, THEN conjunct2, THEN conjunct2, THEN conjunct1] by blast
  show "\<And>g n. registered D0 g n \<Longrightarrow> val_at D g n = val_at D (lead shared g) n"
    using all [THEN conjunct2, THEN conjunct2, THEN conjunct2, THEN conjunct2, THEN conjunct2, THEN conjunct1] by blast
  show "\<And>g. g \<in> fst ` set D0 \<Longrightarrow> lead shared g = g \<Longrightarrow> map_of I g = Some (int (card (numbered D g)))"
    using all [THEN conjunct2, THEN conjunct2, THEN conjunct2, THEN conjunct2, THEN conjunct2, THEN conjunct2, THEN conjunct1] by blast
  show "\<And>g n v. g \<in> fst ` set D0 \<Longrightarrow> lead shared g = g \<Longrightarrow> 0 \<le> v \<Longrightarrow> val_at D g n = Some v \<Longrightarrow> v < int (card (numbered D g))"
    using all [THEN conjunct2, THEN conjunct2, THEN conjunct2, THEN conjunct2, THEN conjunct2, THEN conjunct2, THEN conjunct2, THEN conjunct1] by blast
  show "\<And>g n m v. g \<in> fst ` set D0 \<Longrightarrow> lead shared g = g \<Longrightarrow> 0 \<le> v \<Longrightarrow> val_at D g n = Some v \<Longrightarrow> val_at D g m = Some v \<Longrightarrow> m = n"
    using all [THEN conjunct2, THEN conjunct2, THEN conjunct2, THEN conjunct2, THEN conjunct2, THEN conjunct2, THEN conjunct2, THEN conjunct2] by blast
qed

lemma registered_group: "registered D g n \<Longrightarrow> g \<in> fst ` set D"
  unfolding registered_def val_at_def by (auto split: option.splits) (metis domI dom_map_of_conv_image_fst image_eqI prod.sel(1) map_of_SomeD)

lemma finite_registered: "finite {n. val_at D g n = Some v}" "finite {n. \<exists>v. val_at D g n = Some v}"
proof -
  have "{n. \<exists>v. val_at D g n = Some v} \<subseteq> (case map_of D g of None \<Rightarrow> {} | Some d \<Rightarrow> fst ` set d)"
    by (auto simp: val_at_def split: option.splits) (metis domI dom_map_of_conv_image_fst image_eqI prod.sel(1) map_of_SomeD)
  then show f: "finite {n. \<exists>v. val_at D g n = Some v}" by (rule finite_subset) (simp split: option.split)
  show "finite {n. val_at D g n = Some v}" by (rule finite_subset [OF _ f]) auto
qed

lemma finite_numbered [simp]: "finite (numbered D g)"
  by (rule finite_subset [OF _ finite_registered(2) [of D g]]) (auto simp: numbered_def)

text \<open>What is numbered or marked stays so.\<close>

definition settled :: "gen_state \<Rightarrow> gen_state \<Rightarrow> bool" where
  "settled s s' \<longleftrightarrow> (\<forall>g n. val_at (fst s) g n \<noteq> Some (- 1) \<longrightarrow> val_at (fst s') g n \<noteq> Some (- 1))"

lemma settled_refl: "settled s s"
  by (simp add: settled_def)

lemma settled_trans: "settled s t \<Longrightarrow> settled t u \<Longrightarrow> settled s u"
  by (simp add: settled_def)

lemma cluster_lead:
  assumes "gen_input shared symbols D0" and "g \<in> fst ` set D0" and "h \<in> set (cluster_of shared g)"
  shows "cluster_of shared h = cluster_of shared g" and "lead shared h = lead shared g"
  using gen_inputD(5) [OF assms] by (simp_all add: lead_def)

lemma lead_group:
  assumes "gen_input shared symbols D0" and "g \<in> fst ` set D0"
  shows "lead shared g \<in> fst ` set D0" and "lead shared (lead shared g) = lead shared g"
  using gen_inputD(4) [OF assms lead_in] cluster_lead(2) [OF assms lead_in] by simp_all

text \<open>The lead of a group is in a cluster exactly when the group is.\<close>

lemma lead_in_cluster:
  assumes "gen_input shared symbols D0" and "g \<in> fst ` set D0" and "h \<in> fst ` set D0"
  shows "lead shared h \<in> set (cluster_of shared g) \<longleftrightarrow> h \<in> set (cluster_of shared g)"
proof
  assume "lead shared h \<in> set (cluster_of shared g)"
  then have "cluster_of shared (lead shared h) = cluster_of shared g" by (rule cluster_lead(1) [OF assms(1,2)])
  then show "h \<in> set (cluster_of shared g)"
    using cluster_lead(1) [OF assms(1,3) lead_in] in_cluster [of h shared] by simp
next
  assume "h \<in> set (cluster_of shared g)"
  then have "lead shared h = lead shared g" by (rule cluster_lead(2) [OF assms(1,2)])
  then show "lead shared h \<in> set (cluster_of shared g)" using lead_in by simp
qed

lemma placed_simps:
  "placed i None = Some (- 100)" "placed i (Some (- 1)) = Some i" "v \<noteq> - 1 \<Longrightarrow> placed i (Some v) = Some v"
  by (simp_all add: placed_def)

text \<open>The numbered drivers of the lead, after a step in its cluster.\<close>

lemma numbered_step:
  assumes val: "\<And>h m. val_at D' h m = (if h \<in> C \<and> m = n then placed i (val_at D h n) else val_at D h m)"
    and "0 \<le> i"
  shows "numbered D' h = (if h \<in> C \<and> val_at D h n = Some (- 1) then insert n (numbered D h) else numbered D h)"
proof -
  have "m \<in> numbered D' h \<longleftrightarrow> m \<in> (if h \<in> C \<and> val_at D h n = Some (- 1) then insert n (numbered D h) else numbered D h)" for m
    using assms(2) by (cases "val_at D h n") (auto simp: numbered_def val placed_def)
  then show ?thesis by blast
qed

lemma place_name_inv:
  assumes input: "gen_input shared symbols D0" and listing: "listing_ok listing" and inv: "gen_inv shared D0 s"
    and g: "g \<in> fst ` set D0"
  shows "\<exists>s'. place_name listing shared g n s = Inr s' \<and> gen_inv shared D0 s' \<and> settled s s' \<and> val_at (fst s') g n \<noteq> Some (- 1)"
proof -
  obtain D I where s: "s = (D, I)" by fastforce
  note inv = gen_invD [OF inv [unfolded s]]
  let ?C = "set (cluster_of shared g)" and ?L = "lead shared g"
  define i where "i = int (card (numbered D ?L))"
  have keys: "fst ` set D = fst ` set D0" using inv(2) by (metis list.set_map)
  have C: "?C \<subseteq> fst ` set D0" using gen_inputD(4) [OF input g] by blast
  note L = lead_group [OF input g]
  have I: "\<forall>h \<in> ?C. \<exists>i. map_of I h = Some i" using inv(3) C by blast
  have Li: "map_of I ?L = Some i" using inv(7) [OF L] by (simp add: i_def)
  obtain D' I' where step: "place_name listing shared g n (D, I) = Inr (D', I')" "dicts D'" "map fst D' = map fst D"
    and val: "\<And>h m. val_at D' h m = (if h \<in> ?C \<and> m = n then placed i (val_at D h n) else val_at D h m)"
    and idx: "\<And>h. map_of I' h = (if h \<in> ?C \<and> val_at D h n = Some (- 1) then Some (i + 1) else map_of I h)"
    using place_name_effect [OF inv(1) listing _ I Li, of n] C keys by metis
  have i0: "0 \<le> i" by (simp add: i_def)
  note num = numbered_step [OF val i0]
  have lead: "h = ?L" if "h \<in> ?C" "lead shared h = h" for h
    using cluster_lead(2) [OF input g that(1)] that(2) by simp
  have fresh: "n \<notin> numbered D ?L" if "val_at D ?L n = Some (- 1)" using that by (simp add: numbered_def)
  have card: "map_of I' h = Some (int (card (numbered D' h)))" if h: "h \<in> fst ` set D0" "lead shared h = h" for h
    using inv(7) [OF h] fresh lead [OF _ h(2)] by (auto simp: idx num i_def)
  have less: "v < int (card (numbered D' h))"
    if h: "h \<in> fst ` set D0" "lead shared h = h" and v: "0 \<le> v" "val_at D' h m = Some v" for h m v
    using inv(8) [OF h v(1)] v(2) fresh lead [OF _ h(2)] v(1)
    by (auto simp: val num i_def placed_def split: if_splits option.splits; fastforce)
  have one: "m' = m"
    if h: "h \<in> fst ` set D0" "lead shared h = h" and v: "0 \<le> v" "val_at D' h m = Some v" "val_at D' h m' = Some v" for h m m' v
    using inv(9) [OF h v(1)] inv(8) [OF h v(1)] v lead [OF _ h(2)]
    by (auto simp: val i_def placed_def split: if_splits option.splits; fastforce)
  have leads: "val_at D' h m = val_at D' (lead shared h) m" if r: "registered D0 h m" for h m
    using inv(6) [OF r] lead_in_cluster [OF input g registered_group [OF r]] by (auto simp: val)
  have vals: "\<exists>v \<ge> - 1. val_at D' h m = Some v" if r: "registered D0 h m" for h m
    using inv(4) [OF r] i0 by (auto simp: val placed_def)
  have absent: "val_at D' h m \<in> {None, Some (- 100)}" if r: "\<not> registered D0 h m" for h m
    using inv(5) [OF r] by (auto simp: val placed_def)
  have keyed: "\<exists>i. map_of I' h = Some i" if "h \<in> fst ` set D0" for h using inv(3) [OF that] by (simp add: idx)
  have "gen_inv shared D0 (D', I')"
    unfolding gen_inv_def prod.case
    by (intro conjI allI impI ballI; (elim conjE)?) (fact step(2) | simp only: step(3) inv(2) | fact keyed vals absent leads card | erule (3) less | erule (4) one)+
  moreover have "settled (D, I) (D', I')" "val_at D' g n \<noteq> Some (- 1)"
    using i0 in_cluster [of g shared] by (auto simp: settled_def val placed_def split: option.splits)
  ultimately show ?thesis using step(1) s by auto
qed

section \<open>The loops\<close>

lemma place_group_inv:
  assumes input: "gen_input shared symbols D0" and listing: "listing_ok listing" and inv: "gen_inv shared D0 s"
    and g: "g \<in> fst ` set D0"
  shows "\<exists>s'. place_group listing shared g s = Inr s' \<and> gen_inv shared D0 s' \<and> settled s s' \<and>
    (\<forall>n. registered D0 g n \<longrightarrow> val_at (fst s') g n \<noteq> Some (- 1))"
proof -
  obtain D I where s: "s = (D, I)" by fastforce
  note invs = gen_invD [OF inv [unfolded s]]
  have "g \<in> fst ` set D" using g invs(2) by (metis list.set_map)
  then obtain d where d: "map_of D g = Some d" by (metis domD dom_map_of_conv_image_fst)
  have "\<exists>s'. gen_each (place_name listing shared g) (map fst d) s = Inr s' \<and> gen_inv shared D0 s' \<and> settled s s' \<and>
      (\<forall>n \<in> set (map fst d). val_at (fst s') g n \<noteq> Some (- 1))"
    by (rule gen_each_run [where P = "gen_inv shared D0" and R = settled and Q = "\<lambda>n s. val_at (fst s) g n \<noteq> Some (- 1)"])
      (use place_name_inv [OF input listing _ g] inv in \<open>auto simp: settled_refl intro: settled_trans\<close>, simp add: settled_def)
  moreover have "n \<in> set (map fst d)" if "registered D0 g n" for n
    using invs(4) [OF that] d by (auto simp: val_at_def dest!: map_of_SomeD intro: rev_image_eqI)
  moreover have "place_group listing shared g s = gen_each (place_name listing shared g) (map fst d) s"
    using d by (simp add: place_group_def s keyed_def)
  ultimately show ?thesis by auto
qed

lemma initial_inv:
  assumes input: "gen_input shared symbols D0"
  shows "gen_inv shared D0 (D0, map (\<lambda>(s, i). (s, 0)) symbols)"
proof -
  note ins = gen_inputD [OF input]
  have I: "map_of (map (\<lambda>(s, i). (s, 0 :: int)) symbols) g = Some 0" if "g \<in> fst ` set D0" for g
  proof -
    have "g \<in> fst ` set symbols" using ins(3) that by blast
    then show ?thesis by (induction symbols) auto
  qed
  have none: "numbered D0 g = {}" for g using ins(2) by (force simp: numbered_def)
  have v: "val_at D0 g n = Some (- 1)" if "registered D0 g n" for g n
    using that ins(2) by (auto simp: registered_def)
  have "val_at D0 g n = val_at D0 (lead shared g) n" if "registered D0 g n" for g n
    using v [OF that] v [OF ins(6) [OF that]] by simp
  then show ?thesis
    unfolding gen_inv_def prod.case using ins(1) I v by (intro conjI allI impI ballI) (auto simp: none registered_def dest: ins(2))
qed

lemma fill_in_indices_runs:
  assumes input: "gen_input shared symbols D0" and listing: "listing_ok listing"
  obtains D' I where "fill_in_indices listing shared symbols D0 = Inr D'" "gen_inv shared D0 (D', I)"
    "\<And>g n. registered D0 g n \<Longrightarrow> \<exists>v \<ge> 0. val_at D' g n = Some v"
proof -
  let ?s = "(D0, map (\<lambda>(s, i). (s, 0 :: int)) symbols)"
  have "\<exists>s'. gen_each (place_group listing shared) (map fst D0) ?s = Inr s' \<and> gen_inv shared D0 s' \<and> settled ?s s' \<and>
      (\<forall>g \<in> set (map fst D0). \<forall>n. registered D0 g n \<longrightarrow> val_at (fst s') g n \<noteq> Some (- 1))"
    by (rule gen_each_run [where P = "gen_inv shared D0" and R = settled and
          Q = "\<lambda>g s. \<forall>n. registered D0 g n \<longrightarrow> val_at (fst s) g n \<noteq> Some (- 1)"])
      (use place_group_inv [OF input listing] initial_inv [OF input] in \<open>auto simp: settled_refl intro: settled_trans\<close>, simp add: settled_def)
  then obtain D' I where run: "gen_each (place_group listing shared) (map fst D0) ?s = Inr (D', I)" "gen_inv shared D0 (D', I)"
    "\<forall>g \<in> set (map fst D0). \<forall>n. registered D0 g n \<longrightarrow> val_at D' g n \<noteq> Some (- 1)" by auto
  show thesis
  proof (rule that [OF _ run(2)])
    show "fill_in_indices listing shared symbols D0 = Inr D'" using run(1) by (simp add: fill_in_indices_def)
    show "\<exists>v \<ge> 0. val_at D' g n = Some v" if r: "registered D0 g n" for g n
    proof -
      have "val_at D' g n \<noteq> Some (- 1)" using run(3) [unfolded set_map] r registered_group [OF r] by blast
      then show ?thesis using gen_invD(4) [OF run(2) r] by force
    qed
  qed
qed

lemma dridef_val: "dridef D g n = (case val_at D g n of None \<Rightarrow> None | Some v \<Rightarrow> if v < 0 then None else Some v)"
  by (simp add: dridef_def val_at_def split: option.split)

text \<open>The indices at the end.\<close>

definition indices_ok :: "group list list \<Rightarrow> definitions \<Rightarrow> definitions \<Rightarrow> bool" where
  "indices_ok shared D0 D \<longleftrightarrow>
     (\<forall>g n. registered D0 g n \<longleftrightarrow> dridef D g n \<noteq> None) \<and>
     (\<forall>g n m. registered D0 g n \<and> dridef D g n = dridef D g m \<longrightarrow> m = n) \<and>
     (\<forall>g h n. registered D0 g n \<and> registered D0 h n \<and> h \<in> set (cluster_of shared g) \<longrightarrow> dridef D h n = dridef D g n) \<and>
     (\<forall>g n i. dridef D g n = Some i \<longrightarrow> 0 \<le> i \<and> i < int (card {m. registered D0 (lead shared g) m}))"

lemma finite_drivers: "finite {m. registered D g m}"
  using finite_registered(2) [of D g] by (simp add: registered_def)

lemma final_indices:
  assumes input: "gen_input shared symbols D0" and inv: "gen_inv shared D0 (D, I)"
    and all: "\<And>g n. registered D0 g n \<Longrightarrow> \<exists>v \<ge> 0. val_at D g n = Some v"
  shows "indices_ok shared D0 D"
proof -
  note invs = gen_invD [OF inv]
  have reg: "registered D0 g n \<longleftrightarrow> dridef D g n \<noteq> None" for g n
    using all [of g n] invs(5) [of g n] by (cases "registered D0 g n") (auto simp: dridef_val)
  have lead: "dridef D g n = dridef D (lead shared g) n" if "registered D0 g n" for g n
    using invs(6) [OF that] by (simp add: dridef_val)
  have pos: "val_at D g n = Some i \<and> 0 \<le> i" if "dridef D g n = Some i" for g n i
    using that by (auto simp: dridef_val split: option.splits if_splits)
  have inj: "m = n" if r: "registered D0 g n" and eq: "dridef D g n = dridef D g m" for g n m
  proof -
    obtain i where i: "dridef D g n = Some i" using reg r by blast
    then have r': "registered D0 g m" using eq reg by simp
    have "dridef D (lead shared g) n = Some i" "dridef D (lead shared g) m = Some i"
      using lead [OF r] lead [OF r'] i eq by simp_all
    then show ?thesis using pos invs(9) [OF lead_group [OF input registered_group [OF r]]] by blast
  qed
  have bound: "0 \<le> i \<and> i < int (card {m. registered D0 (lead shared g) m})" if i: "dridef D g n = Some i" for g n i
  proof -
    have r: "registered D0 g n" using i reg by simp
    then have l: "val_at D (lead shared g) n = Some i" "0 \<le> i" using lead pos i by metis+
    note L = lead_group [OF input registered_group [OF r]]
    have "numbered D (lead shared g) \<subseteq> {m. registered D0 (lead shared g) m}"
      using reg by (force simp: numbered_def dridef_val)
    then have "card (numbered D (lead shared g)) \<le> card {m. registered D0 (lead shared g) m}"
      by (rule card_mono [OF finite_drivers])
    then show ?thesis using invs(8) [OF L l(2,1)] l(2) by linarith
  qed
  have "dridef D h n = dridef D g n" if "registered D0 g n" "registered D0 h n" "h \<in> set (cluster_of shared g)" for g h n
    using lead [OF that(1)] lead [OF that(2)] cluster_lead(2) [OF input registered_group [OF that(1)] that(3)] by simp
  then show ?thesis unfolding indices_ok_def using reg inj bound by blast
qed

end
