(* ===== verification/Drv_Iface.thy ===== *)
theory Drv_Iface
  imports Resource
begin

text \<open>
  The data interface between drivers: what a driver that stores bytes promises to its readers
  (\<open>byte_device\<close>), and what an open VFS handle on such a device promises to the drivers
  stacked on it (\<open>vfs_disk\<close>). The components interpret the first on their own read and write
  functions; the second is interpreted on a kernel whose handle is served by the buffer driver.
\<close>

section \<open>The stat structure\<close>

text \<open>The fields of \<open>struct stat\<close> that the drivers set.\<close>

record stat_buf =
  st_dev :: u64
  st_ino :: u64
  st_mode :: u64
  st_nlink :: u64
  st_uid :: u64
  st_gid :: u64
  st_rdev :: u64
  st_size :: u64
  st_blksize :: u64
  st_blocks :: u64
  st_mtim_sec :: u64
  st_mtim_nsec :: u64

section \<open>Byte devices\<close>

locale byte_device =
  fixes dread :: "'s \<Rightarrow> u64 \<Rightarrow> u64 \<Rightarrow> (u64 \<times> u8 list) res"
    and dwrite :: "'s \<Rightarrow> u64 \<Rightarrow> u8 list \<Rightarrow> (u64 \<times> 's) res"
    and content :: "'s \<Rightarrow> u8 list"
    and ok :: "'s \<Rightarrow> bool"
  assumes content_size: "ok s \<Longrightarrow> length (content s) < 2 ^ 63"
    and dread_inside: "ok s \<Longrightarrow> n \<noteq> 0 \<Longrightarrow> unat off + unat n \<le> length (content s) \<Longrightarrow>
      dread s off n = Inr (n, bytes_at (unat off) (unat n) (content s))"
    and dwrite_inside: "ok s \<Longrightarrow> bs \<noteq> [] \<Longrightarrow> unat off + length bs \<le> length (content s) \<Longrightarrow>
      \<exists>s'. dwrite s off bs = Inr (word_of_nat (length bs), s') \<and> ok s' \<and>
           content s' = blit (content s) (unat off) bs"
begin

lemma dwrite_insideE:
  assumes "ok s" and "bs \<noteq> []" and "unat off + length bs \<le> length (content s)"
  obtains s' where "dwrite s off bs = Inr (word_of_nat (length bs), s')" "ok s'"
    "content s' = blit (content s) (unat off) bs" "length (content s') = length (content s)"
  using dwrite_inside [OF assms] assms(3) by auto

lemma write_then_read:
  assumes "ok s" and "bs \<noteq> []" and "unat off + length bs \<le> length (content s)"
    and "dwrite s off bs = Inr (k, s')"
  shows "k = word_of_nat (length bs)"
    and "dread s' off (word_of_nat (length bs)) = Inr (word_of_nat (length bs), bs)"
proof -
  obtain s'' where s': "dwrite s off bs = Inr (word_of_nat (length bs), s'')" "ok s''"
    "content s'' = blit (content s) (unat off) bs" "length (content s'') = length (content s)"
    using dwrite_insideE [OF assms(1-3)] .
  with assms(4) have [simp]: "s'' = s'" and k: "k = word_of_nat (length bs)" by auto
  show "k = word_of_nat (length bs)" by (rule k)
  have "length bs < 2 ^ 64" using assms(3) content_size [OF assms(1)] by simp
  then have n: "unat (word_of_nat (length bs) :: u64) = length bs" by (simp add: unat_of_nat)
  then have "(word_of_nat (length bs) :: u64) \<noteq> 0" using assms(2) by (metis length_0_conv unat_0)
  then show "dread s' off (word_of_nat (length bs)) = Inr (word_of_nat (length bs), bs)"
    using s' assms(3) by (simp add: dread_inside n bytes_at_blit_same)
qed

lemma write_then_read_other:
  assumes "ok s" and "bs \<noteq> []" and "unat off + length bs \<le> length (content s)"
    and "dwrite s off bs = Inr (k, s')"
    and "m \<noteq> 0" and "unat at + unat m \<le> length (content s)"
    and "unat at + unat m \<le> unat off \<or> unat off + length bs \<le> unat at"
  shows "dread s' at m = dread s at m"
proof -
  obtain s'' where s': "dwrite s off bs = Inr (word_of_nat (length bs), s'')" "ok s''"
    "content s'' = blit (content s) (unat off) bs" "length (content s'') = length (content s)"
    using dwrite_insideE [OF assms(1-3)] .
  with assms(4) have [simp]: "s'' = s'" by auto
  show ?thesis
    using s' assms by (simp add: dread_inside bytes_at_blit_other)
qed

lemma write_same_noop:
  assumes "ok s" and "m \<noteq> 0" and "unat off + unat m \<le> length (content s)"
    and "dread s off m = Inr (m, bs)" and "dwrite s off bs = Inr (k, s')"
  shows "content s' = content s"
proof -
  have bs: "bs = bytes_at (unat off) (unat m) (content s)"
    using dread_inside [OF assms(1-3)] assms(4) by simp
  then have "length bs = unat m" using assms(3) by simp
  moreover from this have "bs \<noteq> []" using assms(2) by (metis list.size(3) unat_eq_zero)
  ultimately show ?thesis
    using dwrite_inside [OF assms(1) _, of bs off] assms(3,5) bs by (auto simp: blit_self)
qed

end

section \<open>An open handle on a disk\<close>

text \<open>
  Seeking sets the position, reading and writing inside the disk transfer the whole request at
  the position, and the allocator does not touch the disk.
\<close>

locale vfs_disk =
  fixes K :: "('w, 'z) kernel_scheme"
    and h :: u64
    and disk :: "'w \<Rightarrow> u8 list"
    and pos :: "'w \<Rightarrow> u64"
    and ok :: "'w \<Rightarrow> bool"
  assumes disk_size: "ok w \<Longrightarrow> length (disk w) < 2 ^ 63"
    and seek_law: "ok w \<Longrightarrow> ok (k_vfs_seek K h off w) \<and> disk (k_vfs_seek K h off w) = disk w \<and>
      pos (k_vfs_seek K h off w) = off"
    and read_law: "ok w \<Longrightarrow> 0 < unat sz * unat cnt \<Longrightarrow>
      unat (pos w) + unat sz * unat cnt \<le> length (disk w) \<Longrightarrow>
      \<exists>w'. k_vfs_read K h sz cnt w =
             (sz * cnt, bytes_at (unat (pos w)) (unat sz * unat cnt) (disk w), w') \<and>
           ok w' \<and> disk w' = disk w"
    and write_law: "ok w \<Longrightarrow> 0 < unat sz * unat cnt \<Longrightarrow> length bs = unat sz * unat cnt \<Longrightarrow>
      unat (pos w) + length bs \<le> length (disk w) \<Longrightarrow>
      \<exists>w'. k_vfs_write K h bs sz cnt w = (sz * cnt, w') \<and>
           ok w' \<and> disk w' = blit (disk w) (unat (pos w)) bs"
    and alloc_frame: "ok w \<Longrightarrow> ok (snd (k_alloc K n w)) \<and> disk (snd (k_alloc K n w)) = disk w"
    and free_frame: "ok w \<Longrightarrow> ok (k_free K p w) \<and> disk (k_free K p w) = disk w"
begin

lemma seek_read:
  assumes "ok w" and "0 < unat sz * unat cnt"
    and "unat off + unat sz * unat cnt \<le> length (disk w)"
  obtains w' where "k_vfs_read K h sz cnt (k_vfs_seek K h off w) =
      (sz * cnt, bytes_at (unat off) (unat sz * unat cnt) (disk w), w')"
    "ok w'" "disk w' = disk w"
  using seek_law [OF assms(1), of off] read_law [of "k_vfs_seek K h off w" sz cnt] assms by auto

lemma seek_write:
  assumes "ok w" and "0 < unat sz * unat cnt" and "length bs = unat sz * unat cnt"
    and "unat off + length bs \<le> length (disk w)"
  obtains w' where "k_vfs_write K h bs sz cnt (k_vfs_seek K h off w) = (sz * cnt, w')"
    "ok w'" "disk w' = blit (disk w) (unat off) bs"
  using seek_law [OF assms(1), of off] write_law [of "k_vfs_seek K h off w" sz cnt bs] assms by auto

end

end
