(* ===== verification/Buffer.thy ===== *)
theory Buffer
  imports Drv_Iface
begin

text \<open>
  \<open>src/c/sysfs/buffer.c\<close>: a file in RAM. The driver state is the structure with the pointer
  and size of the buffer; \<open>b_self\<close> is the structure's own address and \<open>b_data\<close> the bytes
  behind \<open>b_ptr\<close>.
\<close>

record buffer_dri_state =
  b_self :: u64
  b_size :: u64
  b_ptr :: u64
  b_data :: "u8 list"

section \<open>Operations\<close>

definition buffer_init ::
  "('w, 'z) kernel_scheme \<Rightarrow> buffer_dri_state resource \<Rightarrow> u64 option \<Rightarrow> 'w rsys \<Rightarrow>
   (int \<times> buffer_dri_state resource \<times> 'w rsys) res" where
  "buffer_init K r arg s =
     (let sz = (case arg of None \<Rightarrow> k_std_buff_size K | Some n \<Rightarrow> n);
          (p, w1) = k_alloc K 16 (env s)
      in if p = 0 then Inr (- 1, r, s\<lparr>env := w1\<rparr>)
         else let (b, w2) = k_alloc K sz w1
              in if b = 0 \<and> sz \<noteq> 0 then Inl Null_Deref
                 else Inr (0, r\<lparr>driver_state := Some \<lparr>b_self = p, b_size = sz, b_ptr = b,
                                  b_data = replicate (unat sz) 0\<rparr>\<rparr>, s\<lparr>env := w2\<rparr>))"

definition buffer_uninit ::
  "('w, 'z) kernel_scheme \<Rightarrow> buffer_dri_state resource \<Rightarrow> 'w rsys \<Rightarrow> (int \<times> 'w rsys) res" where
  "buffer_uninit K r s =
     (case driver_state r of None \<Rightarrow> Inr (1, s)
      | Some st \<Rightarrow> Inr (0, s\<lparr>env := k_free K (b_self st) (k_free K (b_ptr st) (env s))\<rparr>))"

text \<open>
  The transfer length that \<open>buffer_read\<close> and \<open>buffer_write\<close> compute: \<open>delta\<close> is a signed
  64-bit value.
\<close>

definition buffer_given :: "u64 \<Rightarrow> u64 \<Rightarrow> u64" where
  "buffer_given wanted accessible =
     (let delta = wanted - accessible;
          given = (if sint delta > 0 then wanted - delta else wanted)
      in if given > 0 then given else 0)"

text \<open>The first argument is the caller's buffer, the fourth the file's offset (a \<open>long\<close>).\<close>

definition buffer_read ::
  "u8 list option \<Rightarrow> u64 \<Rightarrow> u64 \<Rightarrow> u64 option \<Rightarrow> buffer_dri_state resource option \<Rightarrow>
   (u64 \<times> u8 list option) res" where
  "buffer_read buffer sz cnt file res =
     (case (buffer, file, Option.bind res driver_state) of
        (Some dst, Some offset, Some st) \<Rightarrow>
          if sz = 0 \<or> cnt = 0 then Inr (- 1, buffer)
          else let wanted = sz * cnt; accessible = b_size st - offset
               in if accessible = 0 then Inr (0, buffer)
                  else let given = buffer_given wanted accessible
                       in res_bind (mem_copy dst 0 (b_data st) (unat offset) (unat given))
                            (\<lambda>dst'. Inr (given, Some dst'))
      | _ \<Rightarrow> Inr (- 1, buffer))"

definition buffer_write ::
  "u8 list option \<Rightarrow> u64 \<Rightarrow> u64 \<Rightarrow> u64 option \<Rightarrow> buffer_dri_state resource option \<Rightarrow>
   (u64 \<times> buffer_dri_state resource option) res" where
  "buffer_write buffer sz cnt file res =
     (case (buffer, file, res) of
        (Some src, Some offset, Some r) \<Rightarrow>
          (case driver_state r of None \<Rightarrow> Inr (- 1, res)
           | Some st \<Rightarrow>
             if sz = 0 \<or> cnt = 0 then Inr (- 1, res)
             else let wanted = sz * cnt; accessible = b_size st - offset
                  in if accessible = 0 then Inr (0, res)
                     else let given = buffer_given wanted accessible
                          in res_bind (mem_copy (b_data st) (unat offset) src 0 (unat given))
                               (\<lambda>data. Inr (given, Some (r\<lparr>driver_state := Some (st\<lparr>b_data := data\<rparr>)\<rparr>))))
      | _ \<Rightarrow> Inr (- 1, res))"

definition buffer_seek :: "u64 option \<Rightarrow> buffer_dri_state resource option \<Rightarrow> int" where
  "buffer_seek file res = 0"

definition buffer_stat ::
  "buffer_dri_state resource option \<Rightarrow> stat_buf option \<Rightarrow> (int \<times> stat_buf option) res" where
  "buffer_stat res stat =
     (case (res, stat) of
        (Some r, Some sb) \<Rightarrow>
          (case driver_state r of None \<Rightarrow> Inl Null_Deref
           | Some st \<Rightarrow> Inr (0, Some (sb\<lparr>st_size := b_size st\<rparr>)))
      | _ \<Rightarrow> Inr (- 1, stat))"

section \<open>Transfer length\<close>

lemma buffer_given_eq: "buffer_given wanted accessible = (if sint (wanted - accessible) > 0 then accessible else wanted)"
  by (simp add: buffer_given_def Let_def word_gt_0)

lemma buffer_given_min:
  assumes "unat wanted < 2 ^ 63" and "unat accessible < 2 ^ 63"
  shows "buffer_given wanted accessible = min wanted accessible"
  unfolding buffer_given_eq sint_diff_small [OF assms]
  by (simp add: min_def word_le_nat_alt del: of_nat_unat) 

text \<open>With the offset past the end the difference wraps, and the length is that wrapped value.\<close>

lemma buffer_given_past_end:
  assumes "unat wanted < 2 ^ 62" and "unat sz < unat off" and "unat off < 2 ^ 62"
  shows "buffer_given wanted (sz - off) = sz - off" and "unat (sz - off) = 2 ^ 64 - (unat off - unat sz)"
proof -
  have big: "unat (wanted + off) = unat wanted + unat off"
    using assms by (simp add: unat_word_ariths)
  have eq: "wanted - (sz - off) = (wanted + off) - sz" by simp
  have "sint (wanted - (sz - off)) = int (unat (wanted + off)) - int (unat sz)"
    unfolding eq by (rule sint_diff_small) (use big assms in simp_all)
  then have "sint (wanted - (sz - off)) > 0" using assms(2) unfolding big by linarith
  then show "buffer_given wanted (sz - off) = sz - off"
    by (simp add: buffer_given_eq)
  show "unat (sz - off) = 2 ^ 64 - (unat off - unat sz)"
    using assms(2) by (simp add: unat_sub_if_size word_size)
qed

section \<open>Correctness of the transfers\<close>

definition buffer_ok :: "buffer_dri_state \<Rightarrow> bool" where
  "buffer_ok st \<longleftrightarrow> length (b_data st) = unat (b_size st) \<and> unat (b_size st) < 2 ^ 63"

definition transfer_size :: "buffer_dri_state \<Rightarrow> u64 \<Rightarrow> u64 \<Rightarrow> u64 \<Rightarrow> nat" where
  "transfer_size st off sz cnt = min (unat sz * unat cnt) (unat (b_size st) - unat off)"

lemma transfer_given:
  assumes "buffer_ok st" and "unat off \<le> unat (b_size st)" and "unat sz * unat cnt < 2 ^ 63"
  shows "unat (buffer_given (sz * cnt) (b_size st - off)) = transfer_size st off sz cnt"
    and "unat (b_size st - off) = unat (b_size st) - unat off"
proof -
  have w: "unat (sz * cnt) = unat sz * unat cnt" using assms(3) by (simp add: unat_word_ariths)
  show a: "unat (b_size st - off) = unat (b_size st) - unat off"
    using assms(2) by (simp add: unat_sub word_le_nat_alt)
  have "buffer_given (sz * cnt) (b_size st - off) = min (sz * cnt) (b_size st - off)"
    using assms w a by (intro buffer_given_min) (auto simp: buffer_ok_def)
  then show "unat (buffer_given (sz * cnt) (b_size st - off)) = transfer_size st off sz cnt"
    by (simp add: transfer_size_def w a min_def word_le_nat_alt)
qed

lemma buffer_read_inside:
  assumes st: "driver_state r = Some st" "buffer_ok st"
    and "sz \<noteq> 0" and "cnt \<noteq> 0" and "unat sz * unat cnt < 2 ^ 63" and "unat off \<le> unat (b_size st)"
    and "transfer_size st off sz cnt \<le> length dst"
  shows "buffer_read (Some dst) sz cnt (Some off) (Some r) =
    Inr (word_of_nat (transfer_size st off sz cnt),
         Some (blit dst 0 (bytes_at (unat off) (transfer_size st off sz cnt) (b_data st))))"
proof -
  note g = transfer_given [OF st(2) assms(6,5)]
  have w: "buffer_given (sz * cnt) (b_size st - off) = word_of_nat (transfer_size st off sz cnt)"
    by (simp flip: g(1))
  show ?thesis
  proof (cases "b_size st - off = 0")
    case True
    then have "transfer_size st off sz cnt = 0" using g(2) by (simp add: transfer_size_def)
    then show ?thesis using True assms by (simp add: buffer_read_def)
  next
    case False
    have "unat off + transfer_size st off sz cnt \<le> length (b_data st)"
      using st(2) assms(6) by (auto simp: transfer_size_def buffer_ok_def)
    then show ?thesis
      using False assms g(1) by (simp add: buffer_read_def Let_def mem_copy_ok w)
  qed
qed

lemma buffer_write_inside:
  assumes st: "driver_state r = Some st" "buffer_ok st"
    and "sz \<noteq> 0" and "cnt \<noteq> 0" and "unat sz * unat cnt < 2 ^ 63" and "unat off \<le> unat (b_size st)"
    and "transfer_size st off sz cnt \<le> length src"
  shows "buffer_write (Some src) sz cnt (Some off) (Some r) =
    Inr (word_of_nat (transfer_size st off sz cnt),
         Some (r\<lparr>driver_state := Some (st\<lparr>b_data :=
           blit (b_data st) (unat off) (bytes_at 0 (transfer_size st off sz cnt) src)\<rparr>)\<rparr>))"
proof -
  note g = transfer_given [OF st(2) assms(6,5)]
  have w: "buffer_given (sz * cnt) (b_size st - off) = word_of_nat (transfer_size st off sz cnt)"
    by (simp flip: g(1))
  show ?thesis
  proof (cases "b_size st - off = 0")
    case True
    then have "transfer_size st off sz cnt = 0" using g(2) by (simp add: transfer_size_def)
    then show ?thesis using True assms by (simp add: buffer_write_def)
  next
    case False
    have "unat off + transfer_size st off sz cnt \<le> length (b_data st)"
      using st(2) assms(6) by (auto simp: transfer_size_def buffer_ok_def)
    then show ?thesis
      using False assms g(1) by (simp add: buffer_write_def Let_def mem_copy_ok w)
  qed
qed

lemma buffer_read_past_end:
  assumes st: "driver_state r = Some st" "buffer_ok st"
    and "sz \<noteq> 0" and "cnt \<noteq> 0" and "unat sz * unat cnt < 2 ^ 62"
    and "unat (b_size st) < unat off" and "unat off < 2 ^ 62"
  shows "buffer_read (Some dst) sz cnt (Some off) (Some r) = Inl Out_Of_Bounds"
proof -
  have "unat (sz * cnt) < 2 ^ 62" using assms(5) by (simp add: unat_word_ariths)
  note g = buffer_given_past_end [OF this assms(6,7)]
  have "length (b_data st) < unat off + unat (b_size st - off)" and "0 < unat (b_size st - off)"
    using g(2) assms(6,7) st(2) by (auto simp: buffer_ok_def)
  moreover from this have "b_size st - off \<noteq> 0" by (metis unat_0 less_irrefl)
  ultimately show ?thesis
    using assms(1,3,4) by (simp add: buffer_read_def Let_def g(1) mem_copy_src_oob)
qed

section \<open>The buffer as a byte device\<close>

text \<open>
  The two functions as the VFS calls them: element size 1, a scratch buffer of the requested
  length, and the file's offset.
\<close>

definition buffer_dread :: "buffer_dri_state resource \<Rightarrow> u64 \<Rightarrow> u64 \<Rightarrow> (u64 \<times> u8 list) res" where
  "buffer_dread r off n =
     res_bind (buffer_read (Some (replicate (unat n) 0)) 1 n (Some off) (Some r))
       (\<lambda>(k, d). case d of None \<Rightarrow> Inl Null_Deref | Some bs \<Rightarrow> Inr (k, take (unat k) bs))"

definition buffer_dwrite ::
  "buffer_dri_state resource \<Rightarrow> u64 \<Rightarrow> u8 list \<Rightarrow> (u64 \<times> buffer_dri_state resource) res" where
  "buffer_dwrite r off bs =
     res_bind (buffer_write (Some bs) 1 (word_of_nat (length bs)) (Some off) (Some r))
       (\<lambda>(k, r'). case r' of None \<Rightarrow> Inl Null_Deref | Some r'' \<Rightarrow> Inr (k, r''))"

definition buffer_content :: "buffer_dri_state resource \<Rightarrow> u8 list" where
  "buffer_content r = (case driver_state r of None \<Rightarrow> [] | Some st \<Rightarrow> b_data st)"

definition buffer_ready :: "buffer_dri_state resource \<Rightarrow> bool" where
  "buffer_ready r = (case driver_state r of None \<Rightarrow> False | Some st \<Rightarrow> buffer_ok st)"

lemma buffer_readyE:
  assumes "buffer_ready r"
  obtains st where "driver_state r = Some st" "buffer_ok st" "buffer_content r = b_data st"
    "length (b_data st) = unat (b_size st)" "unat (b_size st) < 2 ^ 63"
  using assms by (auto simp: buffer_ready_def buffer_content_def buffer_ok_def split: option.splits)

lemma take_blit_0: "take (length ys) (blit xs 0 ys) = ys"
  by (simp add: blit_def)

lemma buffer_dread_inside:
  assumes "buffer_ready r" and "n \<noteq> 0" and "unat off + unat n \<le> length (buffer_content r)"
  shows "buffer_dread r off n = Inr (n, bytes_at (unat off) (unat n) (buffer_content r))"
proof -
  from assms(1) obtain st where st: "driver_state r = Some st" "buffer_ok st"
    "buffer_content r = b_data st" "length (b_data st) = unat (b_size st)" "unat (b_size st) < 2 ^ 63"
    by (rule buffer_readyE)
  have m: "transfer_size st off 1 n = unat n" using assms(3) st(3,4) by (simp add: transfer_size_def)
  have "buffer_read (Some (replicate (unat n) 0)) 1 n (Some off) (Some r) =
      Inr (n, Some (blit (replicate (unat n) 0) 0 (bytes_at (unat off) (unat n) (b_data st))))"
    using buffer_read_inside [OF st(1,2), of 1 n off "replicate (unat n) 0"] assms st m by simp
  moreover have "length (bytes_at (unat off) (unat n) (b_data st)) = unat n"
    using assms(3) st(3) by simp
  ultimately show ?thesis
    using take_blit_0 [of "bytes_at (unat off) (unat n) (b_data st)" "replicate (unat n) 0"]
    by (simp add: buffer_dread_def st(3))
qed

lemma buffer_dwrite_inside:
  assumes "buffer_ready r" and "bs \<noteq> []" and "unat off + length bs \<le> length (buffer_content r)"
  shows "\<exists>r'. buffer_dwrite r off bs = Inr (word_of_nat (length bs), r') \<and> buffer_ready r' \<and>
    buffer_content r' = blit (buffer_content r) (unat off) bs"
proof -
  from assms(1) obtain st where st: "driver_state r = Some st" "buffer_ok st"
    "buffer_content r = b_data st" "length (b_data st) = unat (b_size st)" "unat (b_size st) < 2 ^ 63"
    by (rule buffer_readyE)
  have n: "unat (word_of_nat (length bs) :: u64) = length bs"
    using assms(3) st by (simp add: unat_of_nat)
  then have "(word_of_nat (length bs) :: u64) \<noteq> 0" using assms(2) by (metis length_0_conv unat_0)
  moreover have "transfer_size st off 1 (word_of_nat (length bs)) = length bs"
    using assms(3) st(3,4) by (simp add: transfer_size_def n)
  ultimately have "buffer_dwrite r off bs = Inr (word_of_nat (length bs),
      r\<lparr>driver_state := Some (st\<lparr>b_data := blit (b_data st) (unat off) bs\<rparr>)\<rparr>)"
    using buffer_write_inside [OF st(1,2), of 1 "word_of_nat (length bs)" off bs] assms st n
    by (simp add: buffer_dwrite_def)
  then show ?thesis
    using st assms(3) by (simp add: buffer_ready_def buffer_content_def buffer_ok_def)
qed

interpretation buf_dev: byte_device buffer_dread buffer_dwrite buffer_content buffer_ready
proof
  fix s assume "buffer_ready s"
  then show "length (buffer_content s) < 2 ^ 63" by (rule buffer_readyE) simp
qed (use buffer_dread_inside buffer_dwrite_inside in \<open>blast+\<close>)

section \<open>Life of the buffer\<close>

definition buffer_owned :: "buffer_dri_state \<Rightarrow> u64 set" where
  "buffer_owned st = {b_self st, b_ptr st} - {0}"

lemma buffer_init_cases:
  assumes "buffer_init K r arg s = Inr (ret, r', s')"
  obtains (nomem) w1 where "k_alloc K 16 (env s) = (0, w1)" "ret = - 1" "r' = r" "s' = s\<lparr>env := w1\<rparr>"
  | (made) p w1 b w2 n where "k_alloc K 16 (env s) = (p, w1)" "p \<noteq> 0" "k_alloc K n w1 = (b, w2)"
      "n = (case arg of None \<Rightarrow> k_std_buff_size K | Some m \<Rightarrow> m)" "b = 0 \<Longrightarrow> n = 0"
      "ret = 0" "s' = s\<lparr>env := w2\<rparr>"
      "r' = r\<lparr>driver_state := Some \<lparr>b_self = p, b_size = n, b_ptr = b, b_data = replicate (unat n) 0\<rparr>\<rparr>"
proof (cases "k_alloc K 16 (env s)")
  case (Pair p w1)
  show thesis
  proof (cases "p = 0")
    case True
    then show thesis using assms Pair nomem by (auto simp: buffer_init_def Let_def)
  next
    case False
    obtain b w2 where "k_alloc K (case arg of None \<Rightarrow> k_std_buff_size K | Some n \<Rightarrow> n) w1 = (b, w2)"
      by fastforce
    then show thesis
      using assms Pair False by (intro made [of p w1 "case arg of None \<Rightarrow> k_std_buff_size K | Some n \<Rightarrow> n" b w2]) (auto simp: buffer_init_def Let_def split: if_splits)
  qed
qed

definition buffer_distinct :: "buffer_dri_state \<Rightarrow> bool" where
  "buffer_distinct st \<longleftrightarrow> b_self st \<noteq> 0 \<and> b_self st \<noteq> b_ptr st"

text \<open>
  The buffer driver meets the life-cycle contract on every kernel with an allocation ledger: what
  \<open>buffer_init\<close> took is the two addresses of its state, and \<open>buffer_uninit\<close> returns them.
\<close>

sublocale kernel_heap \<subseteq> buf: driver_lifecycle K live "buffer_init K" "buffer_uninit K" buffer_owned
    buffer_distinct
proof
  fix r a s ret r' s'
  assume call: "buffer_init K r a s = Inr (ret, r', s')"
  show "driver r' = driver r \<and> res_id r' = res_id r \<and> dri_index r' = dri_index r \<and> dri_group r' = dri_group r"
    using call by (rule buffer_init_cases) simp_all
  show "current_id s' = current_id s"
    using call by (rule buffer_init_cases) simp_all
  assume "ret \<noteq> 0"
  with call show "live (env s') = live (env s)"
    by (elim buffer_init_cases) (auto dest: alloc_failed)
next
  fix r a s r' s'
  assume call: "buffer_init K r a s = Inr (0, r', s')"
  show "live (env s) \<subseteq> live (env s')"
    using call by (rule buffer_init_cases) (auto dest!: alloc_mono)
  show "\<exists>st. driver_state r' = Some st \<and> buffer_distinct st \<and> live (env s') = live (env s) \<union> buffer_owned st \<and>
      buffer_owned st \<inter> live (env s) = {}"
    using call
  proof (rule buffer_init_cases)
    fix p w1 b w2 n
    assume p: "k_alloc K 16 (env s) = (p, w1)" "p \<noteq> 0" and b: "k_alloc K n w1 = (b, w2)"
      and st: "s' = s\<lparr>env := w2\<rparr>"
        "r' = r\<lparr>driver_state := Some \<lparr>b_self = p, b_size = n, b_ptr = b, b_data = replicate (unat n) 0\<rparr>\<rparr>"
    note lp = alloc_fresh [OF p] alloc_adds [OF p]
    show ?thesis
    proof (cases "b = 0")
      case True
      then have "live w2 = live w1" using alloc_failed b by simp
      then show ?thesis using True st lp p(2) by (auto simp: buffer_owned_def buffer_distinct_def)
    next
      case False
      then show ?thesis using st lp p(2) alloc_fresh [OF b] alloc_adds [OF b]
        by (auto simp: buffer_owned_def buffer_distinct_def)
    qed
  qed simp
next
  fix r :: "buffer_dri_state resource" and s :: "'w rsys" and st
  assume st: "driver_state r = Some st" "buffer_distinct st" and own: "buffer_owned st \<subseteq> live (env s)"
  let ?w = "k_free K (b_ptr st) (env s)"
  have un: "buffer_uninit K r s = Inr (0, s\<lparr>env := k_free K (b_self st) ?w\<rparr>)"
    using st(1) by (simp add: buffer_uninit_def)
  have self: "b_self st \<in> live (env s)" using own st(2) by (auto simp: buffer_owned_def buffer_distinct_def)
  have "live (k_free K (b_self st) ?w) = live (env s) - buffer_owned st"
  proof (cases "b_ptr st = 0")
    case True
    then have w: "live ?w = live (env s)" by (simp only: free_NULL)
    then have "live (k_free K (b_self st) ?w) = live (env s) - {b_self st}"
      using free_live [of "b_self st" ?w] self by simp
    moreover have "buffer_owned st = {b_self st}"
      using True st(2) by (auto simp: buffer_owned_def buffer_distinct_def)
    ultimately show ?thesis by simp
  next
    case False
    then have "b_ptr st \<in> live (env s)" using own by (auto simp: buffer_owned_def)
    then have w: "live ?w = live (env s) - {b_ptr st}" by (rule free_live)
    have "b_self st \<in> live ?w" unfolding w using self st(2) by (simp add: buffer_distinct_def)
    then have "live (k_free K (b_self st) ?w) = live (env s) - {b_ptr st} - {b_self st}"
      unfolding w [symmetric] by (rule free_live)
    moreover have "buffer_owned st = {b_self st, b_ptr st}"
      using False st(2) by (auto simp: buffer_owned_def buffer_distinct_def)
    ultimately show ?thesis by blast
  qed
  then show "\<exists>ret s'. buffer_uninit K r s = Inr (ret, s') \<and> live (env s') = live (env s) - buffer_owned st"
    unfolding un by (intro exI [of _ 0] exI [of _ "s\<lparr>env := k_free K (b_self st) ?w\<rparr>"]) simp
qed

context kernel_heap begin

lemma buffer_lifecycle:
  "driver_lifecycle K live (buffer_init K) (buffer_uninit K) buffer_owned buffer_distinct"
  by (rule buf.driver_lifecycle_axioms)

end

section \<open>Properties\<close>

text \<open>
  C15 (buffer_read_correct): a read at or before the end of the buffer delivers exactly the bytes
  that are there, at most as many as were asked for, leaves the rest of the caller's memory as
  it was, and returns their number.
\<close>

theorem buffer_read_correct:
  assumes "driver_state r = Some st" and "buffer_ok st" and "sz \<noteq> 0" and "cnt \<noteq> 0"
    and "unat sz * unat cnt < 2 ^ 63" and "unat off \<le> unat (b_size st)"
    and "unat sz * unat cnt \<le> length dst"
  shows "\<exists>d n. buffer_read (Some dst) sz cnt (Some off) (Some r) = Inr (word_of_nat n, Some d) \<and>
    n = min (unat sz * unat cnt) (unat (b_size st) - unat off) \<and>
    take n d = bytes_at (unat off) n (b_data st) \<and> drop n d = drop n dst"
proof -
  let ?n = "transfer_size st off sz cnt"
  have n: "?n \<le> length dst" using assms(7) by (simp add: transfer_size_def)
  have len: "length (bytes_at (unat off) ?n (b_data st)) = ?n"
    using assms(2,6) by (auto simp: transfer_size_def buffer_ok_def)
  show ?thesis
    using buffer_read_inside [OF assms(1-6) n] len n
    by (intro exI [of _ "blit dst 0 (bytes_at (unat off) ?n (b_data st))"] exI [of _ ?n])
      (simp add: blit_def transfer_size_def)
qed

theorem buffer_read_correct_witness:
  "\<exists>d n. buffer_read (Some [9, 9, 9]) 1 3 (Some 2)
      (Some \<lparr>driver = None, driver_state = Some \<lparr>b_self = 8, b_size = 4, b_ptr = 16, b_data = [1, 2, 3, 4]\<rparr>,
             res_id = 0, dri_index = 0, dri_group = 2\<rparr>) = Inr (word_of_nat n, Some d) \<and>
    n = min 3 (4 - 2) \<and> take n d = bytes_at 2 n [1, 2, 3, 4] \<and> drop n d = drop n [9, 9, 9]"
  using buffer_read_correct [of "\<lparr>driver = None, driver_state = Some \<lparr>b_self = 8, b_size = 4, b_ptr = 16,
      b_data = [1, 2, 3, 4]\<rparr>, res_id = 0, dri_index = 0, dri_group = 2\<rparr>"
    "\<lparr>b_self = 8, b_size = 4, b_ptr = 16, b_data = [1, 2, 3, 4]\<rparr>" 1 3 2 "[9, 9, 9]"]
  by (simp add: buffer_ok_def)

text \<open>
  C16 (buffer_write_then_read): bytes written inside the buffer are read back, and a read of any
  range that the write did not touch is unchanged.
\<close>

theorem buffer_write_then_read:
  assumes "buffer_ready r" and "bs \<noteq> []" and "unat off + length bs \<le> length (buffer_content r)"
    and "buffer_dwrite r off bs = Inr (k, r')"
    and "m \<noteq> 0" and "unat p + unat m \<le> length (buffer_content r)"
    and "unat p + unat m \<le> unat off \<or> unat off + length bs \<le> unat p"
  shows "k = word_of_nat (length bs) \<and>
    buffer_dread r' off (word_of_nat (length bs)) = Inr (word_of_nat (length bs), bs) \<and>
    buffer_dread r' p m = buffer_dread r p m"
  using buf_dev.write_then_read [OF assms(1-4)] buf_dev.write_then_read_other [OF assms] by simp

theorem buffer_write_then_read_witness:
  fixes r defines "r \<equiv> \<lparr>driver = None, driver_state = Some \<lparr>b_self = 8, b_size = 4, b_ptr = 16,
    b_data = [1, 2, 3, 4]\<rparr>, res_id = 0, dri_index = 0, dri_group = 2\<rparr>"
  shows "\<exists>k r'. buffer_dwrite r 1 [7, 8] = Inr (k, r') \<and> k = 2 \<and>
    buffer_dread r' 1 2 = Inr (2, [7, 8]) \<and> buffer_dread r' 3 1 = buffer_dread r 3 1"
proof -
  have ok: "buffer_ready r" "length (buffer_content r) = 4"
    by (simp_all add: r_def buffer_ready_def buffer_ok_def buffer_content_def)
  obtain r' where w: "buffer_dwrite r 1 [7, 8] = Inr (word_of_nat (length [7 :: u8, 8]), r')"
    using buf_dev.dwrite_inside [OF ok(1), of "[7, 8]" 1] ok(2) by auto
  show ?thesis
    using buffer_write_then_read [OF ok(1) _ _ w, of 1 3] ok(2) w
    by (intro exI [of _ 2] exI [of _ r']) simp
qed

text \<open>
  C17 (buffer_read_past_end_faults): a read from an offset past the end of the buffer is not
  refused and not cut to zero: the unsigned difference wraps, the length becomes almost
  \<open>2 ^ 64\<close>, and the copy leaves the buffer.
\<close>

theorem buffer_read_past_end_faults:
  assumes "driver_state r = Some st" and "buffer_ok st" and "sz \<noteq> 0" and "cnt \<noteq> 0"
    and "unat sz * unat cnt < 2 ^ 62" and "unat (b_size st) < unat off" and "unat off < 2 ^ 62"
  shows "buffer_read (Some dst) sz cnt (Some off) (Some r) = Inl Out_Of_Bounds"
  using buffer_read_past_end [OF assms] .

theorem buffer_read_past_end_faults_witness:
  "buffer_read (Some [0]) 1 1 (Some 5)
     (Some \<lparr>driver = None, driver_state = Some \<lparr>b_self = 8, b_size = 4, b_ptr = 16, b_data = [1, 2, 3, 4]\<rparr>,
            res_id = 0, dri_index = 0, dri_group = 2\<rparr>) = Inl Out_Of_Bounds"
  by (rule buffer_read_past_end_faults [where st = "\<lparr>b_self = 8, b_size = 4, b_ptr = 16, b_data = [1, 2, 3, 4]\<rparr>"])
    (simp_all add: buffer_ok_def)

text \<open>
  Whatever the arguments, a write that returns leaves the size and
  every other field of the resource alone and keeps the buffer as long as its size says.
\<close>

theorem buffer_write_invariant:
  assumes "buffer_ready r" and "buffer_write buffer sz cnt file (Some r) = Inr (k, res)"
  shows "\<exists>r'. res = Some r' \<and> buffer_ready r' \<and> length (buffer_content r') = length (buffer_content r) \<and>
    r'\<lparr>driver_state := driver_state r\<rparr> = r"
proof -
  from assms(1) obtain st where st: "driver_state r = Some st" "buffer_ok st" by (rule buffer_readyE)
  have same: ?thesis if "res = Some r" using that assms(1) by simp
  have new: ?thesis if res: "res = Some (r\<lparr>driver_state := Some (st\<lparr>b_data := d\<rparr>)\<rparr>)"
    and len: "length d = length (b_data st)" for d
    using that st by (simp add: buffer_ready_def buffer_ok_def buffer_content_def)
  show ?thesis
    using assms(2) st(1) same new
    by (auto simp: buffer_write_def Let_def res_bind_eq_Inr dest!: mem_copy_length
        split: option.splits if_splits)
qed

theorem buffer_write_invariant_witness:
  fixes r defines "r \<equiv> \<lparr>driver = None, driver_state = Some \<lparr>b_self = 8, b_size = 2, b_ptr = 16,
    b_data = [1, 2]\<rparr>, res_id = 0, dri_index = 0, dri_group = 2\<rparr>"
  shows "\<exists>r'. buffer_write None 1 1 (Some 0) (Some r) = Inr (- 1, Some r') \<and> buffer_ready r'"
proof -
  have "buffer_ready r" and c: "buffer_write None 1 1 (Some 0) (Some r) = Inr (- 1, Some r)"
    by (simp_all add: r_def buffer_ready_def buffer_ok_def buffer_write_def)
  from buffer_write_invariant [OF this] show ?thesis using c by simp
qed

end
