(* ===== verification/Sim_Kernel.thy ===== *)
theory Sim_Kernel
  imports Buffer
begin

text \<open>
  A concrete kernel for the witnesses: a bump allocator with a ledger and a budget, I/O ports that
  remember what was written, and one VFS handle (number 1) whose reads and writes go to the
  buffer driver of this development at the handle's position. It shows that the assumptions about
  the kernel can hold together, and it closes the loop between the drivers: the disk under the
  file systems is the modelled buffer driver.
\<close>

record sim_world =
  sw_left :: nat
  sw_next :: u64
  sw_live :: "u64 list"
  sw_file :: "buffer_dri_state resource"
  sw_pos :: u64
  sw_ports :: "u32 \<Rightarrow> u8"

definition sim_alloc :: "u64 \<Rightarrow> sim_world \<Rightarrow> u64 \<times> sim_world" where
  "sim_alloc n w =
     (if sw_left w = 0 \<or> sw_next w = 0 \<or> sw_next w \<in> set (sw_live w) then (0, w)
      else (sw_next w, w\<lparr>sw_left := sw_left w - 1, sw_next := sw_next w + 64,
                        sw_live := sw_next w # sw_live w\<rparr>))"

definition sim_free :: "u64 \<Rightarrow> sim_world \<Rightarrow> sim_world" where
  "sim_free p w = (if p = 0 then w else w\<lparr>sw_live := removeAll p (sw_live w)\<rparr>)"

definition sim_vfs_read :: "u64 \<Rightarrow> u64 \<Rightarrow> u64 \<Rightarrow> sim_world \<Rightarrow> u64 \<times> u8 list \<times> sim_world" where
  "sim_vfs_read h sz cnt w =
     (if h \<noteq> 1 then (0, [], w)
      else case buffer_read (Some (replicate (unat sz * unat cnt) 0)) sz cnt (Some (sw_pos w)) (Some (sw_file w)) of
             Inr (k, Some bs) \<Rightarrow> (k, take (unat k) bs, w\<lparr>sw_pos := sw_pos w + k\<rparr>)
           | _ \<Rightarrow> (0, [], w))"

definition sim_vfs_write :: "u64 \<Rightarrow> u8 list \<Rightarrow> u64 \<Rightarrow> u64 \<Rightarrow> sim_world \<Rightarrow> u64 \<times> sim_world" where
  "sim_vfs_write h bs sz cnt w =
     (if h \<noteq> 1 then (0, w)
      else case buffer_write (Some bs) sz cnt (Some (sw_pos w)) (Some (sw_file w)) of
             Inr (k, Some r) \<Rightarrow> (k, w\<lparr>sw_file := r, sw_pos := sw_pos w + k\<rparr>)
           | _ \<Rightarrow> (0, w))"

definition sim_kernel :: "sim_world kernel" where
  "sim_kernel =
     \<lparr>k_masked_read = masked_read_ref, k_masked_write = masked_write_ref, k_min = min,
      k_align_up = (\<lambda>x a. if a = 0 then x else (x + a - 1) div a * a), k_atomic_inc = (\<lambda>x. (x + 1, x + 1)), k_std_buff_size = 512,
      k_alloc = sim_alloc, k_fresh = (\<lambda>p i. 0xAA), k_free = sim_free,
      k_inb = (\<lambda>p w. (sw_ports w p, w)),
      k_outb = (\<lambda>p b w. w\<lparr>sw_ports := (sw_ports w)(p := b)\<rparr>),
      k_vfs_open = (\<lambda>path h w. (1, w)), k_vfs_close = (\<lambda>h w. w),
      k_vfs_seek = (\<lambda>h off w. if h = 1 then w\<lparr>sw_pos := off\<rparr> else w),
      k_vfs_read = sim_vfs_read, k_vfs_write = sim_vfs_write\<rparr>"

definition sim_live :: "sim_world \<Rightarrow> u64 set" where
  "sim_live w = set (sw_live w) - {0}"

definition sim_disk :: "sim_world \<Rightarrow> u8 list" where
  "sim_disk w = buffer_content (sw_file w)"

definition sim_ok :: "sim_world \<Rightarrow> bool" where
  "sim_ok w = buffer_ready (sw_file w)"

text \<open>A world with a disk of the given bytes.\<close>

definition disk_resource :: "u8 list \<Rightarrow> buffer_dri_state resource" where
  "disk_resource bs =
     \<lparr>driver = Some 0, driver_state = Some \<lparr>b_self = 8, b_size = word_of_nat (length bs), b_ptr = 16,
        b_data = bs\<rparr>, res_id = 0, dri_index = 0, dri_group = 2\<rparr>"

definition sim_init :: "u8 list \<Rightarrow> sim_world" where
  "sim_init bs = \<lparr>sw_left = 100, sw_next = 64, sw_live = [], sw_file = disk_resource bs, sw_pos = 0,
     sw_ports = (\<lambda>_. 0)\<rparr>"

lemma sim_laws [simp]: "mask_laws sim_kernel" "min_law sim_kernel" "atomic_law sim_kernel"
  by (simp_all add: mask_laws_def min_law_def atomic_law_def sim_kernel_def)

lemma sim_init_ok: "length bs < 2 ^ 63 \<Longrightarrow> sim_ok (sim_init bs)"
  by (simp add: sim_ok_def sim_init_def disk_resource_def buffer_ready_def buffer_ok_def unat_of_nat)

lemma sim_init_disk [simp]: "sim_disk (sim_init bs) = bs"
  by (simp add: sim_disk_def sim_init_def disk_resource_def buffer_content_def)

interpretation sim_heap: kernel_heap sim_kernel sim_live
  by unfold_locales
    (auto simp: sim_kernel_def sim_alloc_def sim_free_def sim_live_def split: if_splits)

lemma sim_read_law:
  assumes ok: "sim_ok w" and n: "0 < unat sz * unat cnt"
    and inside: "unat (sw_pos w) + unat sz * unat cnt \<le> length (sim_disk w)"
  shows "sim_vfs_read 1 sz cnt w =
    (sz * cnt, bytes_at (unat (sw_pos w)) (unat sz * unat cnt) (sim_disk w), w\<lparr>sw_pos := sw_pos w + sz * cnt\<rparr>)"
proof -
  let ?n = "unat sz * unat cnt"
  from ok have "buffer_ready (sw_file w)" by (simp add: sim_ok_def)
  then obtain st where st: "driver_state (sw_file w) = Some st" "buffer_ok st"
    "buffer_content (sw_file w) = b_data st" "length (b_data st) = unat (b_size st)" "unat (b_size st) < 2 ^ 63"
    by (rule buffer_readyE)
  have m: "transfer_size st (sw_pos w) sz cnt = ?n"
    using inside st(3,4) by (simp add: transfer_size_def sim_disk_def)
  have w: "unat (sz * cnt) = ?n" using inside st by (simp add: unat_word_ariths sim_disk_def)
  have nz: "sz \<noteq> 0" "cnt \<noteq> 0" using n by auto
  have r: "buffer_read (Some (replicate ?n 0)) sz cnt (Some (sw_pos w)) (Some (sw_file w)) =
      Inr (sz * cnt, Some (blit (replicate ?n 0) 0 (bytes_at (unat (sw_pos w)) ?n (b_data st))))"
    using buffer_read_inside [OF st(1,2) nz, of "sw_pos w" "replicate ?n 0"] inside st m
    by (simp add: sim_disk_def)
  have "length (bytes_at (unat (sw_pos w)) ?n (b_data st)) = ?n"
    using inside st(3) by (simp add: sim_disk_def)
  then show ?thesis
    using take_blit_0 [of "bytes_at (unat (sw_pos w)) ?n (b_data st)" "replicate ?n 0"]
    by (simp add: sim_vfs_read_def r w sim_disk_def st(3))
qed

lemma sim_write_law:
  assumes ok: "sim_ok w" and n: "0 < unat sz * unat cnt" and len: "length bs = unat sz * unat cnt"
    and inside: "unat (sw_pos w) + length bs \<le> length (sim_disk w)"
  shows "\<exists>w'. sim_vfs_write 1 bs sz cnt w = (sz * cnt, w') \<and> sim_ok w' \<and>
    sim_disk w' = blit (sim_disk w) (unat (sw_pos w)) bs"
proof -
  from ok have "buffer_ready (sw_file w)" by (simp add: sim_ok_def)
  then obtain st where st: "driver_state (sw_file w) = Some st" "buffer_ok st"
    "buffer_content (sw_file w) = b_data st" "length (b_data st) = unat (b_size st)" "unat (b_size st) < 2 ^ 63"
    by (rule buffer_readyE)
  have m: "transfer_size st (sw_pos w) sz cnt = length bs"
    using inside len st(3,4) by (simp add: transfer_size_def sim_disk_def)
  have nz: "sz \<noteq> 0" "cnt \<noteq> 0" using n by auto
  have w: "sz * cnt = word_of_nat (length bs)" by (simp add: len)
  let ?data = "blit (b_data st) (unat (sw_pos w)) bs"
  let ?r = "(sw_file w)\<lparr>driver_state := Some (st\<lparr>b_data := ?data\<rparr>)\<rparr>"
  have b: "unat (sw_pos w) + length bs \<le> unat (b_size st)"
    using inside st(3,4) by (simp add: sim_disk_def)
  then have "unat sz * unat cnt < 2 ^ 63" and "unat (sw_pos w) \<le> unat (b_size st)"
    and "transfer_size st (sw_pos w) sz cnt \<le> length bs"
    using st(5) len m by simp_all
  from buffer_write_inside [OF st(1,2) nz this]
  have r: "buffer_write (Some bs) sz cnt (Some (sw_pos w)) (Some (sw_file w)) = Inr (sz * cnt, Some ?r)"
    by (simp only: m w [symmetric] bytes_at_all)
  have "length ?data = length (b_data st)" using inside st(3) by (simp add: sim_disk_def)
  then have "buffer_ready ?r" and "buffer_content ?r = ?data"
    using st(4,5) by (simp_all add: buffer_ready_def buffer_ok_def buffer_content_def)
  then show ?thesis
    unfolding sim_vfs_write_def r sim_ok_def sim_disk_def st(3)
    by (intro exI [of _ "w\<lparr>sw_file := ?r, sw_pos := sw_pos w + sz * cnt\<rparr>"]) simp
qed

interpretation sim_vfs: vfs_disk sim_kernel 1 sim_disk sw_pos sim_ok
proof
  fix w assume "sim_ok w"
  then show "length (sim_disk w) < 2 ^ 63"
    using buf_dev.content_size by (simp add: sim_ok_def sim_disk_def)
next
  fix w and sz cnt :: u64 assume "sim_ok w" "0 < unat sz * unat cnt"
    "unat (sw_pos w) + unat sz * unat cnt \<le> length (sim_disk w)"
  then show "\<exists>w'. k_vfs_read sim_kernel 1 sz cnt w =
      (sz * cnt, bytes_at (unat (sw_pos w)) (unat sz * unat cnt) (sim_disk w), w') \<and>
      sim_ok w' \<and> sim_disk w' = sim_disk w"
    by (simp add: sim_kernel_def sim_read_law sim_ok_def sim_disk_def)
next
  fix w and sz cnt :: u64 and bs :: "u8 list" assume "sim_ok w" "0 < unat sz * unat cnt" "length bs = unat sz * unat cnt"
    "unat (sw_pos w) + length bs \<le> length (sim_disk w)"
  then show "\<exists>w'. k_vfs_write sim_kernel 1 bs sz cnt w = (sz * cnt, w') \<and> sim_ok w' \<and>
      sim_disk w' = blit (sim_disk w) (unat (sw_pos w)) bs"
    using sim_write_law by (simp add: sim_kernel_def)
qed (simp_all add: sim_kernel_def sim_ok_def sim_disk_def sim_alloc_def sim_free_def)

end
