(* ===== verification/Resource_Props.thy ===== *)
theory Resource_Props
  imports Sim_Kernel
begin

text \<open>
  The properties of \<open>resource.c\<close>, with witnesses on a small driver table whose entries run the
  buffer driver over the concrete kernel.
\<close>

section \<open>A table for the witnesses\<close>

text \<open>
  Six groups as in \<open>enum ARC_DRI_GROUP\<close>: the buffer driver as the only file driver, and the
  same code registered for the PCI code of \<open>nvme/pci.c\<close> as the second entry of its group.
\<close>

definition demo_driver :: "u64 list option \<Rightarrow> (buffer_dri_state, u64 option, sim_world) driver_def" where
  "demo_driver cs = \<lparr>drv_init = Some (buffer_init sim_kernel), drv_uninit = Some (buffer_uninit sim_kernel),
     drv_codes = cs\<rparr>"

definition demo_table :: "(buffer_dri_state, u64 option, sim_world) dri_table" where
  "demo_table = \<lparr>t_groups = 6, t_count = (\<lambda>g. if g = 2 then 1 else if g = 4 then 2 else 0),
     t_rows = [[], [], [Some 0], [], [None, Some 1], []],
     t_deref = (\<lambda>p. if p = 1 then demo_driver (Some [0x1b360010, - 1]) else demo_driver None),
     t_terminator = - 1\<rparr>"

lemma demo_table_laws: "table_laws demo_table"
proof -
  have g: "g = 0 \<or> g = 1 \<or> g = 2 \<or> g = 3 \<or> g = 4 \<or> g = 5" if "0 \<le> g" "g < 6" for g :: int
    using that by presburger
  have rows: "if 0 \<le> g \<and> g < 6 then unat (t_count demo_table g) = length (t_rows demo_table ! nat g) \<and>
      length (t_rows demo_table ! nat g) < 2 ^ 31 else t_count demo_table g = 0" for g
  proof (cases "0 \<le> g \<and> g < 6")
    case True
    then have "g = 0 \<or> g = 1 \<or> g = 2 \<or> g = 3 \<or> g = 4 \<or> g = 5" using g by blast
    then show ?thesis by (elim disjE) (simp_all add: demo_table_def)
  next
    case False
    then show ?thesis by (auto simp: demo_table_def)
  qed
  have "t_groups demo_table = 6" "length (t_rows demo_table) = 6"
    by (simp_all add: demo_table_def)
  then show ?thesis unfolding table_laws_def by (intro conjI allI) (simp, simp only: of_nat_numeral, rule rows)
qed

lemma table_laws_deref: "table_laws (T\<lparr>t_deref := f\<rparr>) = table_laws T"
  by (simp add: table_laws_def)

lemma demo_codes: "codes_terminated demo_table"
  unfolding codes_terminated_def by (simp add: demo_table_def demo_driver_def)


section \<open>Properties\<close>

text \<open>
  C21 (find_code_first_match): for any group number, the code lookup returns the first index of
  the group whose driver lists the code before its terminator, and \<open>-1\<close> when there is none or
  no such group; it reads nothing outside the table or the code arrays.
\<close>

theorem find_code_first_match:
  assumes "table_laws T" and "codes_terminated T"
  shows "internal_find_code T target grp = Inr (first_entry T target grp)"
  using assms by (rule find_code_eq_first_entry)

theorem find_code_first_match_witness: "internal_find_code demo_table 0x1b360010 4 = Inr 1"
  unfolding find_code_first_match [OF demo_table_laws demo_codes]
  by (simp add: first_entry_def demo_table_def entry_has_def demo_driver_def upt_rec)

text \<open>
  C22 (pci_binds_first_match): a PCI function is bound by vendor and device number together: the
  empty slot and an unlisted device give no resource and change nothing; otherwise the resource
  is created for the first driver that lists \<open>vendor * 65536 + device\<close>.
\<close>

theorem pci_binds_first_match:
  assumes T: "table_laws T" "codes_terminated T"
  shows "init_pci_resource K T vendor device meta s =
    (let i = first_entry T (word_of_nat (unat vendor * 65536 + unat device)) 4
     in if vendor = 0xFFFF \<and> device = 0xFFFF \<or> i = - 1 then Inr (None, s)
        else init_resource K T 4 i meta s)"
proof -
  have "(ucast (pci_target vendor device) :: u64) = word_of_nat (unat vendor * 65536 + unat device)"
  proof -
    have v: "unat vendor < 65536" "unat device < 65536"
      using unsigned_less [of vendor, where 'a = nat] unsigned_less [of device, where 'a = nat] by simp_all
    have "unat (pci_target vendor device) = unat vendor * 65536 + unat device"
      unfolding pci_target_def by (rule join16_value)
    moreover have "unat (word_of_nat (unat vendor * 65536 + unat device) :: u64) =
        unat vendor * 65536 + unat device"
      using v by (simp only: unat_of_nat) simp
    moreover have "unat (ucast (pci_target vendor device) :: u64) = unat (pci_target vendor device)"
      by (simp add: unsigned_ucast_eq take_bit_nat_eq_self order_less_le_trans [OF unsigned_less])
    ultimately show ?thesis by (simp only: word_unat_eq_iff)
  qed
  then show ?thesis
    using find_code_eq_first_entry [OF T] init_resource_invalid [OF T(1), of "- 1" 4 K meta s]
    by (simp add: init_pci_resource_def Let_def)
qed

theorem pci_binds_first_match_witness:
  "init_pci_resource sim_kernel demo_table 0x1b36 0x0011 None
     \<lparr>current_id = 0, env = sim_init []\<rparr> = Inr (None, \<lparr>current_id = 0, env = sim_init []\<rparr>)"
  unfolding pci_binds_first_match [OF demo_table_laws demo_codes]
  by (simp add: first_entry_def demo_table_def entry_has_def demo_driver_def upt_rec)





text \<open>
  With drivers whose \<open>init\<close> does not fault, no group number and
  no index, however wild, makes \<open>init_resource\<close> read outside the table.
\<close>

theorem init_resource_no_fault:
  assumes "table_laws T" and "idx < 2 ^ 63"
    and "\<And>p init r s. drv_init (t_deref T p) = Some init \<Longrightarrow> \<not> faults (init r args s)"
  shows "\<not> faults (init_resource K T g idx args s)"
proof (cases "0 \<le> g \<and> g < t_groups T \<and> 0 \<le> idx \<and> nat idx < length (t_rows T ! nat g)")
  case False
  then show ?thesis using init_resource_invalid [OF assms(1,2) False, of K args s] by simp
next
  case True
  show ?thesis
    unfolding init_resource_valid [OF assms(1,2)
      True [THEN conjunct1] True [THEN conjunct2, THEN conjunct1]
      True [THEN conjunct2, THEN conjunct2, THEN conjunct1]
      True [THEN conjunct2, THEN conjunct2, THEN conjunct2]] Let_def
    by (auto simp: assms(3) split: option.splits prod.splits if_splits)
qed

theorem init_resource_no_fault_witness:
  "\<not> faults (init_resource sim_kernel (demo_table\<lparr>t_deref := (\<lambda>p. \<lparr>drv_init = Some (\<lambda>r a s. Inr (1, r, s)),
      drv_uninit = None, drv_codes = None\<rparr>)\<rparr>) 2 0 None \<lparr>current_id = 0, env = sim_init []\<rparr>)"
  by (rule init_resource_no_fault) (auto simp: table_laws_deref demo_table_laws)

text \<open>
  On any kernel with an allocation ledger, creating a RAM buffer through
  \<open>init_resource\<close> and destroying it with \<open>uninit_resource\<close> leaves exactly the memory that was
  in use before.
\<close>

theorem buffer_life_cycle:
  assumes "kernel_heap K live" and "table_laws T" and "idx < 2 ^ 63" and "atomic_law K"
    and "t_rows T ! nat g ! nat idx = Some p" and "drv_init (t_deref T p) = Some (buffer_init K)"
    and "drv_uninit (t_deref T p) = Some (buffer_uninit K)"
    and "init_resource K T g idx args s = Inr (Some (a, r), s1)"
  shows "\<exists>s2. uninit_resource K T (Some (a, r)) s1 = Inr (0, s2) \<and> live (env s2) = live (env s)"
proof -
  have "driver_lifecycle K live (buffer_init K) (buffer_uninit K) buffer_owned buffer_distinct"
    using kernel_heap.buffer_lifecycle [OF assms(1)] .
  from driver_lifecycle.init_uninit [OF this assms(2-8)] show ?thesis .
qed

theorem buffer_life_cycle_witness:
  fixes s defines "s \<equiv> \<lparr>current_id = 7, env = (sim_init [])\<rparr>"
  shows "\<exists>x s1 s2. init_resource sim_kernel demo_table 2 0 (Some 16) s = Inr (Some x, s1) \<and>
    sim_live (env s1) \<noteq> {} \<and> uninit_resource sim_kernel demo_table (Some x) s1 = Inr (0, s2) \<and> sim_live (env s2) = {}"
proof -
  obtain a r s1 where c: "init_resource sim_kernel demo_table 2 0 (Some 16) s = Inr (Some (a, r), s1)"
    "sim_live (env s1) \<noteq> {}"
    by (simp add: s_def init_resource_def table_at_def demo_table_def demo_driver_def sim_kernel_def
        sim_init_def sim_alloc_def sizeof_resource_def buffer_init_def sim_live_def)
  have "\<exists>s2. uninit_resource sim_kernel demo_table (Some (a, r)) s1 = Inr (0, s2) \<and>
      sim_live (env s2) = sim_live (env s)"
    by (rule buffer_life_cycle [OF sim_heap.kernel_heap_axioms demo_table_laws _ _ _ _ _ c(1), of 0])
      (simp_all add: demo_table_def demo_driver_def)
  then show ?thesis using c by (auto simp: s_def sim_init_def sim_live_def)
qed

end
