(* ===== verification/Dri_Table.thy ===== *)
theory Dri_Table
  imports Dri_Gen_Props Resource_Props
begin

text \<open>
  The generated table under \<open>resource.c\<close>: it has the laws that the lookups rely on, and the macro of a driver
  selects the driver. Then the table of this repository.
\<close>

section \<open>A row\<close>

definition put_name :: "name \<times> int \<Rightarrow> name option list \<Rightarrow> name option list" where
  "put_name = (\<lambda>(n, idx) row. if idx < 0 then row else row[nat idx := Some n])"

lemma length_put [simp]: "length (fold put_name d row) = length row"
  by (induction d arbitrary: row) (auto simp: put_name_def)

lemma put_other:
  assumes "\<forall>m. (m, i) \<notin> set d" and "0 \<le> i"
  shows "fold put_name d row ! nat i = row ! nat i"
  using assms(1)
proof (induction d arbitrary: row)
  case (Cons x d)
  obtain m j where x: "x = (m, j)" by fastforce
  then have "j \<noteq> i" using Cons.prems by auto
  then have "put_name x row ! nat i = row ! nat i" using assms(2) by (auto simp: put_name_def x nth_list_update_neq)
  then show ?case using Cons by simp
qed simp

lemma put_entry:
  assumes "(n, i) \<in> set d" and "0 \<le> i" and "nat i < length row" and "\<forall>m. (m, i) \<in> set d \<longrightarrow> m = n"
  shows "fold put_name d row ! nat i = Some n"
  using assms(1,3,4)
proof (induction d arbitrary: row)
  case (Cons x d)
  show ?case
  proof (cases "(n, i) \<in> set d")
    case True
    have "length (put_name x row) = length row" by (auto simp: put_name_def split: prod.split)
    then show ?thesis using Cons.IH [OF True, of "put_name x row"] Cons.prems by simp
  next
    case False
    then have "\<forall>m. (m, i) \<notin> set d" using Cons.prems(3) by auto
    moreover have "x = (n, i)" using Cons.prems(1) False by simp
    ultimately show ?thesis using put_other [of i d] assms(2) Cons.prems(2) by (simp add: put_name_def)
  qed
qed simp

lemma gen_row_eq: "gen_row d = fold put_name d (replicate (nat (largest_idx d)) None)"
  by (simp add: gen_row_def put_name_def)

lemma length_gen_row [simp]: "length (gen_row d) = nat (largest_idx d)"
  by (simp add: gen_row_eq)

lemma below_largest: "(n, i) \<in> set d \<Longrightarrow> i < largest_idx d"
proof -
  assume a: "(n, i) \<in> set d"
  then have "i \<in> set (map snd d)" by force
  then have "i \<le> Max (set (map snd d))" by (intro Max_ge) simp_all
  then show ?thesis using a by (auto simp: largest_idx_def)
qed

lemma largest_bound:
  assumes "\<forall>(n, i) \<in> set d. i < b" and "0 \<le> b" and "d = [] \<or> (\<exists>n i. (n, i) \<in> set d \<and> 0 \<le> i)"
  shows "0 \<le> largest_idx d" and "largest_idx d \<le> b"
proof -
  show "0 \<le> largest_idx d" using assms(3) below_largest by (fastforce simp: largest_idx_def)
  show "largest_idx d \<le> b"
  proof (cases "d = []")
    case False
    then have "Max (set (map snd d)) \<in> set (map snd d)" by (intro Max_in) simp_all
    then obtain x where "x \<in> set d" "Max (set (map snd d)) = snd x" by auto
    then have "Max (set (map snd d)) < b" using assms(1) by (auto simp: split_beta)
    then show ?thesis unfolding largest_idx_def if_not_P [OF False] by linarith
  qed (use assms(2) in \<open>simp add: largest_idx_def\<close>)
qed

section \<open>Symbols and groups\<close>

definition symbols_ok :: "(group \<times> nat) list \<Rightarrow> bool" where
  "symbols_ok symbols \<longleftrightarrow> symbols \<noteq> [] \<and> length symbols < 2 ^ 31 \<and> distinct (map fst symbols) \<and> map snd symbols = [0..<length symbols]"

lemma symbols_nth:
  assumes "symbols_ok symbols" and "i < length symbols"
  shows "symbols ! i = (fst (symbols ! i), i)" and "find (\<lambda>(s, j). j = i) symbols = Some (fst (symbols ! i), i)"
proof -
  have snd: "snd (symbols ! j) = j" if "j < length symbols" for j
    using assms(1) that unfolding symbols_ok_def by (metis nth_map nth_upt add_0)
  then show s: "symbols ! i = (fst (symbols ! i), i)" using assms(2) by (metis prod.collapse)
  show "find (\<lambda>(s, j). j = i) symbols = Some (fst (symbols ! i), i)"
    unfolding find_Some_iff using assms(2) snd s
    by (intro exI [of _ i]) (auto simp: split_beta)
qed

lemma find_int: "find (\<lambda>(s, j). int j = int i) symbols = find (\<lambda>(s, j). j = i) symbols"
  by simp

lemma map_of_patch:
  "map_of (patch_definitions symbols D) g = (case map_of D g of Some d \<Rightarrow> Some d | None \<Rightarrow> if g \<in> fst ` set symbols then Some [] else None)"
  unfolding patch_definitions_def
proof (induction symbols arbitrary: D)
  case (Cons x symbols)
  obtain s i where x: "x = (s, i)" by fastforce
  show ?case by (auto simp: Cons.IH x update_conv' split: option.split)
qed (simp split: option.split)

lemma distinct_patch: "distinct (map fst D) \<Longrightarrow> distinct (map fst (patch_definitions symbols D))"
  unfolding patch_definitions_def
  by (induction symbols arbitrary: D) (auto simp: distinct_update split: option.split)

lemma length_patch:
  assumes "distinct (map fst D)" and "fst ` set D \<subseteq> fst ` set symbols" and "distinct (map fst symbols)"
  shows "length (patch_definitions symbols D) = length symbols"
proof -
  let ?P = "patch_definitions symbols D"
  have "g \<in> fst ` set ?P \<longleftrightarrow> g \<in> fst ` set symbols" for g
  proof -
    have "g \<in> fst ` set ?P \<longleftrightarrow> map_of ?P g \<noteq> None" by (metis domIff dom_map_of_conv_image_fst)
    also have "\<dots> \<longleftrightarrow> g \<in> fst ` set symbols"
      using assms(2) by (auto simp: map_of_patch split: option.split) (metis domI dom_map_of_conv_image_fst subsetD)
    finally show ?thesis .
  qed
  then have "set (map fst ?P) = set (map fst symbols)" by auto
  then have "length (map fst ?P) = length (map fst symbols)"
    using distinct_card [OF distinct_patch [OF assms(1), of symbols]] distinct_card [OF assms(3)] by simp
  then show ?thesis by simp
qed

section \<open>The table\<close>

definition few_drivers :: "definitions \<Rightarrow> bool" where
  "few_drivers D \<longleftrightarrow> (\<forall>g. card {n. registered D g n} < 2 ^ 31)"

definition dict_of :: "definitions \<Rightarrow> group \<Rightarrow> (name \<times> int) list" where
  "dict_of D g = (case map_of D g of None \<Rightarrow> [] | Some d \<Rightarrow> d)"

lemma dict_entry:
  assumes "dicts D"
  shows "(n, i) \<in> set (dict_of D g) \<longleftrightarrow> val_at D g n = Some i"
proof (cases "map_of D g")
  case (Some d)
  then have "distinct (map fst d)" using assms unfolding dicts_def by blast
  then show ?thesis using Some by (simp add: dict_of_def val_at_def)
qed (simp add: dict_of_def val_at_def)

lemma count_dict: "(case map_of D g of None \<Rightarrow> 0 | Some d \<Rightarrow> largest_idx d) = largest_idx (dict_of D g)"
  by (simp add: dict_of_def largest_idx_def split: option.split)

lemma dict_patch: "dict_of (patch_definitions symbols D) g = dict_of D g"
  by (auto simp: dict_of_def map_of_patch split: option.split)

lemma dridef_patch: "dridef (patch_definitions symbols D) g n = dridef D g n"
  by (auto simp: dridef_def map_of_patch split: option.split)

lemma dridef_entry:
  assumes "dicts D" and "dridef D g n = Some i"
  shows "(n, i) \<in> set (dict_of D g)" and "0 \<le> i"
  using assms by (auto simp: dict_entry dridef_val split: option.splits if_splits)

lemma indices_okD:
  assumes "indices_ok shared D0 D"
  shows "\<And>g n. registered D0 g n \<Longrightarrow> \<exists>i. dridef D g n = Some i" and "\<And>g n i. dridef D g n = Some i \<Longrightarrow> registered D0 g n"
    and "\<And>g n m. registered D0 g n \<Longrightarrow> dridef D g n = dridef D g m \<Longrightarrow> m = n"
    and "\<And>g n i. dridef D g n = Some i \<Longrightarrow> 0 \<le> i \<and> i < int (card {m. registered D0 (lead shared g) m})"
  using assms unfolding indices_ok_def by blast+

lemma row_size:
  assumes input: "gen_input shared symbols D0" and ok: "indices_ok shared D0 D" and D: "dicts D" "map fst D = map fst D0"
    and few: "few_drivers D0"
  shows "0 \<le> largest_idx (dict_of D g) \<and> largest_idx (dict_of D g) < 2 ^ 31"
proof -
  note ix = indices_okD [OF ok]
  let ?b = "int (card {m. registered D0 (lead shared g) m})"
  have below: "i < ?b" if "(n, i) \<in> set (dict_of D g)" for n i
  proof (cases "i < 0")
    case False
    then have "dridef D g n = Some i" using that by (simp add: dict_entry [OF D(1)] dridef_val)
    then show ?thesis using ix(4) by blast
  qed simp
  have some: "dict_of D g = [] \<or> (\<exists>n i. (n, i) \<in> set (dict_of D g) \<and> 0 \<le> i)"
  proof (cases "map_of D g")
    case (Some d)
    then have "g \<in> fst ` set D0" using D(2) by (metis domI dom_map_of_conv_image_fst list.set_map)
    then obtain n i where "dridef D g n = Some i" using gen_inputD(7) [OF input] ix(1) by blast
    then show ?thesis using dridef_entry [OF D(1)] by blast
  qed (simp add: dict_of_def)
  have "?b < 2 ^ 31" using few by (simp add: few_drivers_def)
  then show ?thesis using largest_bound [of "dict_of D g" ?b] below some by fastforce
qed

lemma row_entry:
  assumes ok: "indices_ok shared D0 D" and D: "dicts D" and i: "dridef D g n = Some i"
  shows "nat i < length (gen_row (dict_of D g))" and "gen_row (dict_of D g) ! nat i = Some n"
proof -
  note e = dridef_entry [OF D i]
  show l: "nat i < length (gen_row (dict_of D g))" using below_largest [OF e(1)] e(2) by simp
  have "m = n" if "(m, i) \<in> set (dict_of D g)" for m
  proof -
    have "dridef D g m = Some i" using that e(2) by (simp add: dict_entry [OF D] dridef_val)
    then show ?thesis using indices_okD(2,3) [OF ok] i by metis
  qed
  then show "gen_row (dict_of D g) ! nat i = Some n"
    unfolding gen_row_eq using put_entry [OF e, of "replicate (nat (largest_idx (dict_of D g))) None"] l by simp
qed

lemma generated_table:
  assumes input: "gen_input shared symbols D0" and ok: "indices_ok shared D0 D" and D: "dicts D" "map fst D = map fst D0"
    and few: "few_drivers D0" and sym: "symbols_ok symbols"
    and T_def: "T = gen_table addr deref symbols (patch_definitions symbols D)"
  shows "table_laws T" and "t_groups T = int (length symbols)"
    and "\<And>k n i. k < length symbols \<Longrightarrow> dridef D (fst (symbols ! k)) n = Some i \<Longrightarrow>
      nat i < length (t_rows T ! k) \<and> t_rows T ! k ! nat i = Some (addr (fst (symbols ! k)) n)"
proof -
  note nth = symbols_nth [OF sym]
  have sym': "symbols \<noteq> []" "distinct (map fst symbols)" "map snd symbols = [0..<length symbols]"
    using sym by (simp_all add: symbols_ok_def)
  have keys: "distinct (map fst D)" "fst ` set D \<subseteq> fst ` set symbols"
    using D gen_inputD(3) [OF input] unfolding dicts_def by (simp_all, metis list.set_map)
  show groups: "t_groups T = int (length symbols)"
    using length_patch [OF keys sym'(2)] by (simp add: T_def gen_table_def)
  have "Max {0..<length symbols} = length symbols - 1" using sym'(1) by (intro Max_eqI) auto
  then have "Max (set (map snd symbols)) + 1 = length symbols" unfolding sym'(3) using sym'(1) by simp
  then have rows: "length (t_rows T) = length symbols"
    "k < length symbols \<Longrightarrow> t_rows T ! k = map (map_option (addr (fst (symbols ! k)))) (gen_row (dict_of D (fst (symbols ! k))))" for k
    using sym'(1) nth(2) by (simp_all add: T_def gen_table_def dict_of_def [symmetric] dict_patch)
  have size: "0 \<le> largest_idx (dict_of D g) \<and> largest_idx (dict_of D g) < 2 ^ 31" for g
    by (rule row_size [OF input ok D few])
  have counts: "unat (t_count T g) = length (t_rows T ! nat g) \<and> length (t_rows T ! nat g) < 2 ^ 31"
    if g: "0 \<le> g" "g < int (length symbols)" for g
  proof -
    obtain k where k: "g = int k" "k < length symbols" using g by (metis nat_less_iff nonneg_int_cases of_nat_less_iff)
    have "t_count T g = word_of_int (largest_idx (dict_of D (fst (symbols ! k))))"
      using k nth(2) [OF k(2)] by (simp add: T_def gen_table_def entry_count_def count_dict dict_patch)
    then show ?thesis using size [of "fst (symbols ! k)"] k rows(2) [OF k(2)] by (simp add: unat_eq_nat_uint uint_word_of_int_eq take_bit_int_eq_self nat_less_iff)
  qed
  have none: "t_count T g = 0" if "\<not> (0 \<le> g \<and> g < int (length symbols))" for g
  proof (cases "g < 0")
    case True
    then have "find (\<lambda>(s, i). int i = g) symbols = None" by (auto simp: find_None_iff)
    then show ?thesis using True by (simp add: T_def gen_table_def entry_count_def)
  next
    case False
    then show ?thesis using that by (simp add: T_def gen_table_def entry_count_def)
  qed
  show "table_laws T" unfolding table_laws_def groups using rows(1) counts none by auto
  show "nat i < length (t_rows T ! k) \<and> t_rows T ! k ! nat i = Some (addr (fst (symbols ! k)) n)"
    if k: "k < length symbols" and i: "dridef D (fst (symbols ! k)) n = Some i" for k n i
    using row_entry [OF ok D(1) i] rows(2) [OF k] by simp
qed

section \<open>Properties\<close>

text \<open>
  C20 (generator_indices): when the last group of each cluster has all the names of its cluster, \<open>fill_in_indices\<close>
  raises no exception and numbers exactly the registered drivers: no two drivers of a group get the same index, a
  name has the same index in all groups of its cluster, and the indices lie below the number of drivers of the
  cluster's last group. The order in which Python lists its sets does not matter.
\<close>

theorem generator_indices:
  assumes "gen_input shared symbols D" and "listing_ok listing"
  shows "\<exists>D'. fill_in_indices listing shared symbols D = Inr D' \<and>
    (\<forall>g n. registered D g n \<longleftrightarrow> dridef D' g n \<noteq> None) \<and>
    (\<forall>g n m. registered D g n \<and> dridef D' g n = dridef D' g m \<longrightarrow> m = n) \<and>
    (\<forall>g h n. registered D g n \<and> registered D h n \<and> h \<in> set (cluster_of shared g) \<longrightarrow> dridef D' h n = dridef D' g n) \<and>
    (\<forall>g n i. dridef D' g n = Some i \<longrightarrow> 0 \<le> i \<and> i < int (card {m. registered D (lead shared g) m}))"
proof -
  obtain D' I where run: "fill_in_indices listing shared symbols D = Inr D'" "gen_inv shared D (D', I)"
    "\<And>g n. registered D g n \<Longrightarrow> \<exists>v \<ge> 0. val_at D' g n = Some v"
    by (rule fill_in_indices_runs [OF assms]) blast
  have ok: "indices_ok shared D D'" by (rule final_indices [OF assms(1) run(2)]) (rule run(3))
  show ?thesis by (rule exI) (rule conjI [OF run(1) ok [unfolded indices_ok_def]])
qed

text \<open>
  C19 (generated_table_selects): the table written from those indices has the laws the resource manager relies on, and
  \<open>init_resource\<close> with the macro of a registered driver calls that driver's \<open>init\<close> on a new resource.
\<close>

theorem generated_table_selects:
  assumes input: "gen_input shared symbols D" and listing: "listing_ok listing" and sym: "symbols_ok symbols" and few: "few_drivers D"
    and k: "k < length symbols" "fst (symbols ! k) = g" and reg: "registered D g n"
    and init: "drv_init (deref (addr g n)) = Some f"
    and env: "atomic_law K" "k_alloc K sizeof_resource (env s) = (a, w)" "a \<noteq> 0"
  shows "\<exists>D' idx. fill_in_indices listing shared symbols D = Inr D' \<and> dridef (patch_definitions symbols D') g n = Some idx \<and>
    (let T = gen_table addr deref symbols (patch_definitions symbols D') in table_laws T \<and>
       init_resource K T (int k) idx args s =
         res_bind (f (fresh_resource (addr g n) (int k) idx (current_id s)) args \<lparr>current_id = current_id s + 1, env = w\<rparr>)
           (\<lambda>(ret, r, s'). if ret \<noteq> 0 then Inr (None, s'\<lparr>env := k_free K a (env s')\<rparr>) else Inr (Some (a, r), s')))"
proof -
  obtain D' I where run: "fill_in_indices listing shared symbols D = Inr D'" "gen_inv shared D (D', I)"
    "\<And>g n. registered D g n \<Longrightarrow> \<exists>v \<ge> 0. val_at D' g n = Some v"
    by (rule fill_in_indices_runs [OF input listing]) blast
  have ok: "indices_ok shared D D'" by (rule final_indices [OF input run(2)]) (rule run(3))
  note D' = gen_invD(1,2) [OF run(2)]
  let ?T = "gen_table addr deref symbols (patch_definitions symbols D')"
  note T = generated_table [OF input ok D' few sym refl, where addr = addr and deref = deref]
  obtain idx where idx: "dridef D' g n = Some idx" using indices_okD(1) [OF ok reg] by blast
  then have "dridef D' (fst (symbols ! k)) n = Some idx" using k(2) by simp
  note at = T(3) [OF k(1) this]
  have idx0: "0 \<le> idx" using indices_okD(4) [OF ok idx] by simp
  have "nat idx < 2 ^ 31" using at table_laws_row(2) [OF T(1), of "int k"] T(2) k(1) by simp
  then have small: "idx < 2 ^ 63" using idx0 by simp
  have deref: "t_deref ?T = deref" by (simp add: gen_table_def)
  have inc: "k_atomic_inc K (current_id s) = (current_id s + 1, current_id s + 1)" using env(1) by (simp add: atomic_law_def)
  have "init_resource K ?T (int k) idx args s =
      res_bind (f (fresh_resource (addr g n) (int k) idx (current_id s)) args \<lparr>current_id = current_id s + 1, env = w\<rparr>)
        (\<lambda>(ret, r, s'). if ret \<noteq> 0 then Inr (None, s'\<lparr>env := k_free K a (env s')\<rparr>) else Inr (Some (a, r), s'))"
    using init_resource_valid [OF T(1) small, of "int k" K args s] idx0 at T(2) k env(2,3) init
    by (simp add: deref inc)
  then show ?thesis using run(1) idx T(1) by (auto simp: dridef_patch Let_def)
qed

text \<open>Two drivers of one group.\<close>

definition demo_defs :: definitions where
  "demo_defs = [(''DEV'', [(''disk'', - 1), (''net'', - 1)])]"

lemma demo_input: "gen_input [] [(''DEV'', 0)] demo_defs" "symbols_ok [(''DEV'', 0)]" "few_drivers demo_defs"
  "registered demo_defs ''DEV'' n \<longleftrightarrow> n \<in> {''disk'', ''net''}"
proof -
  have reg: "registered demo_defs g n \<longleftrightarrow> g = ''DEV'' \<and> n \<in> {''disk'', ''net''}" for g n
    by (auto simp: registered_def val_at_def demo_defs_def)
  then show "registered demo_defs ''DEV'' n \<longleftrightarrow> n \<in> {''disk'', ''net''}" by simp
  have cl: "cluster_of [] g = [g]" "lead [] g = g" for g by (simp_all add: cluster_of_def lead_def)
  have v: "v = - 1" if "val_at demo_defs g n = Some v" for g n v
    using that by (auto simp: val_at_def demo_defs_def split: if_splits)
  have "dicts demo_defs" by (auto simp: dicts_def demo_defs_def)
  then show "gen_input [] [(''DEV'', 0)] demo_defs"
    unfolding gen_input_def cl
  proof (intro conjI)
    show "\<forall>g n v. val_at demo_defs g n = Some v \<longrightarrow> v = - 1" using v by blast
    have "fst ` set demo_defs = {''DEV''}" by (simp add: demo_defs_def)
    then show "\<forall>g \<in> fst ` set demo_defs. \<exists>n. registered demo_defs g n" using reg by auto
  qed (simp_all add: demo_defs_def)
  show "symbols_ok [(''DEV'', 0)]" by (simp add: symbols_ok_def)
  have "{n. registered demo_defs g n} \<subseteq> {''disk'', ''net''}" for g by (auto simp: reg)
  then have "card {n. registered demo_defs g n} \<le> card {''disk'', ''net''}" for g by (intro card_mono) simp_all
  then have c: "card {n. registered demo_defs g n} \<le> 2" for g by (simp add: numeral_2_eq_2)
  show "few_drivers demo_defs" unfolding few_drivers_def by (intro allI le_less_trans [OF c]) simp
qed

lemma demo_listing: "listing_ok remdups"
  by (simp add: listing_ok_def)

theorem generator_indices_witness:
  "\<exists>D. fill_in_indices remdups [] [(''DEV'', 0)] demo_defs = Inr D \<and>
    dridef D ''DEV'' ''disk'' \<noteq> None \<and> dridef D ''DEV'' ''net'' \<noteq> None \<and> dridef D ''DEV'' ''disk'' \<noteq> dridef D ''DEV'' ''net''"
proof -
  obtain D where D: "fill_in_indices remdups [] [(''DEV'', 0)] demo_defs = Inr D"
    "\<forall>g n. registered demo_defs g n \<longleftrightarrow> dridef D g n \<noteq> None"
    "\<forall>g n m. registered demo_defs g n \<and> dridef D g n = dridef D g m \<longrightarrow> m = n"
    using generator_indices [OF demo_input(1) demo_listing] by (elim exE conjE) (rule that)
  have r: "registered demo_defs ''DEV'' ''disk''" "registered demo_defs ''DEV'' ''net''" by (simp_all add: demo_input(4))
  have "dridef D ''DEV'' ''disk'' \<noteq> dridef D ''DEV'' ''net''" using D(3) r(1) by force
  then show ?thesis using D(1,2) r by blast
qed

definition demo_driver :: "(unit, unit, sim_world) driver_def" where
  "demo_driver = \<lparr>drv_init = Some (\<lambda>r a s. Inr (0, r\<lparr>driver_state := Some ()\<rparr>, s)), drv_uninit = None, drv_codes = None\<rparr>"

theorem generated_table_selects_witness:
  "\<exists>D idx r s'. fill_in_indices remdups [] [(''DEV'', 0)] demo_defs = Inr D \<and>
    dridef (patch_definitions [(''DEV'', 0)] D) ''DEV'' ''net'' = Some idx \<and>
    init_resource sim_kernel (gen_table (\<lambda>g n. length n) (\<lambda>p. demo_driver) [(''DEV'', 0)] (patch_definitions [(''DEV'', 0)] D)) 0 idx ()
      \<lparr>current_id = 7, env = sim_init []\<rparr> = Inr (Some (64, r), s') \<and> driver r = Some 3 \<and> res_id r = 7"
proof -
  let ?s = "\<lparr>current_id = 7, env = sim_init []\<rparr>"
  have a: "k_alloc sim_kernel sizeof_resource (env ?s) = (64, snd (sim_alloc sizeof_resource (sim_init [])))"
    by (simp add: sim_kernel_def sim_alloc_def sim_init_def)
  have d: "drv_init ((\<lambda>p. demo_driver) ((\<lambda>g n. length n) ''DEV'' ''net'')) = Some (\<lambda>r a s. Inr (0, r\<lparr>driver_state := Some ()\<rparr>, s))"
    by (simp add: demo_driver_def)
  have k: "0 < length [(''DEV'', 0 :: nat)]" "fst ([(''DEV'', 0 :: nat)] ! 0) = ''DEV''" "registered demo_defs ''DEV'' ''net''" "(64 :: u64) \<noteq> 0"
    by (simp_all add: demo_input(4))
  from generated_table_selects [where deref = "\<lambda>p. demo_driver" and addr = "\<lambda>g n. length n", OF demo_input(1) demo_listing demo_input(2,3)
      k(1,2,3) d sim_laws(3) a k(4), of "()"]
  show ?thesis by (auto simp: Let_def fresh_resource_def)
qed

section \<open>Collisions\<close>

text \<open>A number stays once it is given, whatever is placed later.\<close>

definition kept :: "gen_state \<Rightarrow> gen_state \<Rightarrow> bool" where
  "kept s s' \<longleftrightarrow> (\<forall>g n v. val_at (fst s) g n = Some v \<and> v \<noteq> - 1 \<longrightarrow> val_at (fst s') g n = Some v)"

definition runnable :: "group set \<Rightarrow> gen_state \<Rightarrow> bool" where
  "runnable G s \<longleftrightarrow> dicts (fst s) \<and> fst ` set (fst s) = G \<and> (\<forall>g \<in> G. \<exists>i. map_of (snd s) g = Some i)"

lemma place_name_keeps:
  assumes "listing_ok listing" and "set (cluster_of shared g) \<subseteq> G" and "runnable G s"
  shows "\<exists>s'. place_name listing shared g n s = Inr s' \<and> runnable G s' \<and> kept s s'"
proof -
  obtain D I where s: "s = (D, I)" by fastforce
  have run: "dicts D" "fst ` set D = G" "\<forall>h \<in> G. \<exists>i. map_of I h = Some i" using assms(3) by (simp_all add: runnable_def s)
  have I: "\<forall>h \<in> set (cluster_of shared g). \<exists>i. map_of I h = Some i" using run(3) assms(2) by blast
  then obtain i where i: "map_of I (lead shared g) = Some i" using lead_in by blast
  have sub: "set (cluster_of shared g) \<subseteq> fst ` set D" using assms(2) run(2) by simp
  obtain D' I' where e: "place_name listing shared g n (D, I) = Inr (D', I')" "dicts D'" "map fst D' = map fst D"
    "\<And>h m. val_at D' h m = (if h \<in> set (cluster_of shared g) \<and> m = n then placed i (val_at D h n) else val_at D h m)"
    "\<And>h. map_of I' h = (if h \<in> set (cluster_of shared g) \<and> val_at D h n = Some (- 1) then Some (i + 1) else map_of I h)"
    using place_name_effect [OF run(1) assms(1) sub I i, of n] by metis
  have "fst ` set D' = G" using e(3) run(2) by (metis list.set_map)
  then have "runnable G (D', I')" using e(2) run(3) by (simp add: runnable_def e(5))
  moreover have "kept (D, I) (D', I')" by (auto simp: kept_def e(4) placed_def)
  ultimately show ?thesis using e(1) s by blast
qed

lemma kept_refl: "kept s s" and kept_trans: "kept s t \<Longrightarrow> kept t u \<Longrightarrow> kept s u"
  by (auto simp: kept_def)

lemma place_groups_keep:
  assumes "listing_ok listing" and "\<forall>g \<in> G. set (cluster_of shared g) \<subseteq> G" and "runnable G s" and "set gs \<subseteq> G"
  shows "\<exists>s'. gen_each (place_group listing shared) gs s = Inr s' \<and> kept s s'"
proof -
  have one: "\<exists>s'. place_group listing shared g s = Inr s' \<and> runnable G s' \<and> kept s s' \<and> True" if "g \<in> G" "runnable G s" for g s
  proof -
    obtain D I where s: "s = (D, I)" by fastforce
    have "g \<in> dom (map_of D)" using that unfolding dom_map_of_conv_image_fst by (simp add: runnable_def s)
    then obtain d where d: "map_of D g = Some d" by blast
    have "\<exists>s'. gen_each (place_name listing shared g) (map fst d) s = Inr s' \<and> runnable G s' \<and> kept s s' \<and> (\<forall>n \<in> set (map fst d). True)"
      by (rule gen_each_run [where Q = "\<lambda>n s. True"])
        (use place_name_keeps [OF assms(1)] assms(2) that in \<open>auto intro: kept_refl kept_trans\<close>)
    then show ?thesis by (auto simp: place_group_def s keyed_def d)
  qed
  have "\<exists>s'. gen_each (place_group listing shared) gs s = Inr s' \<and> runnable G s' \<and> kept s s' \<and> (\<forall>g \<in> set gs. True)"
    by (rule gen_each_run [where Q = "\<lambda>g s. True"]) (use one assms(3,4) in \<open>auto intro: kept_refl kept_trans\<close>)
  then show ?thesis by blast
qed

text \<open>
  The condition on the last group is needed. If two drivers are registered in the first
  group of a cluster only, the generator gives both the index 0, so the row has one place for the two and one of
  them cannot be reached.
\<close>

theorem generator_index_collision:
  assumes listing: "listing_ok listing" and groups: "distinct [g, h, l]" and names: "distinct [a, b, c]"
  shows "\<exists>D. fill_in_indices listing [[g, h, l]] [(g, 0), (h, 1), (l, 2)]
      [(g, [(a, - 1), (b, - 1)]), (h, [(c, - 1)]), (l, [(c, - 1)])] = Inr D \<and>
    dridef D g a = Some 0 \<and> dridef D g b = Some 0"
proof -
  let ?D = "[(g, [(a, - 1), (b, - 1)]), (h, [(c, - 1)]), (l, [(c, - 1)])]" and ?I = "[(g, 0), (h, 0), (l, 0 :: int)]"
  let ?shared = "[[g, h, l]]" and ?G = "{g, h, l}"
  have cl: "set (cluster_of ?shared x) = ?G" "lead ?shared x = l" if "x \<in> ?G" for x
    using that by (auto simp: cluster_of_def lead_def)
  have G: "\<forall>x \<in> ?G. set (cluster_of ?shared x) \<subseteq> ?G" using cl by blast
  have D: "dicts ?D" "?G \<subseteq> fst ` set ?D" using groups names by (auto simp: dicts_def split: if_splits)
  have run: "runnable ?G (?D, ?I)" using D by (auto simp: runnable_def)
  have I: "\<forall>x \<in> ?G. \<exists>i. map_of ?I x = Some i" by auto
  have v: "val_at ?D g a = Some (- 1)" "val_at ?D g b = Some (- 1)" "val_at ?D l a = None"
    using groups names by (auto simp: val_at_def)
  obtain D1 I1 where 1: "place_name listing ?shared g a (?D, ?I) = Inr (D1, I1)" "dicts D1" "map fst D1 = map fst ?D"
    "\<And>x m. val_at D1 x m = (if x \<in> ?G \<and> m = a then placed 0 (val_at ?D x a) else val_at ?D x m)"
    "\<And>x. map_of I1 x = (if x \<in> ?G \<and> val_at ?D x a = Some (- 1) then Some 1 else map_of ?I x)"
    using place_name_effect [OF D(1) listing, of ?shared g ?I 0 a] cl [of g] D(2) I groups by auto
  have "set (cluster_of ?shared g) \<subseteq> ?G" using G by blast
  from place_name_keeps [OF listing this run, of a] have run1: "runnable ?G (D1, I1)" using 1(1) by auto
  have D1: "?G \<subseteq> fst ` set D1" "\<forall>x \<in> ?G. \<exists>i. map_of I1 x = Some i" using run1 by (auto simp: runnable_def)
  have l1: "map_of I1 l = Some 0" using v(3) groups by (simp add: 1(5))
  obtain D2 I2 where 2: "place_name listing ?shared g b (D1, I1) = Inr (D2, I2)"
    "\<And>x m. val_at D2 x m = (if x \<in> ?G \<and> m = b then placed 0 (val_at D1 x b) else val_at D1 x m)"
    using place_name_effect [OF 1(2) listing, of ?shared g I1 0 b] cl [of g] D1 l1 by auto
  from place_name_keeps [OF listing \<open>set (cluster_of ?shared g) \<subseteq> ?G\<close> run1, of b] have run2: "runnable ?G (D2, I2)" using 2(1) by auto
  have v2: "val_at D2 g a = Some 0" "val_at D2 g b = Some 0" using v names by (auto simp: 2(2) 1(4) placed_def)
  have first: "place_group listing ?shared g (?D, ?I) = Inr (D2, I2)" using 1(1) 2(1) by (simp add: place_group_def keyed_def)
  obtain D3 I3 where 3: "gen_each (place_group listing ?shared) [h, l] (D2, I2) = Inr (D3, I3)" "kept (D2, I2) (D3, I3)"
    using place_groups_keep [OF listing G run2, of "[h, l]"] by auto
  have "val_at D3 g a = Some 0" "val_at D3 g b = Some 0" using 3(2) v2 by (simp_all add: kept_def)
  moreover have "fill_in_indices listing ?shared [(g, 0), (h, 1), (l, 2)] ?D = Inr D3"
    using first 3(1) by (simp add: fill_in_indices_def)
  ultimately show ?thesis by (simp add: dridef_val)
qed

theorem generator_index_collision_witness:
  "\<exists>D. fill_in_indices remdups [[''SUPER'', ''DIR'', ''FILE'']] [(''SUPER'', 0), (''DIR'', 1), (''FILE'', 2)]
      [(''SUPER'', [(''fat'', - 1), (''xfs'', - 1)]), (''DIR'', [(''ext2'', - 1)]), (''FILE'', [(''ext2'', - 1)])] = Inr D \<and>
    dridef D ''SUPER'' ''fat'' = Some 0 \<and> dridef D ''SUPER'' ''xfs'' = Some 0"
  by (rule generator_index_collision [OF demo_listing]) simp_all

end
