(* ===== verification/Dri_Repo.thy ===== *)
theory Dri_Repo
  imports Dri_Table
begin

text \<open>
  The registrations of this repository, read from its files by the generator, and the driver table they give.
\<close>

section \<open>Registrations\<close>

text \<open>
  What a driver puts into a slot of its \<open>ARC_DriverDef\<close>: nothing, a function (or list) of its own, or one of
  the generated functions that do nothing.
\<close>

datatype dri_fn = Null_Fn | Own_Fn | Empty_Fn

record registration =
  reg_group :: group
  reg_name :: name
  reg_init :: dri_fn
  reg_uninit :: dri_fn
  reg_write :: dri_fn
  reg_read :: dri_fn
  reg_seek :: dri_fn
  reg_rename :: dri_fn
  reg_stat :: dri_fn
  reg_create :: dri_fn
  reg_remove :: dri_fn
  reg_locate :: dri_fn
  reg_control :: dri_fn
  reg_codes :: dri_fn

definition no_slots :: "group \<Rightarrow> name \<Rightarrow> registration" where
  "no_slots g n = \<lparr>reg_group = g, reg_name = n, reg_init = Null_Fn, reg_uninit = Null_Fn, reg_write = Null_Fn,
     reg_read = Null_Fn, reg_seek = Null_Fn, reg_rename = Null_Fn, reg_stat = Null_Fn, reg_create = Null_Fn,
     reg_remove = Null_Fn, reg_locate = Null_Fn, reg_control = Null_Fn, reg_codes = Null_Fn\<rparr>"

definition buffer_registration :: registration where
  "buffer_registration = (no_slots ''ARC_DRIGRP_FS_FILE'' ''buffer'')\<lparr>reg_init := Own_Fn, reg_uninit := Own_Fn,
     reg_read := Own_Fn, reg_write := Own_Fn, reg_seek := Own_Fn, reg_rename := Empty_Fn, reg_stat := Own_Fn,
     reg_codes := Null_Fn\<rparr>"

definition initramfs_super_registration :: registration where
  "initramfs_super_registration = (no_slots ''ARC_DRIGRP_FS_SUPER'' ''initramfs'')\<lparr>reg_init := Own_Fn,
     reg_uninit := Own_Fn, reg_read := Empty_Fn, reg_write := Empty_Fn, reg_seek := Empty_Fn, reg_rename := Empty_Fn,
     reg_stat := Own_Fn, reg_create := Empty_Fn, reg_remove := Empty_Fn, reg_locate := Own_Fn\<rparr>"

definition initramfs_file_registration :: registration where
  "initramfs_file_registration = (no_slots ''ARC_DRIGRP_FS_FILE'' ''initramfs'')\<lparr>reg_init := Own_Fn, reg_uninit :=
     Own_Fn, reg_read := Own_Fn, reg_write := Own_Fn, reg_seek := Own_Fn, reg_rename := Empty_Fn, reg_stat :=
     Own_Fn, reg_create := Empty_Fn, reg_remove := Empty_Fn, reg_locate := Empty_Fn\<rparr>"

definition ext2_super_registration :: registration where
  "ext2_super_registration = (no_slots ''ARC_DRIGRP_FS_SUPER'' ''ext2'')\<lparr>reg_init := Own_Fn, reg_uninit :=
     Own_Fn, reg_write := Own_Fn, reg_read := Own_Fn, reg_seek := Empty_Fn, reg_rename := Empty_Fn, reg_stat :=
     Own_Fn, reg_control := Own_Fn, reg_create := Own_Fn, reg_remove := Own_Fn, reg_locate := Own_Fn\<rparr>"

definition ext2_directory_registration :: registration where
  "ext2_directory_registration = (no_slots ''ARC_DRIGRP_FS_DIR'' ''ext2'')\<lparr>reg_init := Own_Fn, reg_uninit :=
     Own_Fn, reg_write := Own_Fn, reg_read := Own_Fn, reg_seek := Empty_Fn, reg_rename := Empty_Fn, reg_stat :=
     Own_Fn, reg_control := Null_Fn, reg_create := Empty_Fn, reg_remove := Empty_Fn, reg_locate := Own_Fn\<rparr>"

definition ext2_file_registration :: registration where
  "ext2_file_registration = (no_slots ''ARC_DRIGRP_FS_FILE'' ''ext2'')\<lparr>reg_init := Own_Fn, reg_uninit :=
     Own_Fn, reg_write := Own_Fn, reg_read := Own_Fn, reg_seek := Empty_Fn, reg_rename := Empty_Fn, reg_stat :=
     Own_Fn, reg_control := Null_Fn, reg_create := Empty_Fn, reg_remove := Empty_Fn, reg_locate := Empty_Fn\<rparr>"

definition uart_registration :: registration where
  "uart_registration = (no_slots ''ARC_DRIGRP_DEV_ACPI'' ''uart'')\<lparr>reg_init := Own_Fn, reg_uninit := Own_Fn,
     reg_read := Own_Fn, reg_write := Own_Fn, reg_seek := Empty_Fn, reg_rename := Empty_Fn, reg_stat := Own_Fn,
     reg_codes := Own_Fn\<rparr>"

definition rtc_registration :: registration where
  "rtc_registration = (no_slots ''ARC_DRIGRP_DEV_ACPI'' ''rtc'')\<lparr>reg_init := Own_Fn, reg_uninit := Own_Fn,
     reg_read := Own_Fn, reg_write := Own_Fn, reg_seek := Empty_Fn, reg_rename := Empty_Fn, reg_stat := Own_Fn,
     reg_codes := Own_Fn\<rparr>"

definition hpet_registration :: registration where
  "hpet_registration = (no_slots ''ARC_DRIGRP_DEV_ACPI'' ''hpet'')\<lparr>reg_init := Own_Fn, reg_uninit := Own_Fn,
     reg_read := Own_Fn, reg_write := Own_Fn, reg_seek := Empty_Fn, reg_rename := Empty_Fn, reg_stat := Own_Fn,
     reg_codes := Own_Fn\<rparr>"

definition nvme_pci_registration :: registration where
  "nvme_pci_registration = (no_slots ''ARC_DRIGRP_DEV_PCI'' ''nvme'')\<lparr>reg_init := Own_Fn, reg_uninit := Own_Fn,
     reg_read := Own_Fn, reg_write := Own_Fn, reg_seek := Empty_Fn, reg_rename := Empty_Fn, reg_stat := Own_Fn,
     reg_control := Own_Fn, reg_codes := Own_Fn\<rparr>"

definition nvme_registration :: registration where
  "nvme_registration = (no_slots ''ARC_DRIGRP_DEV'' ''nvme'')\<lparr>reg_init := Own_Fn, reg_uninit := Own_Fn,
     reg_read := Own_Fn, reg_write := Own_Fn, reg_seek := Empty_Fn, reg_rename := Empty_Fn, reg_stat := Own_Fn,
     reg_codes := Null_Fn\<rparr>"

definition nvme_namespace_registration :: registration where
  "nvme_namespace_registration = (no_slots ''ARC_DRIGRP_DEV'' ''nvme_namespace'')\<lparr>reg_init := Own_Fn,
     reg_uninit := Own_Fn, reg_read := Own_Fn, reg_write := Own_Fn, reg_seek := Empty_Fn, reg_rename := Empty_Fn,
     reg_stat := Own_Fn, reg_codes := Null_Fn\<rparr>"

definition partition_registration :: registration where
  "partition_registration = (no_slots ''ARC_DRIGRP_DEV'' ''partition_dummy'')\<lparr>reg_init := Own_Fn, reg_uninit :=
     Own_Fn, reg_read := Own_Fn, reg_write := Own_Fn, reg_seek := Empty_Fn, reg_rename := Empty_Fn, reg_stat :=
     Own_Fn\<rparr>"

definition repo_registrations :: "registration list" where
  "repo_registrations =
     [buffer_registration,
      initramfs_super_registration,
      initramfs_file_registration,
      ext2_super_registration,
      ext2_directory_registration,
      ext2_file_registration,
      uart_registration,
      rtc_registration,
      hpet_registration,
      nvme_pci_registration,
      nvme_registration,
      nvme_namespace_registration,
      partition_registration]"

lemmas registration_defs = repo_registrations_def no_slots_def
  buffer_registration_def
  initramfs_super_registration_def
  initramfs_file_registration_def
  ext2_super_registration_def
  ext2_directory_registration_def
  ext2_file_registration_def
  uart_registration_def
  rtc_registration_def
  hpet_registration_def
  nvme_pci_registration_def
  nvme_registration_def
  nvme_namespace_registration_def
  partition_registration_def

text \<open>
  What \<open>resource.c\<close> calls is there: \<open>init\<close> and \<open>uninit\<close> of every driver, and the codes of the drivers it looks up by
  code. The rule of \<open>resource.h\<close> that no pointer is \<open>NULL\<close> holds for no driver but the superblock one of ext2, if the codes
  are left aside.
\<close>

lemma registered_calls:
  assumes "r \<in> set repo_registrations"
  shows "reg_init r = Own_Fn" and "reg_uninit r = Own_Fn" and "reg_read r \<noteq> Null_Fn" and "reg_write r \<noteq> Null_Fn"
    and "reg_group r \<in> {''ARC_DRIGRP_DEV_ACPI'', ''ARC_DRIGRP_DEV_PCI''} \<longleftrightarrow> reg_codes r = Own_Fn"
    and "reg_control r \<noteq> Null_Fn \<and> reg_create r \<noteq> Null_Fn \<and> reg_remove r \<noteq> Null_Fn \<and> reg_locate r \<noteq> Null_Fn \<longleftrightarrow>
      r = ext2_super_registration"
  using assms by (auto simp: registration_defs)

definition repo_pairs :: "(group \<times> name) list" where
  "repo_pairs = map (\<lambda>r. (reg_group r, reg_name r)) repo_registrations"

section \<open>The lines\<close>

definition newline :: string where "newline = [CHR 0x0A]"

definition repo_header :: "string list" where
  "repo_header = map (\<lambda>line. line @ newline)
     [''enum ARC_DRI_GROUP {'',
      ''        ARC_DRIGRP_FS_SUPER = 0,'',
      CHR 0x09 # ''ARC_DRIGRP_FS_DIR,'',
      CHR 0x09 # ''ARC_DRIGRP_FS_FILE,'',
      CHR 0x09 # ''ARC_DRIGRP_DEV_ACPI,'',
      CHR 0x09 # ''ARC_DRIGRP_DEV_PCI,'',
      ''        ARC_DRIGRP_DEV,'',
      ''};'',
      [],
      ''ARC_SHARE_DRIVER_INDICES(ARC_DRIGRP_FS_SUPER, ARC_DRIGRP_FS_DIR, ARC_DRIGRP_FS_FILE)'']"

definition repo_symbols :: "(group \<times> nat) list" where
  "repo_symbols = [(''ARC_DRIGRP_FS_SUPER'', 0), (''ARC_DRIGRP_FS_DIR'', 1), (''ARC_DRIGRP_FS_FILE'', 2),
     (''ARC_DRIGRP_DEV_ACPI'', 3), (''ARC_DRIGRP_DEV_PCI'', 4), (''ARC_DRIGRP_DEV'', 5)]"

definition repo_shared :: "group list list" where
  "repo_shared = [[''ARC_DRIGRP_FS_SUPER'', ''ARC_DRIGRP_FS_DIR'', ''ARC_DRIGRP_FS_FILE'']]"

lemma read_header:
  "gen_each symbol_line repo_header (False, 0, []) = Inr (False, 6, repo_symbols)"
  "get_shared_groups repo_header = Inr repo_shared"
  by (simp_all add: repo_header_def newline_def symbol_line_def repo_symbols_def strip_def py_space_def no_spaces_def
      item_def decimal_def digit_def get_shared_groups_def shared_line_def share_macro_def macro_args_def repo_shared_def)

text \<open>Lines that the readers pass over.\<close>

definition other_line :: "string \<Rightarrow> bool" where
  "other_line line \<longleftrightarrow> \<not> occurs ''enum ARC_DRI_GROUP'' line \<and> (\<not> occurs share_macro line \<or> occurs ''#define'' line)"

definition registers :: "string \<Rightarrow> bool" where
  "registers line \<longleftrightarrow> occurs register_macro line \<and> \<not> occurs ''#define'' line"

lemma other_symbols:
  "\<forall>line \<in> set xs. other_line line \<Longrightarrow> gen_each symbol_line xs (False, i, S) = Inr (False, i, S)"
  by (induction xs) (auto simp: other_line_def symbol_line_def)

lemma other_shared: "\<forall>line \<in> set xs. other_line line \<Longrightarrow> gen_each shared_line xs S = Inr S"
  by (induction xs) (auto simp: other_line_def shared_line_def)

lemma header_read:
  assumes "\<forall>line \<in> set (before @ after). other_line line"
  shows "get_group_indices_and_symbols (before @ repo_header @ after) = Inr repo_symbols"
    and "get_shared_groups (before @ repo_header @ after) = Inr repo_shared"
proof -
  have o: "\<forall>line \<in> set before. other_line line" "\<forall>line \<in> set after. other_line line" using assms by auto
  show "get_group_indices_and_symbols (before @ repo_header @ after) = Inr repo_symbols"
    by (simp add: get_group_indices_and_symbols_def gen_each_append other_symbols [OF o(1)] other_symbols [OF o(2)] read_header(1))
  show "get_shared_groups (before @ repo_header @ after) = Inr repo_shared"
    using read_header(2)
    by (simp add: get_shared_groups_def gen_each_append other_shared [OF o(1)] other_shared [OF o(2)])
qed

text \<open>A registration is a line of its own. Names have no character that the reader cuts at.\<close>

definition plain_name :: "string \<Rightarrow> bool" where
  "plain_name xs \<longleftrightarrow> set xs \<inter> {CHR '' '', CHR ''('', CHR '')'', CHR '','', CHR ''#''} = {}"

definition registration_line :: "group \<times> name \<Rightarrow> string" where
  "registration_line = (\<lambda>(g, n). register_macro @ ''('' @ g @ '', '' @ n @ '') = {'' @ newline)"

lemma split_nonempty: "split_on c xs \<noteq> []"
  by (induction xs) (auto split: list.split)

lemma split_here: "c \<notin> set xs \<Longrightarrow> split_on c (xs @ c # ys) = xs # split_on c ys"
  using split_nonempty [of c ys] by (induction xs) (auto split: list.split)

lemma split_none: "c \<notin> set xs \<Longrightarrow> split_on c xs = [xs]"
  by (induction xs) auto

lemma starts_set: "starts_with part zs \<Longrightarrow> set part \<subseteq> set zs"
  by (induction part zs rule: starts_with.induct) auto

lemma occurs_set: "occurs part line \<Longrightarrow> set part \<subseteq> set line"
proof (induction line)
  case (Cons y ys)
  then show ?case using starts_set [of part "y # ys"] by auto
qed simp

lemma occurs_front: "occurs part (part @ ys)"
proof -
  have "starts_with part (part @ ys)" by (induction part) simp_all
  then show ?thesis by (cases "part @ ys") auto
qed

lemma no_spaces_name: "plain_name xs \<Longrightarrow> no_spaces xs = xs"
  by (auto simp: no_spaces_def plain_name_def filter_id_conv)

lemma registration_read:
  assumes "plain_name g" and "plain_name n"
  shows "registers (registration_line (g, n))" and "source_line (registration_line (g, n)) D = Inr (register g n D)"
proof -
  let ?line = "registration_line (g, n)"
  have "CHR ''#'' \<notin> set ?line"
    using assms by (auto simp: registration_line_def plain_name_def register_macro_def newline_def)
  then have "\<not> occurs ''#define'' ?line" using occurs_set [of "''#define''" ?line] by auto
  moreover have "occurs register_macro ?line" unfolding registration_line_def prod.case by (rule occurs_front)
  ultimately show r: "registers ?line" by (simp add: registers_def)
  have sp: "no_spaces ?line = register_macro @ CHR ''('' # (g @ CHR '','' # (n @ CHR '')'' # (''={'' @ newline)))"
    using no_spaces_name [OF assms(1)] no_spaces_name [OF assms(2)]
    by (simp add: registration_line_def no_spaces_def register_macro_def newline_def)
  have c: "CHR ''('' \<notin> set register_macro" "CHR ''('' \<notin> set (g @ CHR '','' # (n @ CHR '')'' # (''={'' @ newline)))"
    "CHR '')'' \<notin> set (g @ CHR '','' # n)" "CHR '','' \<notin> set g" "CHR '','' \<notin> set n"
    using assms by (auto simp: plain_name_def register_macro_def newline_def)
  define rest where "rest = g @ CHR '','' # (n @ CHR '')'' # (''={'' @ newline))"
  have outer: "split_on (CHR ''('') (no_spaces ?line) = [register_macro, rest]"
    by (simp only: sp split_here [OF c(1)] split_none [OF c(2)] rest_def)
  have inner: "hd (split_on (CHR '')'') rest) = g @ CHR '','' # n"
    using split_here [OF c(3), of "''={'' @ newline"] by (simp add: rest_def)
  have "macro_args ?line = Inr [g, n]"
    by (simp add: macro_args_def outer item_def inner split_here [OF c(4)] split_none [OF c(5)])
  then show "source_line ?line D = Inr (register g n D)" using r by (simp add: source_line_def registers_def item_def)
qed

section \<open>The dictionary\<close>

lemma register_effect:
  assumes "dicts D"
  shows "dicts (register g n D)" and "fst ` set (register g n D) = insert g (fst ` set D)"
    and "val_at (register g n D) h m = (if h = g \<and> m = n then Some (- 1) else val_at D h m)"
proof -
  show "dicts (register g n D)"
    using assms unfolding dicts_def register_def by (auto simp: distinct_update update_conv' split: option.splits)
  show "fst ` set (register g n D) = insert g (fst ` set D)"
    unfolding register_def dom_map_of_conv_image_fst [symmetric] by (simp add: update_conv')
  show "val_at (register g n D) h m = (if h = g \<and> m = n then Some (- 1) else val_at D h m)"
    by (auto simp: val_at_def register_def update_conv' split: option.split)
qed

definition registered_all :: "(group \<times> name) list \<Rightarrow> definitions \<Rightarrow> definitions" where
  "registered_all pairs D = fold (\<lambda>(g, n). register g n) pairs D"

lemma registered_all_effect:
  assumes "dicts D"
  shows "dicts (registered_all pairs D) \<and> fst ` set (registered_all pairs D) = fst ` set pairs \<union> fst ` set D \<and>
    (\<forall>g n. val_at (registered_all pairs D) g n = (if (g, n) \<in> set pairs then Some (- 1) else val_at D g n))"
  using assms
proof (induction pairs arbitrary: D)
  case (Cons x pairs)
  obtain g n where x: "x = (g, n)" by fastforce
  note e = register_effect [OF Cons.prems, of g n]
  have "registered_all (x # pairs) D = registered_all pairs (register g n D)" by (simp add: registered_all_def x)
  then show ?case using Cons.IH [OF e(1)] by (auto simp: e(2,3) x)
qed (simp add: registered_all_def)

text \<open>Reading the sources: what is not a registration is passed over.\<close>

lemma lines_read:
  assumes "\<forall>(g, n) \<in> set pairs. plain_name g \<and> plain_name n" and "filter registers xs = map registration_line pairs"
  shows "gen_each source_line xs D = Inr (registered_all pairs D)"
  using assms
proof (induction xs arbitrary: pairs D)
  case Nil
  then show ?case by (simp add: registered_all_def)
next
  case (Cons x xs)
  show ?case
  proof (cases "registers x")
    case True
    then obtain g n ps where p: "pairs = (g, n) # ps" "x = registration_line (g, n)" "filter registers xs = map registration_line ps"
      using Cons.prems(2) by (cases pairs) auto
    then have "source_line x D = Inr (register g n D)" using registration_read(2) Cons.prems(1) by simp
    then show ?thesis using Cons.IH [OF _ p(3)] Cons.prems(1) by (simp add: p(1) registered_all_def)
  next
    case False
    then have "source_line x D = Inr D" by (simp add: source_line_def registers_def)
    then show ?thesis using Cons False by simp
  qed
qed

text \<open>\<open>chunks\<close>: the registrations of each file.\<close>

lemma sources_read:
  assumes "\<forall>(g, n) \<in> set (concat chunks). plain_name g \<and> plain_name n"
    and "map (filter registers) files = map (map registration_line) chunks"
  shows "enumerate_source_files files = Inr (registered_all (concat (map rev chunks)) [])"
proof -
  have "gen_each (\<lambda>xs. gen_each source_line (rev xs)) files D = Inr (registered_all (concat (map rev chunks)) D)" for D
    using assms
  proof (induction files arbitrary: chunks D)
    case Nil
    then show ?case by (simp add: registered_all_def)
  next
    case (Cons xs files)
    then obtain c cs where c: "chunks = c # cs" "filter registers xs = map registration_line c"
      "map (filter registers) files = map (map registration_line) cs" by (cases chunks) auto
    have p: "\<forall>(g, n) \<in> set (rev c). plain_name g \<and> plain_name n" "\<forall>(g, n) \<in> set (concat cs). plain_name g \<and> plain_name n"
      using Cons.prems(1) by (auto simp: c(1))
    have "filter registers (rev xs) = map registration_line (rev c)" using c(2) by (simp add: rev_filter [symmetric] rev_map)
    then have "gen_each source_line (rev xs) D = Inr (registered_all (rev c) D)" by (rule lines_read [OF p(1)])
    then show ?case using Cons.IH [OF p(2) c(3)] by (simp add: c(1) registered_all_def)
  qed
  then show ?thesis by (simp add: enumerate_source_files_def)
qed

section \<open>The repository's table\<close>

lemma repo_plain: "list_all (\<lambda>(g, n). plain_name g \<and> plain_name n) repo_pairs"
  by (simp add: repo_pairs_def registration_defs plain_name_def)

lemma repo_groups: "set (map fst repo_pairs) = set (map fst repo_symbols)" "length repo_pairs = 13"
  by (auto simp: repo_pairs_def registration_defs repo_symbols_def)

lemma repo_clusters:
  "list_all (\<lambda>g. list_all (\<lambda>h. h \<in> set (map fst repo_symbols) \<and> cluster_of repo_shared h = cluster_of repo_shared g)
     (cluster_of repo_shared g)) (map fst repo_symbols)"
  by (simp add: repo_symbols_def cluster_of_def repo_shared_def)

lemma repo_leads: "list_all (\<lambda>(g, n). (lead repo_shared g, n) \<in> set repo_pairs) repo_pairs"
  by (simp add: repo_pairs_def registration_defs lead_def cluster_of_def repo_shared_def)

lemma repo_symbols_ok: "symbols_ok repo_symbols"
  by (simp add: symbols_ok_def repo_symbols_def upt_rec)

lemmas repo_checks = repo_plain [unfolded list_all_iff] repo_groups(1) repo_clusters [unfolded list_all_iff]
  repo_leads [unfolded list_all_iff] repo_groups(2) repo_symbols_ok

lemma repo_input:
  assumes "set pairs = set repo_pairs"
  shows "gen_input repo_shared repo_symbols (registered_all pairs [])" and "few_drivers (registered_all pairs [])"
    and "registered (registered_all pairs []) g n \<longleftrightarrow> (g, n) \<in> set repo_pairs"
proof -
  let ?D = "registered_all pairs []"
  have "dicts []" by (simp add: dicts_def)
  from registered_all_effect [OF this, of pairs]
  have D: "dicts ?D" "fst ` set ?D = fst ` set repo_pairs" "\<And>g n. val_at ?D g n = (if (g, n) \<in> set repo_pairs then Some (- 1) else None)"
    by (simp_all add: assms val_at_def)
  have reg: "registered ?D g n \<longleftrightarrow> (g, n) \<in> set repo_pairs" for g n by (simp add: registered_def D(3))
  then show "registered ?D g n \<longleftrightarrow> (g, n) \<in> set repo_pairs" .
  have groups: "fst ` set repo_pairs = fst ` set repo_symbols" using repo_checks(2) by simp
  have cl: "h \<in> fst ` set repo_pairs \<and> cluster_of repo_shared h = cluster_of repo_shared g"
    if "g \<in> fst ` set repo_pairs" "h \<in> set (cluster_of repo_shared g)" for g h
    using that repo_checks(3) unfolding groups set_map by blast
  have ld: "(lead repo_shared g, n) \<in> set repo_pairs" if "(g, n) \<in> set repo_pairs" for g n
    using repo_checks(4) that by blast
  have "\<exists>n. (g, n) \<in> set repo_pairs" if "g \<in> fst ` set repo_pairs" for g using that by auto
  then show "gen_input repo_shared repo_symbols ?D"
    unfolding gen_input_def reg D(2)
  proof (intro conjI)
    show "\<forall>g n v. val_at ?D g n = Some v \<longrightarrow> v = - 1" by (simp add: D(3))
    show "fst ` set repo_pairs \<subseteq> fst ` set repo_symbols" by (simp only: groups subset_refl)
  qed (use D(1) cl ld in blast)+
  have "card {n. registered ?D g n} \<le> card (snd ` set repo_pairs)" for g
    by (rule card_mono) (simp, force simp: reg)
  moreover have "card (snd ` set repo_pairs) \<le> length repo_pairs" by (metis card_length length_map list.set_map)
  ultimately have c: "card {n. registered ?D g n} \<le> 13" for g using repo_checks(5) by (metis le_trans)
  show "few_drivers ?D" unfolding few_drivers_def by (intro allI le_less_trans [OF c]) simp
qed

text \<open>
  C18 (repository_table): whatever the order of the files, of the drivers in them and of Python's sets, the generator
  reads the groups and registrations of this repository and writes a table with the laws the resource manager
  relies on. Exactly the thirteen drivers get a macro, the macro's entry of the group's row is that driver, and the
  names that ext2 and initramfs have in several file system groups have the same number there.
\<close>

theorem repository_table:
  assumes "listing_ok listing" and header: "\<forall>line \<in> set (before @ after). other_line line"
    and sources: "map (filter registers) files = map (map registration_line) chunks" "set (concat chunks) = set repo_pairs"
  shows "\<exists>D. gen_dri_defs listing (before @ repo_header @ after) files = Inr (repo_symbols, D) \<and>
    (let T = gen_table addr deref repo_symbols D in table_laws T \<and>
       (\<forall>g n. (g, n) \<in> set repo_pairs \<longleftrightarrow> dridef D g n \<noteq> None) \<and>
       (\<forall>k n i. k < 6 \<and> dridef D (fst (repo_symbols ! k)) n = Some i \<longrightarrow>
          t_rows T ! k ! nat i = Some (addr (fst (repo_symbols ! k)) n)) \<and>
       (\<forall>g h n. g \<in> set (hd repo_shared) \<and> h \<in> set (hd repo_shared) \<and> (g, n) \<in> set repo_pairs \<and> (h, n) \<in> set repo_pairs \<longrightarrow>
          dridef D g n = dridef D h n))"
proof -
  let ?pairs = "concat (map rev chunks)"
  have set: "set ?pairs = set repo_pairs" using sources(2) by simp
  note input = repo_input [OF set]
  let ?D0 = "registered_all ?pairs []"
  obtain D I where run: "fill_in_indices listing repo_shared repo_symbols ?D0 = Inr D" "gen_inv repo_shared ?D0 (D, I)"
    "\<And>g n. registered ?D0 g n \<Longrightarrow> \<exists>v \<ge> 0. val_at D g n = Some v"
    by (rule fill_in_indices_runs [OF input(1) assms(1)]) blast
  have ok: "indices_ok repo_shared ?D0 D" by (rule final_indices [OF input(1) run(2)]) (rule run(3))
  note D = gen_invD(1,2) [OF run(2)]
  note T = generated_table [OF input(1) ok D input(2) repo_symbols_ok refl, where addr = addr and deref = deref]
  have plain: "\<forall>(g, n) \<in> set (concat chunks). plain_name g \<and> plain_name n" unfolding sources(2) by (rule repo_checks(1))
  have gen: "gen_dri_defs listing (before @ repo_header @ after) files = Inr (repo_symbols, patch_definitions repo_symbols D)"
    by (simp add: gen_dri_defs_def header_read [OF header] sources_read [OF plain sources(1)] run(1))
  have all: "(g, n) \<in> set repo_pairs \<longleftrightarrow> dridef D g n \<noteq> None" for g n
    using ok unfolding indices_ok_def input(3) by blast
  have len: "length repo_symbols = 6" by (simp add: repo_symbols_def)
  have shared: "dridef D g n = dridef D h n"
    if "g \<in> set (hd repo_shared)" "h \<in> set (hd repo_shared)" "(g, n) \<in> set repo_pairs" "(h, n) \<in> set repo_pairs" for g h n
  proof -
    have "cluster_of repo_shared h = hd repo_shared" using that(2) by (auto simp: cluster_of_def repo_shared_def)
    then show ?thesis using ok that unfolding indices_ok_def input(3) by metis
  qed
  show ?thesis
    unfolding Let_def
  proof (intro exI [of _ "patch_definitions repo_symbols D"] conjI)
    show "\<forall>k n i. k < 6 \<and> dridef (patch_definitions repo_symbols D) (fst (repo_symbols ! k)) n = Some i \<longrightarrow>
        t_rows (gen_table addr deref repo_symbols (patch_definitions repo_symbols D)) ! k ! nat i = Some (addr (fst (repo_symbols ! k)) n)"
      using T(3) unfolding len dridef_patch by blast
  qed (use gen T(1) all shared in \<open>auto simp: dridef_patch\<close>)
qed

theorem repository_table_witness:
  "\<exists>D. gen_dri_defs remdups repo_header [map registration_line repo_pairs] = Inr (repo_symbols, D) \<and>
    table_laws (gen_table (\<lambda>g n. 0) (\<lambda>p. demo_driver) repo_symbols D) \<and> dridef D ''ARC_DRIGRP_DEV'' ''nvme'' \<noteq> None \<and>
    dridef D ''ARC_DRIGRP_FS_SUPER'' ''ext2'' = dridef D ''ARC_DRIGRP_FS_FILE'' ''ext2''"
proof -
  have r: "filter registers (map registration_line repo_pairs) = map registration_line repo_pairs"
    unfolding filter_id_conv using repo_checks(1) registration_read(1) by auto
  have m: "(''ARC_DRIGRP_DEV'', ''nvme'') \<in> set repo_pairs" "(''ARC_DRIGRP_FS_SUPER'', ''ext2'') \<in> set repo_pairs"
    "(''ARC_DRIGRP_FS_FILE'', ''ext2'') \<in> set repo_pairs" by (simp_all add: repo_pairs_def registration_defs)
  have s: "''ARC_DRIGRP_FS_SUPER'' \<in> set (hd repo_shared)" "''ARC_DRIGRP_FS_FILE'' \<in> set (hd repo_shared)"
    by (simp_all add: repo_shared_def)
  have l: "listing_ok remdups" by (simp add: listing_ok_def)
  have h: "\<forall>line \<in> set ([] @ []). other_line line" "map (filter registers) [map registration_line repo_pairs] = map (map registration_line) [repo_pairs]"
    "set (concat [repo_pairs]) = set repo_pairs" using r by simp_all
  obtain D where D: "gen_dri_defs remdups ([] @ repo_header @ []) [map registration_line repo_pairs] = Inr (repo_symbols, D)"
    "table_laws (gen_table (\<lambda>g n. 0) (\<lambda>p. demo_driver) repo_symbols D)" "\<forall>g n. (g, n) \<in> set repo_pairs \<longleftrightarrow> dridef D g n \<noteq> None"
    "\<forall>g h n. g \<in> set (hd repo_shared) \<and> h \<in> set (hd repo_shared) \<and> (g, n) \<in> set repo_pairs \<and> (h, n) \<in> set repo_pairs \<longrightarrow>
       dridef D g n = dridef D h n"
    using repository_table [OF l h, of "\<lambda>g n. 0" "\<lambda>p. demo_driver"] unfolding Let_def by (elim exE conjE) (rule that)
  have "dridef D ''ARC_DRIGRP_DEV'' ''nvme'' \<noteq> None" using D(3) m(1) by blast
  moreover have "dridef D ''ARC_DRIGRP_FS_SUPER'' ''ext2'' = dridef D ''ARC_DRIGRP_FS_FILE'' ''ext2''" using D(4) s m(2,3) by blast
  ultimately show ?thesis using D(1,2) unfolding append_Nil append_Nil2 by blast
qed

end
