(* ===== verification/Partition.thy ===== *)
theory Partition
  imports Sim_Kernel
begin

text \<open>
  \<open>src/c/sysdev/partition_dummy.c\<close>: a driver that shows a range of sectors of a drive as a
  device of its own. The drive is an open VFS handle; an access is a seek to the partition's
  first byte plus the file offset, and then the transfer. \<open>p_self\<close> is the address of the state
  structure and \<open>p_drive\<close> the handle.
\<close>

record partition_args =
  pa_drive_path :: "u8 list"
  pa_lba_start :: u64
  pa_attrs :: u64
  pa_size_in_lbas :: u64
  pa_lba_size :: u64
  pa_partition_number :: u32

record partition_state =
  p_self :: u64
  p_drive :: u64
  p_attrs :: u64
  p_start_lba :: u64
  p_size_in_lbas :: u64
  p_lba_size :: u64
  p_partition_number :: u32

section \<open>Operations\<close>

text \<open>\<open>sprintf\<close> of the path with \<open>%sp%d\<close>.\<close>

definition partition_path :: "u8 list \<Rightarrow> u32 \<Rightarrow> u8 list" where
  "partition_path drive n = drive @ [112] @ dec_int n"

definition init_partition_dummy ::
  "('w, 'z) kernel_scheme \<Rightarrow> partition_state resource option \<Rightarrow> partition_args option \<Rightarrow> 'w rsys \<Rightarrow>
   (int \<times> partition_state resource option \<times> 'w rsys) res" where
  "init_partition_dummy K res args s =
     (case (res, args) of
        (Some r, Some a) \<Rightarrow>
          (case k_alloc K 48 (env s) of (p, w1) \<Rightarrow>
             if p = 0 then Inr (- 2, res, s\<lparr>env := w1\<rparr>)
             else case k_vfs_open K (pa_drive_path a) 0 w1 of (drive, w2) \<Rightarrow>
               let n = word_of_nat (length (pa_drive_path a)) + 32
               in case k_alloc K n w2 of (path, w3) \<Rightarrow>
                 if path = 0 then Inl Null_Deref
                 else res_bind (mem_write (replicate (unat n) 0) 0
                        (partition_path (pa_drive_path a) (pa_partition_number a) @ [0]))
                   (\<lambda>_. Inr (0,
                      Some (r\<lparr>driver_state := Some
                        \<lparr>p_self = p, p_drive = drive, p_attrs = pa_attrs a, p_start_lba = pa_lba_start a,
                         p_size_in_lbas = pa_size_in_lbas a, p_lba_size = pa_lba_size a,
                         p_partition_number = pa_partition_number a\<rparr>\<rparr>),
                      s\<lparr>env := k_free K path w3\<rparr>)))
      | _ \<Rightarrow> Inr (- 1, res, s))"

definition uninit_partition_dummy :: "partition_state resource \<Rightarrow> 'w rsys \<Rightarrow> (int \<times> 'w rsys) res" where
  "uninit_partition_dummy r s = Inr (0, s)"

definition read_partition_dummy ::
  "('w, 'z) kernel_scheme \<Rightarrow> u8 list option \<Rightarrow> u64 \<Rightarrow> u64 \<Rightarrow> u64 option \<Rightarrow>
   partition_state resource option \<Rightarrow> 'w \<Rightarrow> (u64 \<times> u8 list option \<times> 'w) res" where
  "read_partition_dummy K buffer sz cnt file res w =
     (case (buffer, file, res) of
        (Some dst, Some offset, Some r) \<Rightarrow>
          if sz = 0 \<or> cnt = 0 then Inr (0, buffer, w)
          else (case driver_state r of None \<Rightarrow> Inl Null_Deref
                | Some st \<Rightarrow>
                  let w1 = k_vfs_seek K (p_drive st) (offset + p_start_lba st * p_lba_size st) w
                  in case k_vfs_read K (p_drive st) sz cnt w1 of (n, bs, w2) \<Rightarrow>
                       res_bind (mem_write dst 0 bs) (\<lambda>dst'. Inr (n, Some dst', w2)))
      | _ \<Rightarrow> Inr (0, buffer, w))"

text \<open>\<open>vfs_write\<close> is given the first \<open>size * count\<close> bytes of the caller's memory.\<close>

definition write_partition_dummy ::
  "('w, 'z) kernel_scheme \<Rightarrow> u8 list option \<Rightarrow> u64 \<Rightarrow> u64 \<Rightarrow> u64 option \<Rightarrow>
   partition_state resource option \<Rightarrow> 'w \<Rightarrow> (u64 \<times> 'w) res" where
  "write_partition_dummy K buffer sz cnt file res w =
     (case (buffer, file, res) of
        (Some src, Some offset, Some r) \<Rightarrow>
          if sz = 0 \<or> cnt = 0 then Inr (0, w)
          else (case driver_state r of None \<Rightarrow> Inl Null_Deref
                | Some st \<Rightarrow>
                  let w1 = k_vfs_seek K (p_drive st) (offset + p_start_lba st * p_lba_size st) w
                  in res_bind (mem_read src 0 (unat sz * unat cnt))
                       (\<lambda>bs. Inr (k_vfs_write K (p_drive st) bs sz cnt w1)))
      | _ \<Rightarrow> Inr (0, w))"

definition stat_partition_dummy ::
  "partition_state resource option \<Rightarrow> stat_buf option \<Rightarrow> (int \<times> stat_buf option) res" where
  "stat_partition_dummy res stat =
     (case (res, stat) of
        (Some r, Some sb) \<Rightarrow>
          (case driver_state r of None \<Rightarrow> Inl Null_Deref
           | Some st \<Rightarrow> Inr (0, Some (sb\<lparr>st_blksize := p_lba_size st, st_blocks := p_size_in_lbas st,
                                        st_size := p_lba_size st * p_size_in_lbas st\<rparr>)))
      | _ \<Rightarrow> Inr (- 1, stat))"

section \<open>The name fits its buffer\<close>

lemma dec_digits_length: "n < 10 ^ Suc k \<Longrightarrow> length (dec_digits n) \<le> Suc k"
proof (induction k arbitrary: n)
  case 0
  then show ?case by (simp add: dec_digits.simps [of n])
next
  case (Suc k)
  show ?case
  proof (cases "n < 10")
    case True
    then show ?thesis by (simp add: dec_digits.simps [of n])
  next
    case False
    have "n div 10 < 10 ^ Suc k" using Suc.prems by (simp add: less_mult_imp_div_less mult.commute)
    from Suc.IH [OF this] show ?thesis using False by (simp add: dec_digits.simps [of n])
  qed
qed

lemma dec_int_length: "length (dec_int v) \<le> 11"
proof -
  have "- (2 ^ 31) \<le> sint v" and "sint v < 2 ^ 31"
    using sint_range_size [of v] by (simp_all add: word_size)
  then have "nat (- sint v) < 10 ^ Suc 9" and "nat (sint v) < 10 ^ Suc 9" by simp_all
  from this [THEN dec_digits_length] show ?thesis by (simp add: dec_int_def)
qed

lemma partition_path_fits:
  assumes "length d < 2 ^ 63"
  shows "length (partition_path d n @ [0]) \<le> unat (word_of_nat (length d) + 32 :: u64)"
proof -
  have "unat (word_of_nat (length d) + 32 :: u64) = length d + 32"
    using assms by (simp add: unat_word_ariths unat_of_nat)
  then show ?thesis using dec_int_length [of n] by (simp add: partition_path_def)
qed

lemma init_partition_cases:
  assumes "length (pa_drive_path a) < 2 ^ 63"
  obtains (nomem) w1 where "k_alloc K 48 (env s) = (0, w1)"
      "init_partition_dummy K (Some r) (Some a) s = Inr (- 2, Some r, s\<lparr>env := w1\<rparr>)"
  | (nopath) p w1 drive w2 w3 where "k_alloc K 48 (env s) = (p, w1)" "p \<noteq> 0"
      "k_vfs_open K (pa_drive_path a) 0 w1 = (drive, w2)"
      "k_alloc K (word_of_nat (length (pa_drive_path a)) + 32) w2 = (0, w3)"
      "init_partition_dummy K (Some r) (Some a) s = Inl Null_Deref"
  | (made) p w1 drive w2 path w3 where "k_alloc K 48 (env s) = (p, w1)" "p \<noteq> 0"
      "k_vfs_open K (pa_drive_path a) 0 w1 = (drive, w2)"
      "k_alloc K (word_of_nat (length (pa_drive_path a)) + 32) w2 = (path, w3)" "path \<noteq> 0"
      "init_partition_dummy K (Some r) (Some a) s =
        Inr (0, Some (r\<lparr>driver_state := Some
               \<lparr>p_self = p, p_drive = drive, p_attrs = pa_attrs a, p_start_lba = pa_lba_start a,
                p_size_in_lbas = pa_size_in_lbas a, p_lba_size = pa_lba_size a,
                p_partition_number = pa_partition_number a\<rparr>\<rparr>),
             s\<lparr>env := k_free K path w3\<rparr>)"
proof (cases "k_alloc K 48 (env s)")
  case (Pair p w1)
  obtain drive w2 where o: "k_vfs_open K (pa_drive_path a) 0 w1 = (drive, w2)" by fastforce
  obtain path w3 where b: "k_alloc K (word_of_nat (length (pa_drive_path a)) + 32) w2 = (path, w3)"
    by fastforce
  have fit: "\<exists>m. mem_write (replicate (unat (word_of_nat (length (pa_drive_path a)) + 32 :: u64)) 0) 0
      (partition_path (pa_drive_path a) (pa_partition_number a) @ [0]) = Inr m"
    using partition_path_fits [OF assms] mem_write_ok length_replicate add_0 by metis
  note eq = init_partition_dummy_def option.case Pair o b prod.case Let_def
  show thesis
  proof (cases "p = 0")
    case True
    show thesis by (rule nomem [of w1]) (simp_all only: eq True simp_thms if_True)
  next
    case p: False
    show thesis
    proof (cases "path = 0")
      case True
      show thesis by (rule nopath [OF _ p o]) (simp_all only: eq True p simp_thms if_True if_False)
    next
      case False
      from fit obtain m where m: "mem_write (replicate (unat (word_of_nat (length (pa_drive_path a)) + 32 :: u64)) 0) 0
        (partition_path (pa_drive_path a) (pa_partition_number a) @ [0]) = Inr m" ..
      show thesis by (rule made [OF _ p o b False]) (simp_all only: eq False p simp_thms if_False m res_bind_Inr)
    qed
  qed
qed

section \<open>Data on the partition\<close>

text \<open>
  The byte range of a partition on its drive, and the partition as a byte device: its state is the
  resource with the world, its content the slice of the drive's bytes.
\<close>

definition part_first :: "partition_state \<Rightarrow> nat" where
  "part_first st = unat (p_start_lba st) * unat (p_lba_size st)"

definition part_bytes :: "partition_state \<Rightarrow> nat" where
  "part_bytes st = unat (p_size_in_lbas st) * unat (p_lba_size st)"

definition part_content :: "('w \<Rightarrow> u8 list) \<Rightarrow> partition_state resource \<times> 'w \<Rightarrow> u8 list" where
  "part_content disk s =
     (case driver_state (fst s) of None \<Rightarrow> []
      | Some st \<Rightarrow> bytes_at (part_first st) (part_bytes st) (disk (snd s)))"

definition part_ready ::
  "u64 \<Rightarrow> ('w \<Rightarrow> u8 list) \<Rightarrow> ('w \<Rightarrow> bool) \<Rightarrow> partition_state resource \<times> 'w \<Rightarrow> bool" where
  "part_ready h disk ok s \<longleftrightarrow> ok (snd s) \<and>
     (case driver_state (fst s) of None \<Rightarrow> False
      | Some st \<Rightarrow> p_drive st = h \<and> part_first st + part_bytes st \<le> length (disk (snd s)))"

definition part_dread ::
  "('w, 'z) kernel_scheme \<Rightarrow> partition_state resource \<times> 'w \<Rightarrow> u64 \<Rightarrow> u64 \<Rightarrow> (u64 \<times> u8 list) res" where
  "part_dread K s off n =
     res_bind (read_partition_dummy K (Some (replicate (unat n) 0)) 1 n (Some off) (Some (fst s)) (snd s))
       (\<lambda>(k, d, w). Inr (k, case d of None \<Rightarrow> [] | Some bs \<Rightarrow> take (unat k) bs))"

definition part_dwrite ::
  "('w, 'z) kernel_scheme \<Rightarrow> partition_state resource \<times> 'w \<Rightarrow> u64 \<Rightarrow> u8 list \<Rightarrow>
   (u64 \<times> partition_state resource \<times> 'w) res" where
  "part_dwrite K s off bs =
     res_bind (write_partition_dummy K (Some bs) 1 (word_of_nat (length bs)) (Some off) (Some (fst s)) (snd s))
       (\<lambda>(k, w). Inr (k, fst s, w))"

lemma part_address:
  assumes "unat off + part_first st < 2 ^ 64"
  shows "unat (off + p_start_lba st * p_lba_size st) = unat off + part_first st"
proof -
  have "unat (p_start_lba st * p_lba_size st) = part_first st"
    using assms unfolding part_first_def unat_word_ariths by simp
  then show ?thesis using assms by (simp add: unat_word_ariths)
qed

context vfs_disk begin

lemma read_on_disk:
  assumes "ok w" and st: "driver_state r = Some st" "p_drive st = h"
    and nz: "sz \<noteq> 0" "cnt \<noteq> 0"
    and inside: "unat off + part_first st + unat sz * unat cnt \<le> length (disk w)"
    and room: "unat sz * unat cnt \<le> length dst"
  obtains w' where "read_partition_dummy K (Some dst) sz cnt (Some off) (Some r) w =
      Inr (sz * cnt, Some (blit dst 0 (bytes_at (unat off + part_first st) (unat sz * unat cnt) (disk w))), w')"
    "ok w'" "disk w' = disk w"
proof -
  let ?n = "unat sz * unat cnt"
  have n: "0 < ?n" using nz by (simp add: unat_gt_0)
  have a: "unat (off + p_start_lba st * p_lba_size st) = unat off + part_first st"
    using inside disk_size [OF assms(1)] by (intro part_address) simp
  with inside have i: "unat (off + p_start_lba st * p_lba_size st) + ?n \<le> length (disk w)" by simp
  obtain w' where w': "k_vfs_read K h sz cnt (k_vfs_seek K h (off + p_start_lba st * p_lba_size st) w) =
      (sz * cnt, bytes_at (unat off + part_first st) ?n (disk w), w')" "ok w'" "disk w' = disk w"
    using seek_read [OF assms(1) n i] unfolding a .
  have "mem_write dst 0 (bytes_at (unat off + part_first st) ?n (disk w)) =
      Inr (blit dst 0 (bytes_at (unat off + part_first st) ?n (disk w)))"
    using room by (intro mem_write_ok) simp
  with w' show thesis
    using st nz by (intro that [of w']) (simp_all add: read_partition_dummy_def Let_def)
qed

lemma write_on_disk:
  assumes "ok w" and st: "driver_state r = Some st" "p_drive st = h"
    and nz: "sz \<noteq> 0" "cnt \<noteq> 0" and len: "length bs = unat sz * unat cnt"
    and inside: "unat off + part_first st + length bs \<le> length (disk w)"
  obtains w' where "write_partition_dummy K (Some bs) sz cnt (Some off) (Some r) w = Inr (sz * cnt, w')"
    "ok w'" "disk w' = blit (disk w) (unat off + part_first st) bs"
proof -
  have n: "0 < unat sz * unat cnt" using nz by (simp add: unat_gt_0)
  have a: "unat (off + p_start_lba st * p_lba_size st) = unat off + part_first st"
    using inside disk_size [OF assms(1)] by (intro part_address) simp
  with inside have i: "unat (off + p_start_lba st * p_lba_size st) + length bs \<le> length (disk w)" by simp
  obtain w' where w': "k_vfs_write K h bs sz cnt (k_vfs_seek K h (off + p_start_lba st * p_lba_size st) w) =
      (sz * cnt, w')" "ok w'" "disk w' = blit (disk w) (unat off + part_first st) bs"
    using seek_write [OF assms(1) n len i] unfolding a .
  have "mem_read bs 0 (unat sz * unat cnt) = Inr bs"
    using len by (simp add: mem_read_def flip: len)
  with w' show thesis
    using st nz by (intro that [of w']) (simp_all add: write_partition_dummy_def Let_def)
qed

lemma part_readyE:
  assumes "part_ready h disk ok s"
  obtains st where "driver_state (fst s) = Some st" "p_drive st = h" "ok (snd s)"
    "part_first st + part_bytes st \<le> length (disk (snd s))" "length (part_content disk s) = part_bytes st"
    "part_content disk s = bytes_at (part_first st) (part_bytes st) (disk (snd s))"
  using assms that by (auto simp: part_ready_def part_content_def split: option.splits)

lemma part_dread_inside:
  assumes "part_ready h disk ok s" and "n \<noteq> 0" and "unat off + unat n \<le> length (part_content disk s)"
  shows "part_dread K s off n = Inr (n, bytes_at (unat off) (unat n) (part_content disk s))"
proof -
  obtain st where st: "driver_state (fst s) = Some st" "p_drive st = h" "ok (snd s)"
    "part_first st + part_bytes st \<le> length (disk (snd s))" "length (part_content disk s) = part_bytes st"
    "part_content disk s = bytes_at (part_first st) (part_bytes st) (disk (snd s))"
    using part_readyE [OF assms(1)] .
  let ?bs = "bytes_at (unat off + part_first st) (unat n) (disk (snd s))"
  have "unat off + part_first st + unat (1 :: u64) * unat n \<le> length (disk (snd s))"
    and "unat (1 :: u64) * unat n \<le> length (replicate (unat n) (0 :: u8))"
    using assms(3) st by simp_all
  then obtain w' where "read_partition_dummy K (Some (replicate (unat n) 0)) 1 n (Some off) (Some (fst s)) (snd s) =
      Inr (1 * n, Some (blit (replicate (unat n) 0) 0
        (bytes_at (unat off + part_first st) (unat (1 :: u64) * unat n) (disk (snd s)))), w')"
    using read_on_disk [OF st(3,1,2) _ assms(2), of 1] by (metis one_neq_zero)
  moreover have "length ?bs = unat n" using assms(3) st by simp
  moreover have "bytes_at (unat off) (unat n) (part_content disk s) = ?bs"
    using assms(3) st by (simp add: bytes_at_bytes_at add.commute)
  ultimately show ?thesis
    using take_blit_0 [of ?bs "replicate (unat n) 0"] by (simp add: part_dread_def)
qed

lemma part_dwrite_inside:
  assumes "part_ready h disk ok s" and "bs \<noteq> []" and "unat off + length bs \<le> length (part_content disk s)"
  shows "\<exists>s'. part_dwrite K s off bs = Inr (word_of_nat (length bs), s') \<and> part_ready h disk ok s' \<and>
    part_content disk s' = blit (part_content disk s) (unat off) bs"
proof -
  obtain st where st: "driver_state (fst s) = Some st" "p_drive st = h" "ok (snd s)"
    "part_first st + part_bytes st \<le> length (disk (snd s))" "length (part_content disk s) = part_bytes st"
    "part_content disk s = bytes_at (part_first st) (part_bytes st) (disk (snd s))"
    using part_readyE [OF assms(1)] .
  have "length bs < 2 ^ 64" using assms(3) st disk_size [OF st(3)] by simp
  then have n: "unat (word_of_nat (length bs) :: u64) = length bs" by (simp add: unat_of_nat)
  then have nz: "(word_of_nat (length bs) :: u64) \<noteq> 0" using assms(2) by (metis length_0_conv unat_0)
  have len: "length bs = unat (1 :: u64) * unat (word_of_nat (length bs) :: u64)" by (simp add: n)
  have i: "unat off + part_first st + length bs \<le> length (disk (snd s))" using assms(3) st by simp
  obtain w' where w': "write_partition_dummy K (Some bs) 1 (word_of_nat (length bs)) (Some off) (Some (fst s)) (snd s) =
      Inr (1 * word_of_nat (length bs), w')" "ok w'" "disk w' = blit (disk (snd s)) (unat off + part_first st) bs"
    using write_on_disk [OF st(3,1,2) one_neq_zero nz len i] .
  have "part_ready h disk ok (fst s, w')" using w' st i by (simp add: part_ready_def)
  moreover have "part_content disk (fst s, w') = blit (part_content disk s) (unat off) bs"
    using w'(3) st assms(3)
    by (simp add: part_content_def bytes_at_blit_inside [of "unat off" bs] add.commute)
  ultimately show ?thesis
    using w'(1) by (intro exI [of _ "(fst s, w')"]) (simp add: part_dwrite_def)
qed

lemma part_content_size: "part_ready h disk ok s \<Longrightarrow> length (part_content disk s) < 2 ^ 63"
  using disk_size by (elim part_readyE) (metis add_leD2 order_le_less_trans)

end

text \<open>On every open disk the partition driver is a byte device.\<close>

sublocale vfs_disk \<subseteq> part: byte_device "part_dread K" "part_dwrite K" "part_content disk"
    "part_ready h disk ok"
  by (unfold_locales; rule part_content_size part_dread_inside part_dwrite_inside; assumption)

section \<open>Properties\<close>

definition demo_partition :: "u64 \<Rightarrow> u64 \<Rightarrow> partition_state" where
  "demo_partition start n = \<lparr>p_self = 4096, p_drive = 1, p_attrs = 0, p_start_lba = start, p_size_in_lbas = n,
     p_lba_size = 2, p_partition_number = 1\<rparr>"

definition demo_part :: "u64 \<Rightarrow> u64 \<Rightarrow> partition_state resource" where
  "demo_part start n = \<lparr>driver = Some 0, driver_state = Some (demo_partition start n), res_id = 0, dri_index = 0,
     dri_group = 5\<rparr>"

lemma demo_part_simps [simp]:
  "driver_state (demo_part a n) = Some (demo_partition a n)" "p_drive (demo_partition a n) = 1"
  "part_first (demo_partition a n) = unat a * 2" "part_bytes (demo_partition a n) = unat n * 2"
  by (simp_all add: demo_part_def demo_partition_def part_first_def part_bytes_def)

text \<open>
  C28 (partition_maps_to_drive): a write inside a partition changes exactly the bytes of the drive
  that lie at the partition's first byte plus the offset, returns the full count, and a read of
  the same range then delivers what was written and leaves the drive alone.
\<close>

theorem partition_maps_to_drive:
  assumes disk: "vfs_disk K h disk pos ok" and w: "ok w"
    and st: "driver_state r = Some st" "p_drive st = h"
    and nz: "sz \<noteq> 0" "cnt \<noteq> 0" and len: "length src = unat sz * unat cnt"
    and part: "unat off + length src \<le> part_bytes st" "part_first st + part_bytes st \<le> length (disk w)"
    and room: "length src \<le> length dst"
  shows "\<exists>w1 w2. write_partition_dummy K (Some src) sz cnt (Some off) (Some r) w = Inr (sz * cnt, w1) \<and>
    disk w1 = blit (disk w) (unat off + part_first st) src \<and>
    read_partition_dummy K (Some dst) sz cnt (Some off) (Some r) w1 =
      Inr (sz * cnt, Some (blit dst 0 src), w2) \<and> disk w2 = disk w1"
proof -
  have i: "unat off + part_first st + length src \<le> length (disk w)" using part by simp
  obtain w1 where w1: "write_partition_dummy K (Some src) sz cnt (Some off) (Some r) w = Inr (sz * cnt, w1)"
    "ok w1" "disk w1 = blit (disk w) (unat off + part_first st) src"
    using vfs_disk.write_on_disk [OF disk w st nz len i] .
  have i1: "unat off + part_first st + unat sz * unat cnt \<le> length (disk w1)" "unat sz * unat cnt \<le> length dst"
    using w1(3) i room len by simp_all
  obtain w2 where "read_partition_dummy K (Some dst) sz cnt (Some off) (Some r) w1 =
      Inr (sz * cnt, Some (blit dst 0 (bytes_at (unat off + part_first st) (unat sz * unat cnt) (disk w1))), w2)"
    "disk w2 = disk w1"
    using vfs_disk.read_on_disk [OF disk w1(2) st nz i1] .
  moreover have "bytes_at (unat off + part_first st) (unat sz * unat cnt) (disk w1) = src"
    using i by (simp add: w1(3) bytes_at_blit_same flip: len)
  ultimately show ?thesis using w1 by auto
qed

theorem partition_maps_to_drive_witness:
  "\<exists>w1 w2. write_partition_dummy sim_kernel (Some [7, 8]) 1 2 (Some 1) (Some (demo_part 1 2)) (sim_init [0, 1, 2, 3, 4, 5, 6, 7])
      = Inr (2, w1) \<and>
    sim_disk w1 = [0, 1, 2, 7, 8, 5, 6, 7] \<and>
    read_partition_dummy sim_kernel (Some [0, 0, 0]) 1 2 (Some 1) (Some (demo_part 1 2)) w1 =
      Inr (2, Some [7, 8, 0], w2) \<and> sim_disk w2 = sim_disk w1"
  using partition_maps_to_drive [OF sim_vfs.vfs_disk_axioms sim_init_ok [of "[0, 1, 2, 3, 4, 5, 6, 7]"],
      of "demo_part 1 2" "demo_partition 1 2" 1 2 "[7, 8]" 1 "[0, 0, 0]"]
  by (simp add: blit_def)

text \<open>
  C29 (partitions_independent): for two partitions of one drive whose byte ranges do not overlap, a
  write that stays inside the first leaves every byte of the second as it was.
\<close>

theorem partitions_independent:
  assumes disk: "vfs_disk K h disk pos ok" and w: "ok w"
    and r: "driver_state r = Some st" "p_drive st = h"
    and q: "driver_state q = Some qt"
    and apart: "part_first st + part_bytes st \<le> part_first qt \<or> part_first qt + part_bytes qt \<le> part_first st"
    and nz: "sz \<noteq> 0" "cnt \<noteq> 0" and len: "length src = unat sz * unat cnt"
    and inside: "unat off + length src \<le> part_bytes st" "part_first st + part_bytes st \<le> length (disk w)"
    and run: "write_partition_dummy K (Some src) sz cnt (Some off) (Some r) w = Inr (n, w')"
  shows "n = sz * cnt \<and> part_content disk (q, w') = part_content disk (q, w)"
proof -
  have i: "unat off + part_first st + length src \<le> length (disk w)" using inside by simp
  obtain w1 where w1: "write_partition_dummy K (Some src) sz cnt (Some off) (Some r) w = Inr (sz * cnt, w1)"
    "ok w1" "disk w1 = blit (disk w) (unat off + part_first st) src"
    using vfs_disk.write_on_disk [OF disk w r nz len i] .
  have "bytes_at (part_first qt) (part_bytes qt) (disk w1) = bytes_at (part_first qt) (part_bytes qt) (disk w)"
    unfolding w1(3) using i apart inside by (intro bytes_at_blit_other) auto
  then show ?thesis using run w1(1) q by (simp add: part_content_def)
qed

theorem partitions_independent_witness:
  "\<exists>n w'. write_partition_dummy sim_kernel (Some [7, 8]) 1 2 (Some 1) (Some (demo_part 1 2)) (sim_init [0, 1, 2, 3, 4, 5, 6, 7])
      = Inr (n, w') \<and> n = 2 \<and> part_content sim_disk (demo_part 3 1, w') = [6, 7]"
proof -
  obtain w' where w': "write_partition_dummy sim_kernel (Some [7, 8]) 1 2 (Some 1) (Some (demo_part 1 2))
      (sim_init [0, 1, 2, 3, 4, 5, 6, 7]) = Inr (1 * 2, w')"
    using vfs_disk.write_on_disk [OF sim_vfs.vfs_disk_axioms sim_init_ok [of "[0, 1, 2, 3, 4, 5, 6, 7]"],
      of "demo_part 1 2" "demo_partition 1 2" 1 2 "[7, 8]" 1] by (simp, blast)
  have "part_content sim_disk (demo_part 3 1, sim_init [0, 1, 2, 3, 4, 5, 6, 7]) = [6, 7]"
    by (simp add: part_content_def bytes_at_def)
  then show ?thesis
    using partitions_independent [OF sim_vfs.vfs_disk_axioms sim_init_ok [of "[0, 1, 2, 3, 4, 5, 6, 7]"],
      of "demo_part 1 2" "demo_partition 1 2" "demo_part 3 1" "demo_partition 3 1" 1 2 "[7, 8]" 1] w'
    by simp
qed

text \<open>
  The driver does not compare an access with the partition's size.
  A write at the end of one partition succeeds and lands at the start of the partition that
  follows it on the drive.
\<close>

theorem partition_end_not_checked:
  assumes disk: "vfs_disk K h disk pos ok" and w: "ok w"
    and r: "driver_state r = Some st" "p_drive st = h"
    and q: "driver_state q = Some qt" and next_to: "part_first qt = part_first st + part_bytes st"
    and fits: "part_first qt + part_bytes qt \<le> length (disk w)"
    and off: "unat off = part_bytes st"
    and nz: "sz \<noteq> 0" "cnt \<noteq> 0" and len: "length src = unat sz * unat cnt" "length src \<le> part_bytes qt"
  shows "\<exists>w'. write_partition_dummy K (Some src) sz cnt (Some off) (Some r) w = Inr (sz * cnt, w') \<and>
    part_content disk (r, w') = part_content disk (r, w) \<and>
    part_content disk (q, w') = blit (part_content disk (q, w)) 0 src"
proof -
  have a: "unat off + part_first st = part_first qt" using off next_to by simp
  then have i: "unat off + part_first st + length src \<le> length (disk w)" using fits len by simp
  obtain w' where w': "write_partition_dummy K (Some src) sz cnt (Some off) (Some r) w = Inr (sz * cnt, w')"
    "ok w'" "disk w' = blit (disk w) (part_first qt) src"
    using vfs_disk.write_on_disk [OF disk w r nz len(1) i] unfolding a .
  have "bytes_at (part_first qt) (part_bytes qt) (disk w') =
      blit (bytes_at (part_first qt) (part_bytes qt) (disk w)) 0 src"
    unfolding w'(3) using bytes_at_blit_inside [of 0 src "part_bytes qt" "part_first qt" "disk w"] len(2) fits
    by simp
  moreover have "bytes_at (part_first st) (part_bytes st) (disk w') = bytes_at (part_first st) (part_bytes st) (disk w)"
    unfolding w'(3) using len(2) fits next_to by (intro bytes_at_blit_other) auto
  ultimately show ?thesis using w' r(1) q by (intro exI [of _ w']) (simp add: part_content_def)
qed

theorem partition_end_not_checked_witness:
  "\<exists>w'. write_partition_dummy sim_kernel (Some [9]) 1 1 (Some 2) (Some (demo_part 1 1)) (sim_init [0, 1, 2, 3, 4, 5, 6, 7])
      = Inr (1, w') \<and>
    part_content sim_disk (demo_part 1 1, w') = [2, 3] \<and>
    part_content sim_disk (demo_part 2 2, w') = [9, 5, 6, 7]"
  using partition_end_not_checked [OF sim_vfs.vfs_disk_axioms sim_init_ok [of "[0, 1, 2, 3, 4, 5, 6, 7]"],
      of "demo_part 1 1" "demo_partition 1 1" "demo_part 2 2" "demo_partition 2 2" 2 1 1 "[9]"]
  by (simp add: part_content_def bytes_at_def blit_def)

text \<open>
  On success the state holds the caller's values and the drive's handle,
  the temporary path (which always fits its buffer) is released, and exactly the state structure
  stays allocated; uninitialising the partition does not release it.
\<close>

theorem partition_life_cycle:
  assumes heap: "kernel_heap K live" and opens: "\<And>path h w. live (snd (k_vfs_open K path h w)) = live w"
    and path: "length (pa_drive_path a) < 2 ^ 63"
    and run: "init_partition_dummy K (Some r) (Some a) s = Inr (0, r', s')"
  shows "\<exists>res st. r' = Some res \<and> driver_state res = Some st \<and> res\<lparr>driver_state := driver_state r\<rparr> = r \<and>
    p_start_lba st = pa_lba_start a \<and> p_size_in_lbas st = pa_size_in_lbas a \<and> p_lba_size st = pa_lba_size a \<and>
    p_drive st = fst (k_vfs_open K (pa_drive_path a) 0 (snd (k_alloc K 48 (env s)))) \<and>
    p_self st \<notin> live (env s) \<and> live (env s') = insert (p_self st) (live (env s)) \<and>
    uninit_partition_dummy res s' = Inr (0, s')"
  using path
proof (cases rule: init_partition_cases [where K = K and s = s and r = r])
  case (made p w1 drive w2 pth w3)
  note h = kernel_heap.alloc_fresh [OF heap made(1,2)] kernel_heap.alloc_adds [OF heap made(1,2)]
  have w2: "live w2 = live w1" using opens [of "pa_drive_path a" 0 w1] made(3) by simp
  have "live (k_free K pth w3) = live w2"
    using kernel_heap.free_after_alloc [OF heap made(4,5)] .
  with h w2 made(6) run made(1,3) show ?thesis by (auto simp: uninit_partition_dummy_def)
qed (use run in simp_all)

theorem partition_life_cycle_witness:
  fixes a defines "a \<equiv> \<lparr>pa_drive_path = [47, 97], pa_lba_start = 1, pa_attrs = 0, pa_size_in_lbas = 2,
    pa_lba_size = 2, pa_partition_number = 3\<rparr>"
  shows "\<exists>r' s' st. init_partition_dummy sim_kernel (Some (demo_part 0 0)) (Some a) \<lparr>current_id = 1, env = sim_init [0]\<rparr>
      = Inr (0, Some r', s') \<and> driver_state r' = Some st \<and> p_start_lba st = 1 \<and>
    sim_live (env s') = {p_self st} \<and> uninit_partition_dummy r' s' = Inr (0, s')"
proof -
  let ?s = "\<lparr>current_id = 1, env = sim_init [0]\<rparr>"
  have len: "length (pa_drive_path a) < 2 ^ 63" by (simp add: a_def)
  have opens: "sim_live (snd (k_vfs_open sim_kernel path h w)) = sim_live w" for path h w
    by (simp add: sim_kernel_def)
  have l: "sim_live (sim_init [0]) = {}" by (simp add: sim_live_def sim_init_def)
  obtain r' s' where run: "init_partition_dummy sim_kernel (Some (demo_part 0 0)) (Some a) ?s = Inr (0, Some r', s')"
    using len
  proof (cases rule: init_partition_cases [where K = sim_kernel and s = ?s and r = "demo_part 0 0"])
    case (nomem w1)
    then show ?thesis by (simp add: sim_kernel_def sim_alloc_def sim_init_def)
  next
    case (nopath p w1 drive w2 w3)
    then show ?thesis by (auto simp: sim_kernel_def sim_alloc_def sim_init_def)
  next
    case (made p w1 drive w2 pth w3)
    then show ?thesis using that by blast
  qed
  obtain st where "driver_state r' = Some st" "p_start_lba st = 1" "sim_live (env s') = {p_self st}"
    "uninit_partition_dummy r' s' = Inr (0, s')"
    using partition_life_cycle [OF sim_heap.kernel_heap_axioms opens len run] l by (auto simp: a_def)
  then show ?thesis using run by blast
qed

end
