(* ===== verification/Uart.thy ===== *)
theory Uart
  imports Sim_Kernel
begin

text \<open>
  \<open>src/c/sysdev/serial/uart.c\<close>: the line settings of a 16550 serial port. Every setting is a
  bit field of the line control register at \<open>port_base + 3\<close>, changed by reading the register,
  replacing the field and writing it back; the baud rate divisor is written through the latch that
  bit 7 of the register opens. The port I/O is the kernel's.
\<close>

record uart_state =
  u_self :: u64
  u_port_base :: u32
  u_align :: u32
  u_data_len :: u32

text \<open>
  The I/O resource of \<open>struct ARC_ACPIDevInfo\<close> (\<open>arch/acpi/acpi.h\<close>), as wide as any of its
  fields can be; \<open>None\<close> is a null \<open>io\<close>.
\<close>

record acpi_io =
  io_base :: u64
  io_align :: u64
  io_length :: u64

type_synonym acpi_dev_info = "acpi_io option"

section \<open>Operations\<close>

definition reg_field :: "('w, 'z) kernel_scheme \<Rightarrow> u8 \<Rightarrow> nat \<Rightarrow> u64 \<Rightarrow> u64" where
  "reg_field K d sh m = k_masked_read K (ucast d) sh m"

definition reg_replace :: "('w, 'z) kernel_scheme \<Rightarrow> u8 \<Rightarrow> u64 \<Rightarrow> nat \<Rightarrow> u64 \<Rightarrow> u8" where
  "reg_replace K d v sh m = ucast (k_masked_write K (ucast d) v sh m)"

definition set_buad_rate_divisor ::
  "('w, 'z) kernel_scheme \<Rightarrow> uart_state \<Rightarrow> u16 \<Rightarrow> 'w \<Rightarrow> 'w" where
  "set_buad_rate_divisor K st divisor w =
     (case k_inb K (u_port_base st + 3) w of (dlab, w1) \<Rightarrow>
        let dlab1 = reg_replace K dlab 1 7 1;
            w2 = k_outb K (u_port_base st + 3) dlab1 w1;
            w3 = k_outb K (u_port_base st) (ucast (divisor AND 0xFF)) w2;
            w4 = k_outb K (u_port_base st + 1) (ucast (drop_bit 8 divisor AND 0xFF)) w3;
            dlab2 = reg_replace K dlab1 0 7 1
        in k_outb K (u_port_base st + 3) dlab2 w4)"

definition get_data_bits :: "('w, 'z) kernel_scheme \<Rightarrow> uart_state \<Rightarrow> 'w \<Rightarrow> int \<times> 'w" where
  "get_data_bits K st w =
     (case k_inb K (u_port_base st + 3) w of (data, w1) \<Rightarrow> (uint (reg_field K data 0 3) + 5, w1))"

definition set_data_bits :: "('w, 'z) kernel_scheme \<Rightarrow> uart_state \<Rightarrow> int \<Rightarrow> 'w \<Rightarrow> 'w" where
  "set_data_bits K st bits w =
     (case k_inb K (u_port_base st + 3) w of (data, w1) \<Rightarrow>
        k_outb K (u_port_base st + 3) (reg_replace K data (word_of_int (bits - 5)) 0 3) w1)"

datatype uart_parity = NO_PARITY | ODD_PARITY | EVEN_PARITY | MARK_PARITY | SPACE_PARITY

primrec parity_no :: "uart_parity \<Rightarrow> int" where
  "parity_no NO_PARITY = - 1"
| "parity_no ODD_PARITY = 0"
| "parity_no EVEN_PARITY = 1"
| "parity_no MARK_PARITY = 2"
| "parity_no SPACE_PARITY = 3"

definition get_parity :: "('w, 'z) kernel_scheme \<Rightarrow> uart_state \<Rightarrow> 'w \<Rightarrow> int \<times> 'w" where
  "get_parity K st w =
     (case k_inb K (u_port_base st + 3) w of (data, w1) \<Rightarrow>
        if reg_field K data 3 1 = 0 then (parity_no NO_PARITY, w1)
        else (uint (reg_field K data 4 3), w1))"

definition set_parity :: "('w, 'z) kernel_scheme \<Rightarrow> uart_state \<Rightarrow> int \<Rightarrow> 'w \<Rightarrow> 'w" where
  "set_parity K st parity w =
     (case k_inb K (u_port_base st + 3) w of (data, w1) \<Rightarrow>
        k_outb K (u_port_base st + 3)
          (if parity = parity_no NO_PARITY then reg_replace K data 0 3 7
           else reg_replace K data (push_bit 1 (word_of_int parity) OR 1) 3 7) w1)"

datatype uart_stop = ONE_STOP_BIT | ONE_ONE_HALF_STOP_BITS | TWO_STOP_BITS

primrec stop_no :: "uart_stop \<Rightarrow> int" where
  "stop_no ONE_STOP_BIT = 1"
| "stop_no ONE_ONE_HALF_STOP_BITS = 2"
| "stop_no TWO_STOP_BITS = 3"

definition get_stop_bits :: "('w, 'z) kernel_scheme \<Rightarrow> uart_state \<Rightarrow> 'w \<Rightarrow> int \<times> 'w" where
  "get_stop_bits K st w =
     (case k_inb K (u_port_base st + 3) w of (data, w1) \<Rightarrow>
        if reg_field K data 2 1 = 0 then (stop_no ONE_STOP_BIT, w1) else (stop_no TWO_STOP_BITS, w1))"

definition set_stop_bits :: "('w, 'z) kernel_scheme \<Rightarrow> uart_state \<Rightarrow> int \<Rightarrow> 'w \<Rightarrow> 'w" where
  "set_stop_bits K st cnt w =
     (case k_inb K (u_port_base st + 3) w of (data, w1) \<Rightarrow>
        k_outb K (u_port_base st + 3)
          (if cnt = stop_no ONE_STOP_BIT then reg_replace K data 0 2 1
           else if cnt = stop_no ONE_ONE_HALF_STOP_BITS \<or> cnt = stop_no TWO_STOP_BITS
                then reg_replace K data 1 2 1
           else data) w1)"

definition clear_tx_fifo :: "('w, 'z) kernel_scheme \<Rightarrow> uart_state \<Rightarrow> 'w \<Rightarrow> 'w" where
  "clear_tx_fifo K st w = k_outb K (u_port_base st + 2) (push_bit 2 1) w"

definition clear_rx_fifo :: "('w, 'z) kernel_scheme \<Rightarrow> uart_state \<Rightarrow> 'w \<Rightarrow> 'w" where
  "clear_rx_fifo K st w = k_outb K (u_port_base st + 2) (push_bit 1 1) w"

definition enable_fifos :: "('w, 'z) kernel_scheme \<Rightarrow> uart_state \<Rightarrow> 'w \<Rightarrow> int \<times> 'w" where
  "enable_fifos K st w =
     (case k_inb K (u_port_base st + 2) (k_outb K (u_port_base st + 2) 1 w) of (data, w1) \<Rightarrow>
        if reg_field K data 6 3 \<ge> 2 then (0, w1) else (- 1, w1))"

definition init_uart ::
  "('w, 'z) kernel_scheme \<Rightarrow> uart_state resource option \<Rightarrow> acpi_dev_info option \<Rightarrow> 'w rsys \<Rightarrow>
   (int \<times> uart_state resource option \<times> 'w rsys) res" where
  "init_uart K res args s =
     (case (res, args) of
        (Some r, Some info) \<Rightarrow>
          (case k_alloc K 12 (env s) of (p, w1) \<Rightarrow>
             if p = 0 then Inr (- 2, res, s\<lparr>env := w1\<rparr>)
             else (case info of None \<Rightarrow> Inl Null_Deref
                   | Some io \<Rightarrow>
                     let st = \<lparr>u_self = p, u_port_base = ucast (io_base io), u_align = ucast (io_align io),
                               u_data_len = ucast (io_length io)\<rparr>;
                         w2 = set_data_bits K st 8 w1;
                         w3 = set_parity K st (parity_no NO_PARITY) w2;
                         w4 = set_stop_bits K st (stop_no ONE_STOP_BIT) w3
                     in Inr (0, Some (r\<lparr>driver_state := Some st\<rparr>), s\<lparr>env := w4\<rparr>)))
      | _ \<Rightarrow> Inr (- 1, res, s))"

definition uninit_uart :: "uart_state resource \<Rightarrow> 'w rsys \<Rightarrow> (int \<times> 'w rsys) res" where
  "uninit_uart r s = Inr (0, s)"

text \<open>Both transfers leave the caller's memory and the port alone.\<close>

definition read_uart :: "u8 list option \<Rightarrow> u64 \<Rightarrow> u64 \<Rightarrow> u64 option \<Rightarrow> uart_state resource option \<Rightarrow> u64" where
  "read_uart buffer sz cnt file res =
     (if buffer = None \<or> sz = 0 \<or> cnt = 0 \<or> file = None \<or> res = None then 0 else 0)"

definition write_uart :: "u8 list option \<Rightarrow> u64 \<Rightarrow> u64 \<Rightarrow> u64 option \<Rightarrow> uart_state resource option \<Rightarrow> u64" where
  "write_uart buffer sz cnt file res =
     (if buffer = None \<or> sz = 0 \<or> cnt = 0 \<or> file = None \<or> res = None then 0 else 0)"

definition stat_uart :: "uart_state resource option \<Rightarrow> stat_buf option \<Rightarrow> int \<times> stat_buf option" where
  "stat_uart res stat = (if res = None \<or> stat = None then (- 1, stat) else (0, stat))"

definition uart_acpi_codes :: "u64 \<Rightarrow> u64 list" where
  "uart_acpi_codes terminator = [0x9D2E741F3E2DEEC7, terminator]"

section \<open>Bit fields\<close>

lemma bit_masked_read: "bit (masked_read_ref v s m) n \<longleftrightarrow> bit m n \<and> bit v (s + n)"
  by (auto simp: masked_read_ref_def bit_simps add.commute)

lemma bit_masked_write:
  "n < 64 \<Longrightarrow> bit (masked_write_ref t v s m) n \<longleftrightarrow>
    (if s \<le> n \<and> bit m (n - s) then bit v (n - s) else bit t n)"
  by (auto simp: masked_write_ref_def bit_simps)

lemma bit_reg_field:
  "mask_laws K \<Longrightarrow> bit (reg_field K d sh m) n \<longleftrightarrow> bit m n \<and> sh + n < 8 \<and> bit d (sh + n)"
  by (auto simp: reg_field_def mask_laws_def bit_masked_read bit_simps dest: bit_imp_le_length)

lemma bit_reg_replace:
  "mask_laws K \<Longrightarrow> n < 8 \<Longrightarrow> bit (reg_replace K d v sh m) n \<longleftrightarrow>
    (if sh \<le> n \<and> bit m (n - sh) then bit v (n - sh) else bit d n)"
  by (simp add: reg_replace_def mask_laws_def bit_masked_write bit_simps)

lemma reg_field_replace_same:
  assumes "mask_laws K" and "\<And>n. bit m n \<Longrightarrow> sh + n < 8"
  shows "reg_field K (reg_replace K d v sh m) sh m = v AND m"
  by (rule bit_eqI) (use assms in \<open>auto simp: bit_reg_field bit_reg_replace bit_and_iff\<close>)

lemma reg_field_replace_other:
  assumes "mask_laws K" and "\<And>n. bit m' n \<Longrightarrow> sh \<le> sh' + n \<Longrightarrow> \<not> bit m (sh' + n - sh)"
  shows "reg_field K (reg_replace K d v sh m) sh' m' = reg_field K d sh' m'"
  by (rule bit_eqI) (use assms in \<open>auto simp: bit_reg_field bit_reg_replace\<close>)

lemma bit_mask1: "bit (1 :: u64) n \<longleftrightarrow> n = 0"
  by (simp add: bit_1_iff)

lemma bit_mask3: "bit (3 :: u64) n \<longleftrightarrow> n < 2"
proof -
  have m: "(3 :: u64) = mask 2" by (simp add: mask_eq_exp_minus_1)
  show ?thesis unfolding m bit_mask_iff by auto
qed

lemma bit_mask7: "bit (7 :: u64) n \<longleftrightarrow> n < 3"
proof -
  have m: "(7 :: u64) = mask 3" by (simp add: mask_eq_exp_minus_1)
  show ?thesis unfolding m bit_mask_iff by auto
qed

lemmas bit_masks = bit_mask1 bit_mask3 bit_mask7

text \<open>The parity kind and its enable bit share one write of three bits.\<close>

lemma reg_field_inside_3_7:
  assumes "mask_laws K"
  shows "reg_field K (reg_replace K d v 3 7) 3 1 = v AND 1"
    and "reg_field K (reg_replace K d v 3 7) 4 3 = drop_bit 1 v AND 3"
  by (rule bit_eqI; use assms in \<open>auto simp: bit_reg_field bit_reg_replace bit_masks bit_simps numeral_3_eq_3 numeral_2_eq_2 less_Suc_eq\<close>)+

lemma lcr_fields_frame:
  assumes "mask_laws K"
  shows "reg_field K (reg_replace K d v 3 7) 0 3 = reg_field K d 0 3"
    and "reg_field K (reg_replace K d v 3 7) 2 1 = reg_field K d 2 1"
    and "reg_field K (reg_replace K d v 0 3) 3 1 = reg_field K d 3 1"
    and "reg_field K (reg_replace K d v 0 3) 4 3 = reg_field K d 4 3"
    and "reg_field K (reg_replace K d v 0 3) 2 1 = reg_field K d 2 1"
    and "reg_field K (reg_replace K d v 2 1) 0 3 = reg_field K d 0 3"
    and "reg_field K (reg_replace K d v 2 1) 3 1 = reg_field K d 3 1"
    and "reg_field K (reg_replace K d v 2 1) 4 3 = reg_field K d 4 3"
    and "reg_field K (reg_replace K d v 7 1) 0 3 = reg_field K d 0 3"
    and "reg_field K (reg_replace K d v 7 1) 2 1 = reg_field K d 2 1"
    and "reg_field K (reg_replace K d v 7 1) 3 1 = reg_field K d 3 1"
    and "reg_field K (reg_replace K d v 7 1) 4 3 = reg_field K d 4 3"
  by (rule reg_field_replace_other [OF assms]; simp only: bit_masks; linarith?)+

lemma lcr_fields_same:
  assumes "mask_laws K"
  shows "reg_field K (reg_replace K d v 0 3) 0 3 = v AND 3"
    and "reg_field K (reg_replace K d v 2 1) 2 1 = v AND 1"
    and "reg_field K (reg_replace K d v 7 1) 7 1 = v AND 1"
  by (rule reg_field_replace_same [OF assms]; simp only: bit_masks; linarith)+

section \<open>The port\<close>

text \<open>
  What the driver relies on: the line control register reads back what was written and nothing
  else changes it; while bit 7 of it is set, the first two ports are the bytes of the divisor.
\<close>

locale uart_port =
  fixes K :: "('w, 'z) kernel_scheme"
    and base :: u32
    and lcr :: "'w \<Rightarrow> u8"
    and latch_lo :: "'w \<Rightarrow> u8"
    and latch_hi :: "'w \<Rightarrow> u8"
  assumes masks: "mask_laws K"
    and lcr_read: "fst (k_inb K (base + 3) w) = lcr w"
    and inb_frame: "lcr (snd (k_inb K p w)) = lcr w \<and> latch_lo (snd (k_inb K p w)) = latch_lo w \<and>
      latch_hi (snd (k_inb K p w)) = latch_hi w"
    and lcr_write: "lcr (k_outb K (base + 3) b w) = b \<and> latch_lo (k_outb K (base + 3) b w) = latch_lo w \<and>
      latch_hi (k_outb K (base + 3) b w) = latch_hi w"
    and latch_lo_write: "bit (lcr w) 7 \<Longrightarrow> lcr (k_outb K base b w) = lcr w \<and> latch_lo (k_outb K base b w) = b \<and>
      latch_hi (k_outb K base b w) = latch_hi w"
    and latch_hi_write: "bit (lcr w) 7 \<Longrightarrow> lcr (k_outb K (base + 1) b w) = lcr w \<and>
      latch_lo (k_outb K (base + 1) b w) = latch_lo w \<and> latch_hi (k_outb K (base + 1) b w) = b"
    and alloc_frame: "lcr (snd (k_alloc K n w)) = lcr w"
begin

lemma lcr_readE:
  obtains w' where "k_inb K (base + 3) w = (lcr w, w')" "lcr w' = lcr w" "latch_lo w' = latch_lo w"
    "latch_hi w' = latch_hi w"
  using lcr_read [of w] inb_frame [of "base + 3" w] by (cases "k_inb K (base + 3) w") auto

lemma lcr_after_set:
  assumes "u_port_base st = base"
  shows "lcr (set_data_bits K st bits w) = reg_replace K (lcr w) (word_of_int (bits - 5)) 0 3"
    and "lcr (set_parity K st p w) =
      (if p = - 1 then reg_replace K (lcr w) 0 3 7
       else reg_replace K (lcr w) (push_bit 1 (word_of_int p) OR 1) 3 7)"
    and "lcr (set_stop_bits K st n w) =
      (if n = 1 then reg_replace K (lcr w) 0 2 1
       else if n = 2 \<or> n = 3 then reg_replace K (lcr w) 1 2 1 else lcr w)"
  by (rule lcr_readE [of w]; simp add: set_data_bits_def set_parity_def set_stop_bits_def assms lcr_write)+

lemma get_of_lcr:
  assumes "u_port_base st = base"
  shows "fst (get_data_bits K st w) = uint (reg_field K (lcr w) 0 3) + 5"
    and "fst (get_parity K st w) =
      (if reg_field K (lcr w) 3 1 = 0 then - 1 else uint (reg_field K (lcr w) 4 3))"
    and "fst (get_stop_bits K st w) = (if reg_field K (lcr w) 2 1 = 0 then 1 else 3)"
  by (rule lcr_readE [of w]; simp add: get_data_bits_def get_parity_def get_stop_bits_def assms)+

lemma baud_effect:
  assumes "u_port_base st = base"
  shows "lcr (set_buad_rate_divisor K st d w) = reg_replace K (reg_replace K (lcr w) 1 7 1) 0 7 1"
    and "latch_lo (set_buad_rate_divisor K st d w) = ucast (d AND 0xFF)"
    and "latch_hi (set_buad_rate_divisor K st d w) = ucast (drop_bit 8 d AND 0xFF)"
proof -
  obtain w1 where w1: "k_inb K (base + 3) w = (lcr w, w1)" by (rule lcr_readE)
  let ?on = "reg_replace K (lcr w) 1 7 1"
  have on: "bit ?on 7" using bit_reg_replace [OF masks, of 7 "lcr w" 1 7 1] by (simp add: bit_masks)
  let ?w2 = "k_outb K (base + 3) ?on w1"
  let ?w3 = "k_outb K base (ucast (d AND 0xFF)) ?w2"
  let ?w4 = "k_outb K (base + 1) (ucast (drop_bit 8 d AND 0xFF)) ?w3"
  have w2: "lcr ?w2 = ?on" using lcr_write by simp
  then have w3: "lcr ?w3 = ?on" "latch_lo ?w3 = ucast (d AND 0xFF)"
    using latch_lo_write [of ?w2] on by simp_all
  then have w4: "latch_lo ?w4 = ucast (d AND 0xFF)" "latch_hi ?w4 = ucast (drop_bit 8 d AND 0xFF)"
    using latch_hi_write [of ?w3] on by simp_all
  have eq: "set_buad_rate_divisor K st d w = k_outb K (base + 3) (reg_replace K ?on 0 7 1) ?w4"
    by (simp add: set_buad_rate_divisor_def assms w1 Let_def)
  show "lcr (set_buad_rate_divisor K st d w) = reg_replace K ?on 0 7 1"
    and "latch_lo (set_buad_rate_divisor K st d w) = ucast (d AND 0xFF)"
    and "latch_hi (set_buad_rate_divisor K st d w) = ucast (drop_bit 8 d AND 0xFF)"
    unfolding eq using lcr_write w4 by simp_all
qed

end

text \<open>
  The ports of the concrete kernel behave like this at every base: the register and the latch are
  what was last written to their ports.
\<close>

interpretation sim_uart: uart_port sim_kernel b "\<lambda>w. sw_ports w (b + 3)" "\<lambda>w. sw_ports w b"
    "\<lambda>w. sw_ports w (b + 1)" for b
  by unfold_locales (simp_all add: sim_kernel_def sim_alloc_def mask_laws_def)

lemma split_divisor: "push_bit 8 (ucast (ucast (drop_bit 8 d AND 0xFF) :: u8)) OR ucast (ucast (d AND 0xFF) :: u8) = (d :: u16)"
proof (rule bit_word_eqI)
  fix n assume "n < LENGTH(16)"
  have ff: "(0xFF :: u16) = mask 8" by (simp add: mask_eq_exp_minus_1)
  show "bit (push_bit 8 (ucast (ucast (drop_bit 8 d AND 0xFF) :: u8)) OR ucast (ucast (d AND 0xFF) :: u8) :: u16) n = bit d n"
    using \<open>n < LENGTH(16)\<close> unfolding ff by (auto simp: bit_simps)
qed

lemma data_bits_value: "5 \<le> b \<Longrightarrow> b \<le> 8 \<Longrightarrow> uint (word_of_int (b - 5) AND 3 :: u64) + 5 = b"
proof -
  assume "5 \<le> b" and "b \<le> 8"
  then consider "b = 5" | "b = 6" | "b = 7" | "b = 8" by linarith
  then show ?thesis by cases simp_all
qed

section \<open>Properties\<close>

text \<open>
  C30 (uart_settings_independent): each setter changes its own setting and no other: the number of
  data bits (5 to 8) and every parity read back as set, and one stop bit and two stop bits too;
  one and a half stop bits read back as two.
\<close>

theorem uart_settings_independent:
  assumes port: "uart_port K (u_port_base st) lcr lo hi" and bits: "5 \<le> b" "b \<le> 8"
  shows "fst (get_data_bits K st (set_data_bits K st b w)) = b \<and>
    fst (get_parity K st (set_data_bits K st b w)) = fst (get_parity K st w) \<and>
    fst (get_stop_bits K st (set_data_bits K st b w)) = fst (get_stop_bits K st w) \<and>
    fst (get_parity K st (set_parity K st (parity_no p) w)) = parity_no p \<and>
    fst (get_data_bits K st (set_parity K st (parity_no p) w)) = fst (get_data_bits K st w) \<and>
    fst (get_stop_bits K st (set_parity K st (parity_no p) w)) = fst (get_stop_bits K st w) \<and>
    fst (get_stop_bits K st (set_stop_bits K st (stop_no n) w)) =
      (if n = ONE_ONE_HALF_STOP_BITS then stop_no TWO_STOP_BITS else stop_no n) \<and>
    fst (get_data_bits K st (set_stop_bits K st (stop_no n) w)) = fst (get_data_bits K st w) \<and>
    fst (get_parity K st (set_stop_bits K st (stop_no n) w)) = fst (get_parity K st w)"
proof -
  have m: "mask_laws K" by (rule uart_port.masks [OF port])
  note lib = uart_port.lcr_after_set [OF port refl] uart_port.get_of_lcr [OF port refl] lcr_fields_frame [OF m]
    lcr_fields_same [OF m] reg_field_inside_3_7 [OF m]
  show ?thesis
    using data_bits_value [OF bits] by (cases p; cases n) (simp_all add: lib)
qed

theorem uart_settings_independent_witness:
  fixes st defines "st \<equiv> \<lparr>u_self = 64, u_port_base = 0x3F8, u_align = 1, u_data_len = 8\<rparr>"
  shows "fst (get_data_bits sim_kernel st (set_data_bits sim_kernel st 7 (sim_init []))) = 7 \<and>
    fst (get_parity sim_kernel st (set_parity sim_kernel st (parity_no MARK_PARITY) (sim_init []))) = 2 \<and>
    fst (get_stop_bits sim_kernel st (set_stop_bits sim_kernel st (stop_no ONE_ONE_HALF_STOP_BITS) (sim_init []))) = 3"
  using uart_settings_independent [OF sim_uart.uart_port_axioms, of 7 st "sim_init []" MARK_PARITY ONE_ONE_HALF_STOP_BITS]
  by simp

text \<open>
  Setting the baud rate leaves exactly the given divisor in the latch,
  closes the latch again, and keeps data bits, parity and stop bits.
\<close>

theorem uart_divisor_latched:
  assumes port: "uart_port K (u_port_base st) lcr lo hi"
  shows "let w' = set_buad_rate_divisor K st d w in push_bit 8 (ucast (hi w')) OR ucast (lo w') = d \<and> \<not> bit (lcr w') 7 \<and>
    fst (get_data_bits K st w') = fst (get_data_bits K st w) \<and>
    fst (get_parity K st w') = fst (get_parity K st w) \<and>
    fst (get_stop_bits K st w') = fst (get_stop_bits K st w)"
proof -
  have m: "mask_laws K" by (rule uart_port.masks [OF port])
  note lib = uart_port.baud_effect [OF port refl] uart_port.get_of_lcr [OF port refl] lcr_fields_frame [OF m]
  have "\<not> bit (lcr (set_buad_rate_divisor K st d w)) 7"
    using bit_reg_replace [OF m, of 7 "reg_replace K (lcr w) 1 7 1" 0 7 1]
    by (simp add: lib bit_masks)
  then show ?thesis using split_divisor [of d] by (simp add: lib Let_def)
qed

theorem uart_divisor_latched_witness:
  fixes st defines "st \<equiv> \<lparr>u_self = 64, u_port_base = 0x3F8, u_align = 1, u_data_len = 8\<rparr>"
  shows "sw_ports (set_buad_rate_divisor sim_kernel st 0x0102 (sim_init [])) 0x3F9 = 1 \<and>
    \<not> bit (sw_ports (set_buad_rate_divisor sim_kernel st 0x0102 (sim_init [])) 0x3FB) 7"
proof -
  let ?w = "set_buad_rate_divisor sim_kernel st 0x0102 (sim_init [])"
  have "\<not> bit (sw_ports ?w 0x3FB) 7"
    using uart_divisor_latched [OF sim_uart.uart_port_axioms, where st = st and d = "0x0102" and w = "sim_init []"] by (simp add: st_def Let_def)
  then show ?thesis
    using sim_uart.baud_effect(3) [where st = st and b = "0x3F8" and d = "0x0102" and w = "sim_init []"] by (simp add: st_def)
qed

lemma init_uart_8n1:
  assumes port: "uart_port K (ucast (io_base io)) lcr lo hi"
    and a: "k_alloc K 12 (env s) = (p, w1)" "p \<noteq> 0"
  defines "st \<equiv> \<lparr>u_self = p, u_port_base = ucast (io_base io), u_align = ucast (io_align io), u_data_len = ucast (io_length io)\<rparr>"
  obtains w' where
    "init_uart K (Some r) (Some (Some io)) s = Inr (0, Some (r\<lparr>driver_state := Some st\<rparr>), s\<lparr>env := w'\<rparr>)"
    "fst (get_data_bits K st w') = 8" "fst (get_parity K st w') = parity_no NO_PARITY"
    "fst (get_stop_bits K st w') = stop_no ONE_STOP_BIT"
proof -
  have m: "mask_laws K" by (rule uart_port.masks [OF port])
  have b: "u_port_base st = ucast (io_base io)" by (simp add: st_def)
  note lib = uart_port.lcr_after_set [OF port b] uart_port.get_of_lcr [OF port b] lcr_fields_frame [OF m]
    lcr_fields_same [OF m] reg_field_inside_3_7 [OF m]
  show thesis
    using a by (intro that [of "set_stop_bits K st 1 (set_parity K st (- 1) (set_data_bits K st 8 w1))"])
      (simp_all add: lib, simp add: init_uart_def Let_def st_def)
qed

text \<open>
  A successful initialisation takes the port from the ACPI record and leaves
  the line at eight data bits, no parity and one stop bit, whatever it was before.
\<close>

theorem uart_init_8n1:
  assumes port: "uart_port K (ucast (io_base io)) lcr lo hi"
    and run: "init_uart K (Some r) (Some (Some io)) s = Inr (0, r', s')"
  shows "\<exists>res st. r' = Some res \<and> driver_state res = Some st \<and> u_port_base st = ucast (io_base io) \<and>
    fst (get_data_bits K st (env s')) = 8 \<and> fst (get_parity K st (env s')) = parity_no NO_PARITY \<and>
    fst (get_stop_bits K st (env s')) = stop_no ONE_STOP_BIT"
proof -
  obtain p w1 where a: "k_alloc K 12 (env s) = (p, w1)" "p \<noteq> 0"
    using run by (cases "k_alloc K 12 (env s)") (auto simp: init_uart_def split: if_splits)
  show ?thesis by (rule init_uart_8n1 [OF port a, of r]) (use run in auto)
qed

theorem uart_init_8n1_witness:
  fixes r defines "r \<equiv> \<lparr>driver = Some 0, driver_state = None, res_id = 0, dri_index = 0, dri_group = 3\<rparr>"
  shows "\<exists>r' s' st. init_uart sim_kernel (Some r) (Some (Some \<lparr>io_base = 0x3F8, io_align = 1, io_length = 8\<rparr>))
      \<lparr>current_id = 1, env = sim_init []\<rparr> = Inr (0, Some r', s') \<and> driver_state r' = Some st \<and>
    u_port_base st = 0x3F8 \<and> fst (get_data_bits sim_kernel st (env s')) = 8 \<and>
    fst (get_parity sim_kernel st (env s')) = - 1"
proof -
  let ?io = "\<lparr>io_base = 0x3F8, io_align = 1, io_length = 8\<rparr>" and ?s = "\<lparr>current_id = 1, env = sim_init []\<rparr>"
  have "k_alloc sim_kernel 12 (sim_init []) = (64, snd (sim_alloc 12 (sim_init [])))"
    by (simp add: sim_kernel_def sim_alloc_def sim_init_def)
  then obtain r' s' where run: "init_uart sim_kernel (Some r) (Some (Some ?io)) ?s = Inr (0, r', s')"
    by (simp add: init_uart_def Let_def)
  show ?thesis using uart_init_8n1 [OF sim_uart.uart_port_axioms run] run by auto
qed

end
