(* ===== verification/Acpi_Drivers.thy ===== *)
theory Acpi_Drivers
  imports Uart Resource_Props
begin

text \<open>
  \<open>src/c/sysdev/rtc.c\<close> and \<open>src/c/sysdev/hpet.c\<close>, two ACPI drivers without data, and the three
  ACPI drivers of the repository (with \<open>serial/uart.c\<close>) behind \<open>init_acpi_resource\<close>.
\<close>

section \<open>Real-time clock\<close>

definition init_rtc ::
  "'st resource option \<Rightarrow> 'a option \<Rightarrow> 'w rsys \<Rightarrow> (int \<times> 'st resource option \<times> 'w rsys) res" where
  "init_rtc res args s = (if res = None \<or> args = None then Inr (- 1, res, s) else Inr (0, res, s))"

definition uninit_rtc :: "'st resource \<Rightarrow> 'w rsys \<Rightarrow> (int \<times> 'w rsys) res" where
  "uninit_rtc r s = Inr (0, s)"

definition read_rtc :: "u8 list option \<Rightarrow> u64 \<Rightarrow> u64 \<Rightarrow> u64 option \<Rightarrow> 'st resource option \<Rightarrow> u64" where
  "read_rtc buffer sz cnt file res =
     (if buffer = None \<or> sz = 0 \<or> cnt = 0 \<or> file = None \<or> res = None then 0 else 0)"

definition write_rtc :: "u8 list option \<Rightarrow> u64 \<Rightarrow> u64 \<Rightarrow> u64 option \<Rightarrow> 'st resource option \<Rightarrow> u64" where
  "write_rtc buffer sz cnt file res =
     (if buffer = None \<or> sz = 0 \<or> cnt = 0 \<or> file = None \<or> res = None then 0 else 0)"

definition stat_rtc :: "'st resource option \<Rightarrow> stat_buf option \<Rightarrow> int \<times> stat_buf option" where
  "stat_rtc res stat = (if res = None \<or> stat = None then (- 1, stat) else (0, stat))"

definition rtc_acpi_codes :: "u64 \<Rightarrow> u64 list" where
  "rtc_acpi_codes terminator = [0x95368E5074F817D9, terminator]"

section \<open>High precision event timer\<close>

definition init_hpet ::
  "'st resource option \<Rightarrow> 'a option \<Rightarrow> 'w rsys \<Rightarrow> (int \<times> 'st resource option \<times> 'w rsys) res" where
  "init_hpet res args s = Inr (1, res, s)"

definition uninit_hpet :: "'st resource \<Rightarrow> 'w rsys \<Rightarrow> (int \<times> 'w rsys) res" where
  "uninit_hpet r s = Inr (0, s)"

definition read_hpet :: "u8 list option \<Rightarrow> u64 \<Rightarrow> u64 \<Rightarrow> u64 option \<Rightarrow> 'st resource option \<Rightarrow> u64" where
  "read_hpet buffer sz cnt file res = 0"

definition write_hpet :: "u8 list option \<Rightarrow> u64 \<Rightarrow> u64 \<Rightarrow> u64 option \<Rightarrow> 'st resource option \<Rightarrow> u64" where
  "write_hpet buffer sz cnt file res = 0"

definition stat_hpet :: "'st resource option \<Rightarrow> stat_buf option \<Rightarrow> int \<times> stat_buf option" where
  "stat_hpet res stat = (0, stat)"

definition hpet_acpi_codes :: "u64 \<Rightarrow> u64 list" where
  "hpet_acpi_codes terminator = [0x326C57FE82510B91, terminator]"

section \<open>The drivers as table entries\<close>

text \<open>
  A driver's \<open>init\<close> as \<open>init_resource\<close> calls it: with the resource it has just allocated.
\<close>

definition on_resource ::
  "('st resource option \<Rightarrow> 'a \<Rightarrow> 'w rsys \<Rightarrow> (int \<times> 'st resource option \<times> 'w rsys) res) \<Rightarrow>
   'st resource \<Rightarrow> 'a \<Rightarrow> 'w rsys \<Rightarrow> (int \<times> 'st resource \<times> 'w rsys) res" where
  "on_resource init r a s =
     res_bind (init (Some r) a s)
       (\<lambda>(ret, r', s'). case r' of None \<Rightarrow> Inl Null_Deref | Some x \<Rightarrow> Inr (ret, x, s'))"

definition uart_driver :: "('w, 'z) kernel_scheme \<Rightarrow> u64 \<Rightarrow> (uart_state, acpi_dev_info option, 'w) driver_def" where
  "uart_driver K term = \<lparr>drv_init = Some (on_resource (init_uart K)), drv_uninit = Some uninit_uart,
     drv_codes = Some (uart_acpi_codes term)\<rparr>"

definition rtc_driver :: "u64 \<Rightarrow> (uart_state, acpi_dev_info option, 'w) driver_def" where
  "rtc_driver term = \<lparr>drv_init = Some (on_resource init_rtc), drv_uninit = Some uninit_rtc,
     drv_codes = Some (rtc_acpi_codes term)\<rparr>"

definition hpet_driver :: "u64 \<Rightarrow> (uart_state, acpi_dev_info option, 'w) driver_def" where
  "hpet_driver term = \<lparr>drv_init = Some (on_resource init_hpet), drv_uninit = Some uninit_hpet,
     drv_codes = Some (hpet_acpi_codes term)\<rparr>"

text \<open>
  A generated table whose ACPI group is these three drivers, each once, in some order; \<open>-1\<close> style
  terminators never collide with a code. \<open>which\<close> maps a definition pointer to its driver.
\<close>

datatype acpi_driver = Uart_Driver | Rtc_Driver | Hpet_Driver

fun acpi_code :: "acpi_driver \<Rightarrow> u64" where
  "acpi_code Uart_Driver = 0x9D2E741F3E2DEEC7"
| "acpi_code Rtc_Driver = 0x95368E5074F817D9"
| "acpi_code Hpet_Driver = 0x326C57FE82510B91"

fun acpi_def ::
  "('w, 'z) kernel_scheme \<Rightarrow> u64 \<Rightarrow> acpi_driver \<Rightarrow> (uart_state, acpi_dev_info option, 'w) driver_def" where
  "acpi_def K term Uart_Driver = uart_driver K term"
| "acpi_def K term Rtc_Driver = rtc_driver term"
| "acpi_def K term Hpet_Driver = hpet_driver term"

definition acpi_table ::
  "('w, 'z) kernel_scheme \<Rightarrow> (uart_state, acpi_dev_info option, 'w) dri_table \<Rightarrow> acpi_driver list \<Rightarrow> bool" where
  "acpi_table K T ds \<longleftrightarrow> table_laws T \<and> codes_terminated T \<and> t_groups T = 6 \<and> distinct ds \<and>
     length (t_rows T ! 3) = length ds \<and>
     (\<forall>i < length ds. \<exists>p. t_rows T ! 3 ! i = Some p \<and> t_deref T p = acpi_def K (t_terminator T) (ds ! i)) \<and>
     (\<forall>d. t_terminator T \<noteq> acpi_code d)"

lemma acpi_code_inj: "acpi_code d = acpi_code e \<longleftrightarrow> d = e"
  by (cases d; cases e) simp_all

lemma acpi_def_codes: "drv_codes (acpi_def K term d) = Some [acpi_code d, term]"
  by (cases d) (simp_all add: uart_driver_def rtc_driver_def hpet_driver_def uart_acpi_codes_def
      rtc_acpi_codes_def hpet_acpi_codes_def)

lemma acpi_code_nonzero: "acpi_code d \<noteq> 0"
  by (cases d) simp_all

lemma acpi_tableD:
  assumes "acpi_table K T ds"
  shows "table_laws T" and "codes_terminated T" and "t_groups T = 6" and "distinct ds"
    and "length (t_rows T ! 3) = length ds"
    and "\<And>i. i < length ds \<Longrightarrow> \<exists>p. t_rows T ! 3 ! i = Some p \<and> t_deref T p = acpi_def K (t_terminator T) (ds ! i)"
    and "\<And>d. t_terminator T \<noteq> acpi_code d"
  using assms unfolding acpi_table_def by (elim conjE; blast)+

lemma acpi_entry_has:
  assumes "acpi_table K T ds" and "i < length ds"
  shows "entry_has T (acpi_code d) 3 i \<longleftrightarrow> ds ! i = d"
proof -
  from acpi_tableD(6) [OF assms]
  obtain p where p: "t_rows T ! nat 3 ! i = Some p" "t_deref T p = acpi_def K (t_terminator T) (ds ! i)"
    by (auto simp del: acpi_def.simps)
  show ?thesis
    using acpi_tableD(7) [OF assms(1), of "ds ! i"]
    by (auto simp only: entry_has_def p option.case acpi_def_codes takeWhile.simps acpi_code_inj list.set
        if_True if_False simp_thms insert_iff empty_iff split: if_splits)
qed

lemma find_upt_unique:
  assumes "j < n" and "P j" and "\<And>i. i < n \<Longrightarrow> P i \<Longrightarrow> i = j"
  shows "find P [0..<n] = Some j"
proof -
  have "\<not> P ([0..<n] ! k)" if "k < j" for k
    using assms(1) assms(3) [of k] that by (simp, linarith)
  then show ?thesis
    unfolding find_Some_iff using assms(1,2) by (intro exI [of _ j] conjI allI impI) simp_all
qed

text \<open>The code of a driver selects that driver, wherever it stands in the group.\<close>

lemma acpi_lookup:
  assumes T: "acpi_table K T ds" and j: "j < length ds" "ds ! j = d"
  shows "internal_find_code T (acpi_code d) 3 = Inr (int j)"
proof -
  note L = acpi_tableD [OF T]
  have "i = j" if "i < length ds" "ds ! i = d" for i
    using that j nth_eq_iff_index_eq [OF L(4)] by blast
  then have "find (entry_has T (acpi_code d) 3) [0..<length ds] = Some j"
    using acpi_entry_has [OF T] j by (intro find_upt_unique) blast+
  then show ?thesis
    unfolding find_code_eq_first_entry [OF L(1,2)] first_entry_def nat_numeral L(3,5) by simp
qed

lemma acpi_bind:
  assumes T: "acpi_table K T ds" and j: "j < length ds" "ds ! j = d" and at: "atomic_law K"
    and a: "k_alloc K sizeof_resource (env s) = (a, w1)" "a \<noteq> 0"
  obtains p init where "t_rows T ! 3 ! j = Some p" "drv_init (acpi_def K (t_terminator T) d) = Some init"
    "init_acpi_resource K T (acpi_code d) args s =
       res_bind (init (fresh_resource p 3 (int j) (current_id s)) args \<lparr>current_id = current_id s + 1, env = w1\<rparr>)
         (\<lambda>(ret, r, s2). if ret \<noteq> 0 then Inr (None, s2\<lparr>env := k_free K a (env s2)\<rparr>)
                        else Inr (Some (a, r), s2))"
proof -
  note L = acpi_tableD [OF T]
  have "length ds < 2 ^ 31" using table_laws_row(2) [OF L(1), of 3, unfolded L(3) nat_numeral L(5)] by simp
  then have "int j < 2 ^ 63" using j by simp
  note valid = init_resource_valid [OF L(1) this, of 3 K args s, unfolded L(3) nat_numeral L(5) nat_int]
  obtain p where p: "t_rows T ! 3 ! j = Some p" "t_deref T p = acpi_def K (t_terminator T) d"
    using L(6) [OF j(1)] j(2) by blast
  obtain init where i: "drv_init (acpi_def K (t_terminator T) d) = Some init"
    by (cases d) (simp_all add: uart_driver_def rtc_driver_def hpet_driver_def)
  have di: "drv_init (t_deref T p) = Some init" using p(2) i by simp
  have inc: "k_atomic_inc K (current_id s) = (current_id s + 1, current_id s + 1)"
    using at by (simp add: atomic_law_def)
  have "init_acpi_resource K T (acpi_code d) args s = init_resource K T 3 (int j) args s"
    unfolding init_acpi_resource_def group_no.simps acpi_lookup [OF T j] res_bind_Inr
    using acpi_code_nonzero by simp
  also have "\<dots> = res_bind (init (fresh_resource p 3 (int j) (current_id s)) args \<lparr>current_id = current_id s + 1, env = w1\<rparr>)
         (\<lambda>(ret, r, s2). if ret \<noteq> 0 then Inr (None, s2\<lparr>env := k_free K a (env s2)\<rparr>)
                        else Inr (Some (a, r), s2))"
    using valid j(1) a by (simp add: p(1) di inc)
  finally show thesis by (rule that [OF p(1) i])
qed

section \<open>Properties\<close>

definition demo_acpi :: "(uart_state, acpi_dev_info option, sim_world) dri_table" where
  "demo_acpi = \<lparr>t_groups = 6, t_count = (\<lambda>g. if g = 3 then 3 else 0),
     t_rows = [[], [], [], [Some 0, Some 1, Some 2], [], []],
     t_deref = (\<lambda>p. acpi_def sim_kernel (- 1) ([Hpet_Driver, Rtc_Driver, Uart_Driver] ! p)),
     t_terminator = - 1\<rparr>"

lemma demo_acpi_laws: "table_laws demo_acpi"
proof -
  have g: "g = 0 \<or> g = 1 \<or> g = 2 \<or> g = 3 \<or> g = 4 \<or> g = 5" if "0 \<le> g" "g < 6" for g :: int
    using that by presburger
  have rows: "if 0 \<le> g \<and> g < 6 then unat (t_count demo_acpi g) = length (t_rows demo_acpi ! nat g) \<and>
      length (t_rows demo_acpi ! nat g) < 2 ^ 31 else t_count demo_acpi g = 0" for g
  proof (cases "0 \<le> g \<and> g < 6")
    case True
    then have "g = 0 \<or> g = 1 \<or> g = 2 \<or> g = 3 \<or> g = 4 \<or> g = 5" using g by blast
    then show ?thesis by (elim disjE) (simp_all add: demo_acpi_def)
  next
    case False
    then show ?thesis by (auto simp: demo_acpi_def)
  qed
  have "t_groups demo_acpi = 6" "length (t_rows demo_acpi) = 6"
    by (simp_all add: demo_acpi_def)
  then show ?thesis unfolding table_laws_def by (intro conjI allI) (simp, simp only: of_nat_numeral, rule rows)
qed

lemma demo_acpi_table: "acpi_table sim_kernel demo_acpi [Hpet_Driver, Rtc_Driver, Uart_Driver]"
proof -
  have tm: "t_terminator demo_acpi = - 1" by (simp add: demo_acpi_def)
  have "codes_terminated demo_acpi"
    unfolding codes_terminated_def by (simp add: demo_acpi_def acpi_def_codes del: acpi_def.simps)
  moreover have "\<exists>p. t_rows demo_acpi ! 3 ! i = Some p \<and>
      t_deref demo_acpi p = acpi_def sim_kernel (- 1) ([Hpet_Driver, Rtc_Driver, Uart_Driver] ! i)" if "i < 3" for i
  proof -
    from that consider "i = 0" | "i = 1" | "i = 2" by linarith
    then show ?thesis by cases (simp_all add: demo_acpi_def)
  qed
  moreover have "- 1 \<noteq> acpi_code d" for d by (cases d) simp_all
  ultimately show ?thesis
    unfolding acpi_table_def tm using demo_acpi_laws by (simp add: demo_acpi_def)
qed

text \<open>
  C31 (acpi_uart_comes_up): with the three ACPI drivers in the table in any order and memory for both
  allocations, initialising the device with the UART's ACPI code creates a resource with the next
  id, bound to the UART, on the port of the ACPI record, with the line at 8N1.
\<close>

theorem acpi_uart_comes_up:
  assumes T: "acpi_table K T ds" and d: "Uart_Driver \<in> set ds" and at: "atomic_law K"
    and a: "k_alloc K sizeof_resource (env s) = (a, w1)" "a \<noteq> 0" "fst (k_alloc K 12 w1) \<noteq> 0"
    and port: "uart_port K (ucast (io_base io)) lcr lo hi"
  shows "\<exists>r st s'. init_acpi_resource K T 0x9D2E741F3E2DEEC7 (Some (Some io)) s = Inr (Some (a, r), s') \<and>
    res_id r = current_id s \<and> current_id s' = current_id s + 1 \<and> driver_state r = Some st \<and>
    u_port_base st = ucast (io_base io) \<and> fst (get_data_bits K st (env s')) = 8 \<and>
    fst (get_parity K st (env s')) = parity_no NO_PARITY \<and> fst (get_stop_bits K st (env s')) = stop_no ONE_STOP_BIT"
proof -
  obtain j where j: "j < length ds" "ds ! j = Uart_Driver" using d by (auto simp: in_set_conv_nth)
  obtain p init where p0: "t_rows T ! 3 ! j = Some p" and p: "drv_init (acpi_def K (t_terminator T) Uart_Driver) = Some init"
    "init_acpi_resource K T (acpi_code Uart_Driver) (Some (Some io)) s =
       res_bind (init (fresh_resource p 3 (int j) (current_id s)) (Some (Some io)) \<lparr>current_id = current_id s + 1, env = w1\<rparr>)
         (\<lambda>(ret, r, s2). if ret \<noteq> 0 then Inr (None, s2\<lparr>env := k_free K a (env s2)\<rparr>) else Inr (Some (a, r), s2))"
    by (rule acpi_bind [OF T j at a(1,2)])
  have init: "init = on_resource (init_uart K)" using p(1) by (simp add: uart_driver_def)
  let ?r = "fresh_resource p 3 (int j) (current_id s)" and ?s = "\<lparr>current_id = current_id s + 1, env = w1\<rparr>"
  obtain q w2 where q: "k_alloc K 12 (env ?s) = (q, w2)" "q \<noteq> 0" using a(3) by (cases "k_alloc K 12 w1") auto
  show ?thesis
    by (rule init_uart_8n1 [OF port q, of ?r])
      (simp add: p(2) [unfolded acpi_code.simps] init on_resource_def fresh_resource_def)
qed

theorem acpi_uart_comes_up_witness:
  "\<exists>r st s'. init_acpi_resource sim_kernel demo_acpi 0x9D2E741F3E2DEEC7
      (Some (Some \<lparr>io_base = 0x3F8, io_align = 1, io_length = 8\<rparr>)) \<lparr>current_id = 5, env = sim_init []\<rparr> =
        Inr (Some (64, r), s') \<and> res_id r = 5 \<and> driver_state r = Some st \<and> u_port_base st = 0x3F8 \<and>
    fst (get_data_bits sim_kernel st (env s')) = 8"
proof -
  let ?s = "\<lparr>current_id = 5, env = sim_init []\<rparr>" and ?w = "snd (sim_alloc sizeof_resource (sim_init []))"
  have a: "k_alloc sim_kernel sizeof_resource (env ?s) = (64, ?w)" "fst (k_alloc sim_kernel 12 ?w) \<noteq> 0"
    by (simp_all add: sim_kernel_def sim_alloc_def sim_init_def)
  show ?thesis
    using acpi_uart_comes_up [OF demo_acpi_table _ sim_laws(3) a(1) _ a(2) sim_uart.uart_port_axioms,
        of "\<lparr>io_base = 0x3F8, io_align = 1, io_length = 8\<rparr>"] by auto
qed

text \<open>
  The HPET driver reports an error on every initialisation, so a device
  with its code never gets a resource, and nothing of the attempt stays allocated.
\<close>

theorem acpi_hpet_never_created:
  assumes heap: "kernel_heap K live" and T: "acpi_table K T ds" and d: "Hpet_Driver \<in> set ds" and at: "atomic_law K"
    and a: "k_alloc K sizeof_resource (env s) = (a, w1)" "a \<noteq> 0"
  shows "\<exists>s'. init_acpi_resource K T 0x326C57FE82510B91 args s = Inr (None, s') \<and>
    live (env s') = live (env s) \<and> current_id s' = current_id s + 1"
proof -
  obtain j where j: "j < length ds" "ds ! j = Hpet_Driver" using d by (auto simp: in_set_conv_nth)
  obtain p init where p0: "t_rows T ! 3 ! j = Some p" and p: "drv_init (acpi_def K (t_terminator T) Hpet_Driver) = Some init"
    "init_acpi_resource K T (acpi_code Hpet_Driver) args s =
       res_bind (init (fresh_resource p 3 (int j) (current_id s)) args \<lparr>current_id = current_id s + 1, env = w1\<rparr>)
         (\<lambda>(ret, r, s2). if ret \<noteq> 0 then Inr (None, s2\<lparr>env := k_free K a (env s2)\<rparr>) else Inr (Some (a, r), s2))"
    by (rule acpi_bind [OF T j at a])
  have init: "init = on_resource init_hpet" using p(1) by (simp add: hpet_driver_def)
  show ?thesis
    using kernel_heap.free_after_alloc [OF heap a]
    by (simp add: p(2) [unfolded acpi_code.simps] init on_resource_def init_hpet_def)
qed

theorem acpi_hpet_never_created_witness:
  "\<exists>s'. init_acpi_resource sim_kernel demo_acpi 0x326C57FE82510B91 None \<lparr>current_id = 5, env = sim_init []\<rparr> = Inr (None, s') \<and>
    sim_live (env s') = {} \<and> current_id s' = 6"
proof -
  let ?s = "\<lparr>current_id = 5, env = sim_init []\<rparr>"
  have a: "k_alloc sim_kernel sizeof_resource (env ?s) = (64, snd (sim_alloc sizeof_resource (sim_init [])))"
    by (simp add: sim_kernel_def sim_alloc_def sim_init_def)
  have l: "sim_live (sim_init []) = {}" by (simp add: sim_live_def sim_init_def)
  show ?thesis
    using acpi_hpet_never_created [OF sim_heap.kernel_heap_axioms demo_acpi_table _ sim_laws(3) a, of None] l
    by simp
qed

end
