(* ===== verification/Initramfs.thy ===== *)
theory Initramfs
  imports Drv_Iface "HOL-Library.Sublist"
begin

text \<open>
  \<open>src/c/sysfs/initramfs/super.c\<close> and \<open>file.c\<close>: files in a CPIO archive in memory (the old binary
  format, little endian). The archive is the list of its bytes from the pointer the driver was given;
  an access outside is a fault. The search loop follows sizes read from the archive and may go round
  for ever on a bad one, so it is a \<open>partial_function\<close> whose value is \<open>None\<close> then.
  The macros compute in \<open>int\<close>, modelled as 32-bit words that wrap and are sign-extended.
\<close>

section \<open>Headers\<close>

text \<open>\<open>struct ARC_HeaderCPIO\<close>: thirteen packed 16-bit fields.\<close>

record cpio_header =
  h_magic :: u16
  h_device :: u16
  h_inode :: u16
  h_mode :: u16
  h_uid :: u16
  h_gid :: u16
  h_nlink :: u16
  h_rdev :: u16
  h_mod_time0 :: u16
  h_mod_time1 :: u16
  h_namesize :: u16
  h_filesize0 :: u16
  h_filesize1 :: u16

definition cpio_magic :: u16 where
  "cpio_magic = 0x71C7"

definition ARC_NAME_OFFSET :: u64 where
  "ARC_NAME_OFFSET = 26"

definition read_u16 :: "u8 list \<Rightarrow> nat \<Rightarrow> u16 res" where
  "read_u16 m k = (if k + 2 \<le> length m then Inr (le_at m k 2) else Inl Out_Of_Bounds)"

definition header_at :: "u8 list \<Rightarrow> nat \<Rightarrow> cpio_header res" where
  "header_at m k =
     (if k + 26 \<le> length m
      then Inr \<lparr>h_magic = le_at m k 2, h_device = le_at m (k + 2) 2, h_inode = le_at m (k + 4) 2,
                h_mode = le_at m (k + 6) 2, h_uid = le_at m (k + 8) 2, h_gid = le_at m (k + 10) 2,
                h_nlink = le_at m (k + 12) 2, h_rdev = le_at m (k + 14) 2,
                h_mod_time0 = le_at m (k + 16) 2, h_mod_time1 = le_at m (k + 18) 2,
                h_namesize = le_at m (k + 20) 2, h_filesize0 = le_at m (k + 22) 2,
                h_filesize1 = le_at m (k + 24) 2\<rparr>
      else Inl Out_Of_Bounds)"

definition ARC_NAME_SIZE :: "cpio_header \<Rightarrow> u32" where
  "ARC_NAME_SIZE h = ucast (h_namesize h) + (ucast (h_namesize h) AND 1)"

definition ARC_DATA_OFFSET :: "cpio_header \<Rightarrow> u64" where
  "ARC_DATA_OFFSET h = ARC_NAME_OFFSET + scast (ARC_NAME_SIZE h)"

definition ARC_DATA_SIZE :: "cpio_header \<Rightarrow> u32" where
  "ARC_DATA_SIZE h =
     (let v = push_bit 16 (ucast (h_filesize0 h)) OR ucast (h_filesize1 h) in v + (v AND 1))"

section \<open>Searching the archive\<close>

text \<open>
  One round of the loop: the magic number, the comparison of the name with \<open>strlen(filename)\<close> bytes
  of it, and the offset of the next header.
\<close>

datatype cpio_round = Cpio_Found | Cpio_End | Cpio_Next u64

definition cpio_round :: "u8 list \<Rightarrow> u8 list \<Rightarrow> u64 \<Rightarrow> cpio_round res" where
  "cpio_round fs filename offset =
     res_bind (read_u16 fs (unat offset)) (\<lambda>magic.
       if magic \<noteq> cpio_magic then Inr Cpio_End
       else res_bind (strncmp_mem fs (unat offset + unat ARC_NAME_OFFSET) filename 0 (length filename)) (\<lambda>same.
         if same then Inr Cpio_Found
         else res_bind (header_at fs (unat offset)) (\<lambda>header.
           Inr (Cpio_Next (offset + (ARC_DATA_OFFSET header + scast (ARC_DATA_SIZE header)))))))"

partial_function (option) cpio_search :: "u8 list \<Rightarrow> u8 list \<Rightarrow> u64 \<Rightarrow> u64 option res option" where
  "cpio_search fs filename offset =
     (case cpio_round fs filename offset of
        Inl e \<Rightarrow> Some (Inl e)
      | Inr Cpio_Found \<Rightarrow> Some (Inr (Some offset))
      | Inr Cpio_End \<Rightarrow> Some (Inr None)
      | Inr (Cpio_Next next) \<Rightarrow> cpio_search fs filename next)"

definition skip_slash :: "u8 list \<Rightarrow> u8 list" where
  "skip_slash s = (case s of [] \<Rightarrow> [] | c # cs \<Rightarrow> if c = 47 then cs else s)"

text \<open>The result is the offset of the header found; \<open>Some (Inr None)\<close> is \<open>NULL\<close>.\<close>

definition initramfs_find_file :: "u8 list option \<Rightarrow> u8 list option \<Rightarrow> u64 option res option" where
  "initramfs_find_file fs filename =
     (case (fs, filename) of
        (Some m, Some f) \<Rightarrow> cpio_search m (skip_slash f) 0
      | _ \<Rightarrow> Some (Inr None))"

section \<open>The file system driver\<close>

record initramfs_super =
  is_self :: u64
  is_base :: "u8 list option"

definition initramfs_super_init ::
  "('w, 'z) kernel_scheme \<Rightarrow> initramfs_super resource \<Rightarrow> u8 list option \<Rightarrow> 'w rsys \<Rightarrow>
   (int \<times> initramfs_super resource \<times> 'w rsys) res" where
  "initramfs_super_init K r args s =
     (case k_alloc K 8 (env s) of (p, w1) \<Rightarrow>
        if p = 0 then Inl Null_Deref
        else Inr (0, r\<lparr>driver_state := Some \<lparr>is_self = p, is_base = args\<rparr>\<rparr>, s\<lparr>env := w1\<rparr>))"

definition initramfs_super_uninit ::
  "('w, 'z) kernel_scheme \<Rightarrow> initramfs_super resource \<Rightarrow> 'w rsys \<Rightarrow> (int \<times> 'w rsys) res" where
  "initramfs_super_uninit K r s =
     (let p = (case driver_state r of None \<Rightarrow> 0 | Some st \<Rightarrow> is_self st)
      in Inr (0, s\<lparr>env := k_free K p (env s)\<rparr>))"

definition stat_of_header :: "cpio_header \<Rightarrow> stat_buf \<Rightarrow> stat_buf" where
  "stat_of_header h sb =
     sb\<lparr>st_uid := ucast (h_uid h), st_gid := ucast (h_gid h), st_mode := ucast (h_mode h),
        st_dev := ucast (h_device h), st_ino := ucast (h_inode h), st_nlink := ucast (h_nlink h),
        st_rdev := ucast (h_rdev h), st_size := scast (ARC_DATA_SIZE h), st_mtim_nsec := 0,
        st_mtim_sec := scast (push_bit 16 (ucast (h_mod_time0 h)) OR ucast (h_mod_time1 h) :: u32)\<rparr>"

definition initramfs_super_stat ::
  "initramfs_super resource option \<Rightarrow> u8 list option \<Rightarrow> stat_buf option \<Rightarrow> (int \<times> stat_buf option) res option" where
  "initramfs_super_stat res filename stat =
     (case (res, stat) of
        (Some r, Some sb) \<Rightarrow>
          if filename = None then Some (Inr (0, stat))
          else (case driver_state r of None \<Rightarrow> Some (Inl Null_Deref)
                | Some st \<Rightarrow>
                  map_option (\<lambda>found. res_bind found (\<lambda>header.
                      case (header, is_base st) of
                        (Some off, Some fs) \<Rightarrow>
                          res_bind (header_at fs (unat off)) (\<lambda>h. Inr (0, Some (stat_of_header h sb)))
                      | _ \<Rightarrow> Inr (1, stat)))
                    (initramfs_find_file (is_base st) filename))
      | _ \<Rightarrow> Some (Inr (1, stat)))"

definition initramfs_locate :: "initramfs_super resource option \<Rightarrow> u8 list option \<Rightarrow> u64 option res option" where
  "initramfs_locate res filename =
     (case (res, filename) of
        (Some r, Some f) \<Rightarrow>
          (case driver_state r of None \<Rightarrow> Some (Inl Null_Deref)
           | Some st \<Rightarrow> initramfs_find_file (is_base st) (Some f))
      | _ \<Rightarrow> Some (Inr None))"

section \<open>The file driver\<close>

text \<open>\<open>if_base\<close> is the memory from the file's header on. The field \<open>size\<close> is never set or read.\<close>

record initramfs_file =
  if_self :: u64
  if_base :: "u8 list option"

definition initramfs_file_init ::
  "('w, 'z) kernel_scheme \<Rightarrow> initramfs_file resource \<Rightarrow> u8 list option \<Rightarrow> 'w rsys \<Rightarrow>
   (int \<times> initramfs_file resource \<times> 'w rsys) res" where
  "initramfs_file_init K r args s =
     (case k_alloc K 16 (env s) of (p, w1) \<Rightarrow>
        if p = 0 then Inr (- 1, r, s\<lparr>env := w1\<rparr>)
        else Inr (0, r\<lparr>driver_state := Some \<lparr>if_self = p, if_base = args\<rparr>\<rparr>, s\<lparr>env := w1\<rparr>))"

definition initramfs_file_uninit ::
  "('w, 'z) kernel_scheme \<Rightarrow> initramfs_file resource \<Rightarrow> 'w rsys \<Rightarrow> (int \<times> 'w rsys) res" where
  "initramfs_file_uninit K r s =
     (let p = (case driver_state r of None \<Rightarrow> 0 | Some st \<Rightarrow> if_self st)
      in Inr (0, s\<lparr>env := k_free K p (env s)\<rparr>))"

text \<open>
  The copying loop with \<open>n\<close> rounds left: the byte of the file, or 0 from \<open>f_size\<close> on.
\<close>

fun read_round :: "u8 list \<Rightarrow> u64 \<Rightarrow> u64 \<Rightarrow> u64 \<Rightarrow> u8 list \<Rightarrow> nat \<Rightarrow> nat \<Rightarrow> u8 list res" where
  "read_round m data offset f_size dst i 0 = Inr dst"
| "read_round m data offset f_size dst i (Suc n) =
     res_bind (if word_of_nat i + offset < f_size
               then (let a = unat (data + offset + word_of_nat i)
                     in if a < length m then Inr (m ! a) else Inl Out_Of_Bounds)
               else Inr 0) (\<lambda>value.
       if i < length dst then read_round m data offset f_size (dst[i := value]) (Suc i) n
       else Inl Out_Of_Bounds)"

definition initramfs_read ::
  "u8 list option \<Rightarrow> u64 \<Rightarrow> u64 \<Rightarrow> u64 option \<Rightarrow> initramfs_file resource option \<Rightarrow>
   (u64 \<times> u8 list option) res" where
  "initramfs_read buffer sz cnt file res =
     (case file of None \<Rightarrow> Inr (0, buffer)
      | Some offset \<Rightarrow>
        (case res of None \<Rightarrow> Inl Null_Deref
         | Some r \<Rightarrow>
           (case driver_state r of None \<Rightarrow> Inr (0, buffer)
            | Some st \<Rightarrow>
              (case if_base st of None \<Rightarrow> Inr (0, buffer)
               | Some m \<Rightarrow>
                 res_bind (header_at m 0) (\<lambda>header.
                   if sz * cnt = 0 then Inr (0, buffer)
                   else (case buffer of None \<Rightarrow> Inl Null_Deref
                         | Some dst \<Rightarrow>
                           res_bind (read_round m (ARC_DATA_OFFSET header) offset (scast (ARC_DATA_SIZE header))
                                       dst 0 (unat (sz * cnt)))
                             (\<lambda>dst'. Inr (sz * cnt, Some dst'))))))))"

definition initramfs_write :: "u8 list option \<Rightarrow> u64 \<Rightarrow> u64 \<Rightarrow> u64 option \<Rightarrow> initramfs_file resource option \<Rightarrow> u64" where
  "initramfs_write buffer sz cnt file res = 0"

definition initramfs_seek :: "u64 option \<Rightarrow> initramfs_file resource option \<Rightarrow> int" where
  "initramfs_seek file res = 0"

definition initramfs_file_stat ::
  "initramfs_file resource option \<Rightarrow> u8 list option \<Rightarrow> stat_buf option \<Rightarrow> (int \<times> stat_buf option) res" where
  "initramfs_file_stat res filename stat =
     (case (res, stat) of
        (Some r, Some sb) \<Rightarrow>
          (case driver_state r of None \<Rightarrow> Inl Null_Deref
           | Some st \<Rightarrow>
             (case if_base st of None \<Rightarrow> Inr (2, stat)
              | Some m \<Rightarrow> res_bind (header_at m 0) (\<lambda>h. Inr (0, Some (stat_of_header h sb)))))
      | _ \<Rightarrow> Inr (1, stat))"

end
