(* ===== verification/Initramfs_Archive.thy ===== *)
theory Initramfs_Archive
  imports Initramfs Sim_Kernel
begin

text \<open>
  The abstract side of the initramfs drivers: an archive as a list of files, its bytes in the old
  binary CPIO format, and the lemmas that relate the drivers' search, read and stat on the bytes to
  the list.
\<close>

section \<open>Encoding\<close>

definition enc16 :: "u16 \<Rightarrow> u8 list" where
  "enc16 w = le_bytes 2 (unat w)"

definition header_bytes :: "cpio_header \<Rightarrow> u8 list" where
  "header_bytes h =
     enc16 (h_magic h) @ enc16 (h_device h) @ enc16 (h_inode h) @ enc16 (h_mode h) @ enc16 (h_uid h) @
     enc16 (h_gid h) @ enc16 (h_nlink h) @ enc16 (h_rdev h) @ enc16 (h_mod_time0 h) @
     enc16 (h_mod_time1 h) @ enc16 (h_namesize h) @ enc16 (h_filesize0 h) @ enc16 (h_filesize1 h)"

text \<open>A file: its header with the sizes still to be filled in, its name and its data.\<close>

record cpio_entry =
  e_meta :: cpio_header
  e_name :: "u8 list"
  e_data :: "u8 list"

definition entry_header :: "cpio_entry \<Rightarrow> cpio_header" where
  "entry_header e = (e_meta e)\<lparr>h_magic := cpio_magic, h_namesize := word_of_nat (length (e_name e) + 1),
     h_filesize0 := word_of_nat (length (e_data e) div 65536),
     h_filesize1 := word_of_nat (length (e_data e) mod 65536)\<rparr>"

definition pad_even :: "u8 list \<Rightarrow> u8 list" where
  "pad_even bs = bs @ replicate (length bs mod 2) 0"

definition entry_bytes :: "cpio_entry \<Rightarrow> u8 list" where
  "entry_bytes e = header_bytes (entry_header e) @ pad_even (e_name e @ [0]) @ pad_even (e_data e)"

definition entry_ok :: "cpio_entry \<Rightarrow> bool" where
  "entry_ok e \<longleftrightarrow> is_cstr (e_name e) \<and> length (e_name e) < 65535 \<and> length (e_data e) < 2 ^ 31 - 1"

definition archive_bytes :: "cpio_entry list \<Rightarrow> u8 list" where
  "archive_bytes es = concat (map entry_bytes es)"

text \<open>Where the first file with a property starts.\<close>

fun archive_find :: "(cpio_entry \<Rightarrow> bool) \<Rightarrow> cpio_entry list \<Rightarrow> nat option" where
  "archive_find P [] = None"
| "archive_find P (e # es) =
     (if P e then Some 0 else map_option (\<lambda>k. length (entry_bytes e) + k) (archive_find P es))"

section \<open>Decoding what was encoded\<close>

lemma length_enc16 [simp]: "length (enc16 w) = 2"
  by (simp add: enc16_def)

lemma le_word_enc16 [simp]: "le_word (enc16 w) = w"
  by (simp add: enc16_def)

lemma length_header_bytes [simp]: "length (header_bytes h) = 26"
  by (simp add: header_bytes_def)

lemma length_pad_even: "length (pad_even bs) = length bs + length bs mod 2"
  by (simp add: pad_even_def)

lemma length_pad_even_le: "length (pad_even bs) \<le> length bs + 1"
  by (simp add: length_pad_even)

lemma bytes_at_skip:
  "length xs \<le> k \<Longrightarrow> bytes_at k n (xs @ ys) = bytes_at (k - length xs) n ys"
  by (simp add: bytes_at_def)

lemma bytes_at_here: "length xs = n \<Longrightarrow> bytes_at 0 n (xs @ ys) = xs"
  by (simp add: bytes_at_def)

lemma header_at_bytes: "header_at (header_bytes h @ rest) 0 = Inr h"
  unfolding header_at_def header_bytes_def le_at_def
  by (simp add: bytes_at_skip bytes_at_here)

lemma header_at_skip: "header_at (xs @ m) (length xs + k) = header_at m k"
  by (simp add: header_at_def le_at_def bytes_at_def)

lemma read_u16_skip: "read_u16 (xs @ m) (length xs + k) = read_u16 m k"
  by (simp add: read_u16_def le_at_def)

lemma read_u16_magic: "read_u16 (header_bytes h @ rest) 0 = Inr (h_magic h)"
  unfolding read_u16_def header_bytes_def le_at_def by (simp add: bytes_at_here)

lemma strncmp_mem_skip: "strncmp_mem (xs @ m) (length xs + k) s i n = strncmp_mem m k s i n"
proof (induction n arbitrary: k i)
  case 0
  then show ?case by simp
next
  case (Suc n)
  then show ?case using Suc.IH [of "Suc k"] by (simp add: nth_append)
qed

text \<open>Comparing \<open>strlen(s)\<close> bytes of a stored name decides whether \<open>s\<close> is a prefix of it.\<close>

lemma strncmp_mem_prefix:
  assumes "is_cstr s" and "is_cstr nm"
  shows "strncmp_mem (nm @ 0 # rest) 0 s 0 (length s) = Inr (prefix s nm)"
proof -
  have "strncmp_mem (pre @ nm @ 0 # rest) (length pre) s (length pre) (length s - length pre) =
      Inr (prefix (drop (length pre) s) nm)" if "length pre \<le> length s" for pre
    using assms(2) that
  proof (induction nm arbitrary: pre)
    case Nil
    show ?case
    proof (cases "length pre = length s")
      case False
      then have l: "length s - length pre = Suc (length s - Suc (length pre))" "length pre < length s"
        using Nil by simp_all
      then have "s ! length pre \<noteq> 0" using assms(1) by (metis is_cstr_def nth_mem)
      moreover have "drop (length pre) s \<noteq> []" using l(2) by simp
      ultimately show ?thesis using l by (simp add: cstr_at_def nth_append)
    qed simp
  next
    case (Cons c nm)
    show ?case
    proof (cases "length pre = length s")
      case False
      then have l: "length s - length pre = Suc (length s - Suc (length pre))" "length pre < length s"
        using Cons.prems by simp_all
      then have d: "drop (length pre) s = s ! length pre # drop (Suc (length pre)) s"
        by (simp add: Cons_nth_drop_Suc)
      have c: "c \<noteq> 0" "is_cstr nm" using Cons.prems by (simp_all add: is_cstr_def)
      have "strncmp_mem ((pre @ [c]) @ nm @ 0 # rest) (length (pre @ [c])) s (length (pre @ [c])) (length s - length (pre @ [c])) =
        Inr (prefix (drop (length (pre @ [c])) s) nm)"
        using l c by (intro Cons.IH) simp_all
      then show ?thesis using l c by (cases "c = s ! length pre") (simp_all add: cstr_at_def nth_append d)
    qed simp
  qed
  from this [of "[]"] show ?thesis by simp
qed

section \<open>Sizes\<close>

lemma name_size_value:
  "length nm < 65535 \<Longrightarrow> h_namesize h = word_of_nat (length nm + 1) \<Longrightarrow>
   unat (ARC_NAME_SIZE h) = length (pad_even (nm @ [0]))"
proof -
  assume a: "length nm < 65535" "h_namesize h = word_of_nat (length nm + 1)"
  then have u: "unat (h_namesize h) = length nm + 1" by (simp add: unat_of_nat del: of_nat_add of_nat_Suc)
  have w: "unat (ucast (h_namesize h) :: u32) = length nm + 1"
    using u a(1) by (simp add: unsigned_ucast_eq take_bit_nat_eq_self)
  have "unat ((ucast (h_namesize h) :: u32) AND 1) = (length nm + 1) mod 2"
    unfolding unat_and_1 w ..
  then show ?thesis
    using w a(1) by (simp add: ARC_NAME_SIZE_def unat_word_ariths length_pad_even)
qed

lemma data_size_value:
  assumes "n < 2 ^ 31 - 1" and "h_filesize0 h = word_of_nat (n div 65536)" and "h_filesize1 h = word_of_nat (n mod 65536)"
  shows "unat (ARC_DATA_SIZE h) = n + n mod 2"
proof -
  let ?v = "push_bit 16 (ucast (h_filesize0 h)) OR ucast (h_filesize1 h) :: u32"
  have "n div 65536 < 65536" using assms(1) by simp
  then have v: "unat ?v = n"
    unfolding join16_value assms(2,3) by (simp add: unat_of_nat)
  moreover have "unat (?v AND 1) = n mod 2" unfolding unat_and_1 v ..
  ultimately show ?thesis
    using assms(1) by (simp add: ARC_DATA_SIZE_def Let_def unat_word_ariths)
qed

lemma unat_scast_small: "unat (w :: u32) < 2 ^ 31 \<Longrightarrow> unat (scast w :: u64) = unat w"
proof -
  assume a: "unat w < 2 ^ 31"
  then have "int (unat w) < 2 ^ 31" by (metis of_nat_less_iff of_nat_numeral of_nat_power)
  then have "signed_take_bit 31 (uint w) = uint w"
    using unsigned_greater_eq [of w, where 'a = int] by (intro signed_take_bit_int_eq_self) (linarith, simp)
  then have "sint w = int (unat w)" by (simp add: sint_uint)
  then have "(scast w :: u64) = word_of_nat (unat w)" by (simp add: scast_eq)
  moreover have "unat w < 2 ^ 64" using a by simp
  ultimately show ?thesis by (simp add: unat_of_nat unsigned_ucast_eq take_bit_nat_eq_self)
qed

lemma entry_sizes:
  assumes "entry_ok e"
  shows "unat (ARC_DATA_OFFSET (entry_header e)) = 26 + length (pad_even (e_name e @ [0]))"
    and "unat (scast (ARC_DATA_SIZE (entry_header e)) :: u64) = length (pad_even (e_data e))"
    and "unat (ARC_DATA_SIZE (entry_header e)) = length (pad_even (e_data e))"
proof -
  have n: "unat (ARC_NAME_SIZE (entry_header e)) = length (pad_even (e_name e @ [0]))"
    using assms by (intro name_size_value) (simp_all add: entry_ok_def entry_header_def)
  moreover have "length (e_name e @ [0]) mod 2 < 2" by simp
  ultimately have "unat (ARC_NAME_SIZE (entry_header e)) < 2 ^ 31"
    using assms unfolding entry_ok_def length_pad_even by (simp del: mod_less_divisor)
  then show "unat (ARC_DATA_OFFSET (entry_header e)) = 26 + length (pad_even (e_name e @ [0]))"
    using n by (simp add: ARC_DATA_OFFSET_def ARC_NAME_OFFSET_def unat_word_ariths unat_scast_small del: scast_eq)
  show d: "unat (ARC_DATA_SIZE (entry_header e)) = length (pad_even (e_data e))"
    using data_size_value [of "length (e_data e)" "entry_header e"] assms
    by (simp add: entry_ok_def entry_header_def length_pad_even)
  then show "unat (scast (ARC_DATA_SIZE (entry_header e)) :: u64) = length (pad_even (e_data e))"
    using assms by (subst unat_scast_small) (simp_all add: entry_ok_def length_pad_even, linarith?)
qed

lemma length_entry_bytes:
  "length (entry_bytes e) = 26 + length (pad_even (e_name e @ [0])) + length (pad_even (e_data e))"
  by (simp add: entry_bytes_def)

lemma h_magic_entry [simp]: "h_magic (entry_header e) = cpio_magic"
  by (simp add: entry_header_def)

section \<open>Searching\<close>

lemma word_of_nat_of_unat: "unat (w :: 'a::len word) = n \<Longrightarrow> w = word_of_nat n"
  by auto

lemma entry_round:
  assumes e: "entry_ok e" and f: "is_cstr f" and len: "length pre + length (entry_bytes e) < 2 ^ 64"
  shows "cpio_round (pre @ entry_bytes e @ rest) f (word_of_nat (length pre)) =
    Inr (if prefix f (e_name e) then Cpio_Found
         else Cpio_Next (word_of_nat (length pre + length (entry_bytes e))))"
proof -
  have at: "unat (word_of_nat (length pre) :: u64) = length pre" using len by (simp add: unat_of_nat)
  have off: "unat ARC_NAME_OFFSET = 26" by (simp add: ARC_NAME_OFFSET_def)
  let ?h = "entry_header e"
  let ?tail = "replicate (length (e_name e @ [0]) mod 2) 0 @ pad_even (e_data e) @ rest"
  have m: "entry_bytes e @ rest = header_bytes ?h @ e_name e @ 0 # ?tail"
    by (simp add: entry_bytes_def pad_even_def)
  have magic: "read_u16 (pre @ entry_bytes e @ rest) (length pre) = Inr cpio_magic"
    using read_u16_skip [of pre _ 0] read_u16_magic [of ?h] by (simp add: m)
  have header: "header_at (pre @ entry_bytes e @ rest) (length pre) = Inr ?h"
    using header_at_skip [of pre _ 0] header_at_bytes [of ?h] by (simp add: m)
  have "strncmp_mem (pre @ entry_bytes e @ rest) (length pre + 26) f 0 (length f) =
      strncmp_mem (header_bytes ?h @ e_name e @ 0 # ?tail) (length (header_bytes ?h) + 0) f 0 (length f)"
    unfolding m strncmp_mem_skip length_header_bytes by simp
  also have "\<dots> = Inr (prefix f (e_name e))"
    unfolding strncmp_mem_skip using e f by (intro strncmp_mem_prefix) (simp_all add: entry_ok_def)
  finally have name: "strncmp_mem (pre @ entry_bytes e @ rest) (length pre + 26) f 0 (length f) =
      Inr (prefix f (e_name e))" .
  have "word_of_nat (length pre) + (ARC_DATA_OFFSET ?h + scast (ARC_DATA_SIZE ?h)) =
      (word_of_nat (length pre + length (entry_bytes e)) :: u64)"
    unfolding word_of_nat_of_unat [OF entry_sizes(1) [OF e]] word_of_nat_of_unat [OF entry_sizes(2) [OF e]]
      length_entry_bytes by (simp only: of_nat_add ac_simps)
  then show ?thesis
    by (simp add: cpio_round_def at off magic name header)
qed

text \<open>What follows the last file: two bytes that are not the magic number.\<close>

definition no_header :: "u8 list \<Rightarrow> bool" where
  "no_header rest \<longleftrightarrow> 2 \<le> length rest \<and> le_at rest 0 2 \<noteq> cpio_magic"

lemma cpio_search_archive:
  assumes "\<forall>e \<in> set es. entry_ok e" and f: "is_cstr f" and rest: "no_header rest"
    and "length pre + length (archive_bytes es) < 2 ^ 64"
  shows "cpio_search (pre @ archive_bytes es @ rest) f (word_of_nat (length pre)) =
    Some (Inr (map_option (\<lambda>k. word_of_nat (length pre + k)) (archive_find (\<lambda>e. prefix f (e_name e)) es)))"
  using assms(1,4)
proof (induction es arbitrary: pre)
  case Nil
  then have "unat (word_of_nat (length pre) :: u64) = length pre" by (simp add: unat_of_nat)
  moreover have "read_u16 (pre @ rest) (length pre) = Inr (le_at rest 0 2)"
    using read_u16_skip [of pre rest 0] rest by (simp add: read_u16_def no_header_def)
  ultimately have "cpio_round (pre @ rest) f (word_of_nat (length pre)) = Inr Cpio_End"
    using rest by (simp add: cpio_round_def no_header_def)
  then show ?case by (subst cpio_search.simps) (simp add: archive_bytes_def)
next
  case (Cons e es)
  have e: "entry_ok e" and es: "\<forall>e \<in> set es. entry_ok e" using Cons.prems(1) by simp_all
  have bytes: "archive_bytes (e # es) = entry_bytes e @ archive_bytes es" by (simp add: archive_bytes_def)
  have len: "length pre + length (entry_bytes e) < 2 ^ 64" using Cons.prems(2) by (simp add: bytes)
  note round = entry_round [OF e f len, of "archive_bytes es @ rest"]
  have IH: "cpio_search ((pre @ entry_bytes e) @ archive_bytes es @ rest) f (word_of_nat (length (pre @ entry_bytes e))) =
    Some (Inr (map_option (\<lambda>k. word_of_nat (length (pre @ entry_bytes e) + k)) (archive_find (\<lambda>e. prefix f (e_name e)) es)))"
    using Cons.prems(2) by (intro Cons.IH es) (simp add: bytes)
  show ?case
  proof (cases "prefix f (e_name e)")
    case True
    then show ?thesis using round by (subst cpio_search.simps) (simp add: bytes)
  next
    case False
    then have "cpio_search (pre @ archive_bytes (e # es) @ rest) f (word_of_nat (length pre)) =
        cpio_search ((pre @ entry_bytes e) @ archive_bytes es @ rest) f (word_of_nat (length (pre @ entry_bytes e)))"
      using round by (subst cpio_search.simps) (simp add: bytes)
    then show ?thesis
      using False unfolding IH by (simp add: option.map_comp comp_def add.assoc)
  qed
qed

lemma find_file_archive:
  assumes "\<forall>e \<in> set es. entry_ok e" and "is_cstr f" and "no_header rest" and "length (archive_bytes es) < 2 ^ 64"
  shows "initramfs_find_file (Some (archive_bytes es @ rest)) (Some f) =
    Some (Inr (map_option word_of_nat (archive_find (\<lambda>e. prefix (skip_slash f) (e_name e)) es)))"
proof -
  have "is_cstr (skip_slash f)" using assms(2) by (auto simp: skip_slash_def is_cstr_def split: list.split)
  then show ?thesis
    using cpio_search_archive [OF assms(1) _ assms(3), of "skip_slash f" "[]"] assms(4)
    by (simp add: initramfs_find_file_def)
qed

text \<open>The place found is where the file's bytes start.\<close>

lemma archive_find_at:
  assumes "archive_find P es = Some k"
  obtains pre e post where "es = pre @ e # post" "P e" "\<forall>x \<in> set pre. \<not> P x" "k = length (archive_bytes pre)"
  using assms
proof (induction es arbitrary: k thesis)
  case Nil
  then show ?case by simp
next
  case (Cons x es)
  show ?case
  proof (cases "P x")
    case True
    then show ?thesis using Cons.prems(1) [of "[]" x es] Cons.prems(2) by (simp add: archive_bytes_def)
  next
    case False
    then obtain j where j: "archive_find P es = Some j" "k = length (entry_bytes x) + j"
      using Cons.prems(2) by auto
    from Cons.IH [OF _ j(1)] obtain pre e post
      where "es = pre @ e # post" "P e" "\<forall>y \<in> set pre. \<not> P y" "j = length (archive_bytes pre)"
      by blast
    then show ?thesis using Cons.prems(1) [of "x # pre" e post] False j(2) by (simp add: archive_bytes_def)
  qed
qed

lemma archive_find_first:
  assumes "\<forall>x \<in> set pre. \<not> P x" and "P e"
  shows "archive_find P (pre @ e # post) = Some (length (archive_bytes pre))"
  using assms by (induction pre) (simp_all add: archive_bytes_def)

lemma header_at_entry:
  "header_at (archive_bytes (pre @ e # post) @ rest) (length (archive_bytes pre)) = Inr (entry_header e)"
  using header_at_skip [of "archive_bytes pre" "entry_bytes e @ archive_bytes post @ rest" 0]
    header_at_bytes [of "entry_header e"]
  by (simp add: archive_bytes_def entry_bytes_def)

section \<open>Reading\<close>

lemma update_snoc:
  assumes "length xs = i" and "i < length dst"
  shows "(xs @ drop i dst)[i := v] = (xs @ [v]) @ drop (Suc i) dst"
  using assms by (simp add: list_update_append flip: Cons_nth_drop_Suc)

text \<open>The copying loop fills the caller's memory with the bytes of the file, then with zeros.\<close>

lemma read_round_ok:
  assumes "length xs = i" and "i + n \<le> length dst" and wrap: "unat data + unat off + i + n < 2 ^ 64"
    and inside: "\<And>j. unat off + j < unat fs \<Longrightarrow> unat data + unat off + j < length m"
  shows "read_round m data off fs (xs @ drop i dst) i n =
    Inr (xs @ map (\<lambda>j. if unat off + j < unat fs then m ! (unat data + unat off + j) else 0) [i..<i + n] @
         drop (i + n) dst)"
  using assms(1-3)
proof (induction n arbitrary: i xs)
  case 0
  then show ?case by simp
next
  case (Suc n)
  let ?v = "if unat off + i < unat fs then m ! (unat data + unat off + i) else 0"
  have w: "unat (word_of_nat i + off) = unat off + i" "unat (data + off + word_of_nat i) = unat data + unat off + i"
    using Suc.prems(3) by (simp_all add: unat_word_ariths unat_of_nat)
  have val: "(if word_of_nat i + off < fs
      then (let a = unat (data + off + word_of_nat i) in if a < length m then Inr (m ! a) else Inl Out_Of_Bounds)
      else Inr 0) = (Inr ?v :: u8 res)"
    unfolding word_less_nat_alt w Let_def using inside [of i] by simp
  have i: "i < length (xs @ drop i dst)" using Suc.prems by simp
  have upd: "(xs @ drop i dst)[i := ?v] = (xs @ [?v]) @ drop (Suc i) dst"
    using Suc.prems by (intro update_snoc) simp_all
  have "read_round m data off fs (xs @ drop i dst) i (Suc n) =
      read_round m data off fs ((xs @ [?v]) @ drop (Suc i) dst) (Suc i) n"
    unfolding read_round.simps val res_bind_Inr upd using i by (simp only: if_True)
  also have "\<dots> = Inr ((xs @ [?v]) @ map (\<lambda>j. if unat off + j < unat fs then m ! (unat data + unat off + j) else 0)
      [Suc i..<Suc i + n] @ drop (Suc i + n) dst)"
    using Suc.prems by (intro Suc.IH) simp_all
  finally show ?case by (simp add: upt_rec [of i] del: upt_Suc)
qed

text \<open>What a read of \<open>n\<close> bytes at \<open>off\<close> should deliver: the file followed by zeros.\<close>

definition zero_extended :: "u8 list \<Rightarrow> nat \<Rightarrow> nat \<Rightarrow> u8 list" where
  "zero_extended d off n = map (\<lambda>j. if off + j < length d then d ! (off + j) else 0) [0..<n]"

lemma zero_extended_inside: "off + n \<le> length d \<Longrightarrow> zero_extended d off n = bytes_at off n d"
  by (rule nth_equalityI) (simp_all add: zero_extended_def nth_bytes_at)

lemma entry_data_nth:
  assumes "entry_ok e" and "k < length (pad_even (e_data e))"
  shows "unat (ARC_DATA_OFFSET (entry_header e)) + k < length (entry_bytes e @ post)"
    and "(entry_bytes e @ post) ! (unat (ARC_DATA_OFFSET (entry_header e)) + k) =
      (if k < length (e_data e) then e_data e ! k else 0)"
proof -
  note s = entry_sizes(1) [OF assms(1)] length_entry_bytes [of e]
  show "unat (ARC_DATA_OFFSET (entry_header e)) + k < length (entry_bytes e @ post)"
    using assms(2) s by simp
  have "entry_bytes e @ post = (header_bytes (entry_header e) @ pad_even (e_name e @ [0])) @ pad_even (e_data e) @ post"
    by (simp add: entry_bytes_def)
  moreover have "unat (ARC_DATA_OFFSET (entry_header e)) = length (header_bytes (entry_header e) @ pad_even (e_name e @ [0]))"
    using s by simp
  ultimately have "(entry_bytes e @ post) ! (unat (ARC_DATA_OFFSET (entry_header e)) + k) = (pad_even (e_data e) @ post) ! k"
    by (simp only: nth_append_length_plus)
  then show "(entry_bytes e @ post) ! (unat (ARC_DATA_OFFSET (entry_header e)) + k) =
      (if k < length (e_data e) then e_data e ! k else 0)"
    using assms(2) by (simp add: nth_append pad_even_def)
qed

lemma initramfs_read_entry:
  assumes e: "entry_ok e" and r: "driver_state r = Some st" "if_base st = Some (entry_bytes e @ post)"
    and n: "unat sz * unat cnt < 2 ^ 62" "unat off < 2 ^ 62" "unat sz * unat cnt \<le> length dst"
  shows "initramfs_read (Some dst) sz cnt (Some off) (Some r) =
    Inr (sz * cnt, Some (blit dst 0 (zero_extended (e_data e) (unat off) (unat sz * unat cnt))))"
proof -
  let ?n = "unat sz * unat cnt"
  let ?h = "entry_header e" and ?m = "entry_bytes e @ post"
  have w: "unat (sz * cnt) = ?n" using n(1) by (simp add: unat_word_ariths)
  have h: "header_at ?m 0 = Inr ?h"
    using header_at_bytes [of ?h] by (simp add: entry_bytes_def)
  have ext: "blit dst 0 (zero_extended (e_data e) (unat off) ?n) = zero_extended (e_data e) (unat off) ?n @ drop ?n dst"
    by (simp add: blit_def zero_extended_def)
  show ?thesis
  proof (cases "?n = 0")
    case True
    then have "sz * cnt = 0" using w by (metis unat_eq_zero)
    then show ?thesis using True ext by (simp add: initramfs_read_def r h zero_extended_def)
  next
    case False
    then have nz: "sz * cnt \<noteq> 0" using w by (metis unat_eq_zero)
    have fs: "unat (scast (ARC_DATA_SIZE ?h) :: u64) = length (pad_even (e_data e))"
      by (rule entry_sizes(2) [OF e])
    have d: "unat (ARC_DATA_OFFSET ?h) < 2 ^ 62"
      using entry_sizes(1) [OF e] e length_pad_even_le [of "e_name e @ [0]"] by (simp add: entry_ok_def)
    have "read_round ?m (ARC_DATA_OFFSET ?h) off (scast (ARC_DATA_SIZE ?h)) ([] @ drop 0 dst) 0 ?n =
      Inr ([] @ map (\<lambda>j. if unat off + j < unat (scast (ARC_DATA_SIZE ?h) :: u64)
             then ?m ! (unat (ARC_DATA_OFFSET ?h) + unat off + j) else 0) [0..<0 + ?n] @ drop (0 + ?n) dst)"
      using n d entry_data_nth(1) [OF e, of "unat off + _" post]
      by (intro read_round_ok) (simp_all add: fs add.assoc)
    moreover have "map (\<lambda>j. if unat off + j < unat (scast (ARC_DATA_SIZE ?h) :: u64)
        then ?m ! (unat (ARC_DATA_OFFSET ?h) + unat off + j) else 0) [0..<?n] = zero_extended (e_data e) (unat off) ?n"
      unfolding zero_extended_def fs
      using entry_data_nth(2) [OF e, of "unat off + _" post]
      by (intro map_cong refl) (auto simp: add.assoc length_pad_even)
    ultimately show ?thesis
      unfolding ext by (simp add: initramfs_read_def r h nz w)
  qed
qed

end
