(* ===== verification/Initramfs_Props.thy ===== *)
theory Initramfs_Props
  imports Initramfs_Archive
begin

text \<open>
  The initramfs drivers' properties: life cycle, search, stat and read against the abstract archive,
  and what the search does with names that are prefixes of others and with a bad size.
\<close>

section \<open>Life cycle\<close>

definition initramfs_file_owned :: "initramfs_file \<Rightarrow> u64 set" where
  "initramfs_file_owned st = {if_self st}"

definition initramfs_file_valid :: "initramfs_file \<Rightarrow> bool" where
  "initramfs_file_valid st \<longleftrightarrow> if_self st \<noteq> 0"

lemma initramfs_file_init_cases:
  assumes "initramfs_file_init K r a s = Inr (ret, r', s')"
  obtains (nomem) w1 where "k_alloc K 16 (env s) = (0, w1)" "ret = - 1" "r' = r" "s' = s\<lparr>env := w1\<rparr>"
  | (made) p w1 where "k_alloc K 16 (env s) = (p, w1)" "p \<noteq> 0" "ret = 0" "s' = s\<lparr>env := w1\<rparr>"
      "r' = r\<lparr>driver_state := Some \<lparr>if_self = p, if_base = a\<rparr>\<rparr>"
  using assms by (cases "k_alloc K 16 (env s)") (auto simp: initramfs_file_init_def split: if_splits)

sublocale kernel_heap \<subseteq> ramfs_file: driver_lifecycle K live "initramfs_file_init K" "initramfs_file_uninit K"
    initramfs_file_owned initramfs_file_valid
proof
  fix r a s ret r' s'
  assume call: "initramfs_file_init K r a s = Inr (ret, r', s')"
  show "driver r' = driver r \<and> res_id r' = res_id r \<and> dri_index r' = dri_index r \<and> dri_group r' = dri_group r"
    using call by (rule initramfs_file_init_cases) simp_all
  show "current_id s' = current_id s"
    using call by (rule initramfs_file_init_cases) simp_all
  assume "ret \<noteq> 0"
  with call show "live (env s') = live (env s)"
    by (elim initramfs_file_init_cases) (auto dest: alloc_failed)
next
  fix r a s r' s'
  assume call: "initramfs_file_init K r a s = Inr (0, r', s')"
  show "live (env s) \<subseteq> live (env s')"
    using call by (rule initramfs_file_init_cases) (auto dest!: alloc_mono)
  show "\<exists>st. driver_state r' = Some st \<and> initramfs_file_valid st \<and>
      live (env s') = live (env s) \<union> initramfs_file_owned st \<and> initramfs_file_owned st \<inter> live (env s) = {}"
    using call
  proof (rule initramfs_file_init_cases)
    fix p w1
    assume p: "k_alloc K 16 (env s) = (p, w1)" "p \<noteq> 0" and st: "s' = s\<lparr>env := w1\<rparr>"
      "r' = r\<lparr>driver_state := Some \<lparr>if_self = p, if_base = a\<rparr>\<rparr>"
    show ?thesis
      using alloc_fresh [OF p] alloc_adds [OF p] p(2) st
      by (simp add: initramfs_file_owned_def initramfs_file_valid_def)
  qed simp
next
  fix r :: "initramfs_file resource" and s :: "'w rsys" and st
  assume "driver_state r = Some st" and "initramfs_file_owned st \<subseteq> live (env s)"
  then show "\<exists>ret s'. initramfs_file_uninit K r s = Inr (ret, s') \<and> live (env s') = live (env s) - initramfs_file_owned st"
    using free_live [of "if_self st" "env s"] by (simp add: initramfs_file_uninit_def initramfs_file_owned_def)
qed

section \<open>Properties\<close>

text \<open>
  C25 (initramfs_find_first_prefix): on a well-formed archive the search ends, reads nothing outside
  it, and returns the header of the first file whose name starts with the given name (without one
  leading slash), or \<open>NULL\<close> when there is none.
\<close>

theorem initramfs_find_first_prefix:
  assumes "\<forall>e \<in> set es. entry_ok e" and "is_cstr f" and "no_header rest" and "length (archive_bytes es) < 2 ^ 64"
    and "driver_state r = Some st" and "is_base st = Some (archive_bytes es @ rest)"
  shows "initramfs_locate (Some r) (Some f) =
    Some (Inr (map_option word_of_nat (archive_find (\<lambda>e. prefix (skip_slash f) (e_name e)) es)))"
  using find_file_archive [OF assms(1-4)] assms(5,6) by (simp add: initramfs_locate_def)

definition demo_meta :: cpio_header where
  "demo_meta = \<lparr>h_magic = 0, h_device = 1, h_inode = 2, h_mode = 0x81A4, h_uid = 3, h_gid = 4, h_nlink = 1,
     h_rdev = 0, h_mod_time0 = 1, h_mod_time1 = 2, h_namesize = 0, h_filesize0 = 0, h_filesize1 = 0\<rparr>"

definition demo_entry :: "u8 list \<Rightarrow> u8 list \<Rightarrow> cpio_entry" where
  "demo_entry nm d = \<lparr>e_meta = demo_meta, e_name = nm, e_data = d\<rparr>"

text \<open>Two files, \<open>abc\<close> with five bytes and \<open>ab\<close> with two.\<close>

definition demo_archive :: "cpio_entry list" where
  "demo_archive = [demo_entry [97, 98, 99] [1, 2, 3, 4, 5], demo_entry [97, 98] [6, 7]]"

definition demo_super :: "initramfs_super resource" where
  "demo_super = \<lparr>driver = Some 0, driver_state = Some \<lparr>is_self = 64, is_base = Some (archive_bytes demo_archive @ [0, 0])\<rparr>,
     res_id = 0, dri_index = 0, dri_group = 0\<rparr>"

lemma demo_archive_ok: "\<forall>e \<in> set demo_archive. entry_ok e"
  by (simp add: demo_archive_def demo_entry_def entry_ok_def is_cstr_def)

lemma demo_archive_size: "length (archive_bytes demo_archive) = 68"
  by (simp add: demo_archive_def demo_entry_def archive_bytes_def length_entry_bytes length_pad_even)

lemma no_header_zeros: "no_header [0, 0]"
  by (simp add: no_header_def le_at_def bytes_at_def le_word_def cpio_magic_def)

theorem initramfs_find_first_prefix_witness:
  "initramfs_locate (Some demo_super) (Some [47, 97, 98]) = Some (Inr (Some 0)) \<and>
   initramfs_locate (Some demo_super) (Some [98]) = Some (Inr None)"
  using initramfs_find_first_prefix [OF demo_archive_ok _ no_header_zeros, of "[47, 97, 98]" demo_super]
    initramfs_find_first_prefix [OF demo_archive_ok _ no_header_zeros, of "[98]" demo_super] demo_archive_size
  by (simp add: demo_super_def is_cstr_def skip_slash_def) (simp add: demo_archive_def demo_entry_def)

text \<open>
  C26 (initramfs_read_file): for the first file whose name starts with the given one, locating it and
  reading at any offset through the file driver fills the caller's memory with the file's bytes
  from there, then with zeros. The count returned is always the whole request: nothing tells the
  caller where the file ends.
\<close>

theorem initramfs_read_file:
  assumes es: "es = pre @ e # post" "\<forall>x \<in> set es. entry_ok x" "is_cstr f" "no_header rest" "length (archive_bytes es) < 2 ^ 64"
    and first_match: "prefix (skip_slash f) (e_name e)" "\<forall>x \<in> set pre. \<not> prefix (skip_slash f) (e_name x)"
    and super: "driver_state r = Some st" "is_base st = Some (archive_bytes es @ rest)"
    and n: "unat sz * unat cnt < 2 ^ 62" "unat off < 2 ^ 62" "unat sz * unat cnt \<le> length dst"
  shows "\<exists>k. initramfs_locate (Some r) (Some f) = Some (Inr (Some k)) \<and>
    (\<forall>q qt. driver_state q = Some qt \<longrightarrow> if_base qt = Some (drop (unat k) (archive_bytes es @ rest)) \<longrightarrow>
      initramfs_read (Some dst) sz cnt (Some off) (Some q) =
        Inr (sz * cnt, Some (blit dst 0 (zero_extended (e_data e) (unat off) (unat sz * unat cnt)))))"
proof -
  let ?k = "length (archive_bytes pre)"
  have find: "archive_find (\<lambda>e. prefix (skip_slash f) (e_name e)) es = Some ?k"
    unfolding es(1) using first_match(2,1) by (rule archive_find_first)
  have loc: "initramfs_locate (Some r) (Some f) = Some (Inr (Some (word_of_nat ?k)))"
    using find_file_archive [OF es(2-5)] super find by (simp add: initramfs_locate_def)
  have k: "unat (word_of_nat ?k :: u64) = ?k"
    using es(5) by (simp add: es(1) archive_bytes_def unat_of_nat)
  have d: "drop ?k (archive_bytes es @ rest) = entry_bytes e @ archive_bytes post @ rest"
    by (simp add: es(1) archive_bytes_def)
  have "entry_ok e" using es(1,2) by simp
  then show ?thesis
    unfolding loc by (intro exI [of _ "word_of_nat ?k"] conjI allI impI refl initramfs_read_entry)
      (simp_all only: k d n)
qed

definition demo_file :: "u8 list \<Rightarrow> initramfs_file resource" where
  "demo_file m = \<lparr>driver = Some 1, driver_state = Some \<lparr>if_self = 64, if_base = Some m\<rparr>, res_id = 1, dri_index = 0,
     dri_group = 2\<rparr>"

theorem initramfs_read_file_witness:
  "\<exists>k. initramfs_locate (Some demo_super) (Some [47, 97]) = Some (Inr (Some k)) \<and>
    initramfs_read (Some [9, 9, 9, 9, 9]) 1 4 (Some 3) (Some (demo_file (drop (unat k) (archive_bytes demo_archive @ [0, 0])))) =
      Inr (4, Some [4, 5, 0, 0, 9])"
proof -
  have s: "demo_archive = [] @ demo_entry [97, 98, 99] [1, 2, 3, 4, 5] # [demo_entry [97, 98] [6, 7]]"
    by (simp add: demo_archive_def)
  have "\<exists>k. initramfs_locate (Some demo_super) (Some [47, 97]) = Some (Inr (Some k)) \<and>
    (\<forall>q qt. driver_state q = Some qt \<longrightarrow> if_base qt = Some (drop (unat k) (archive_bytes demo_archive @ [0, 0])) \<longrightarrow>
      initramfs_read (Some [9, 9, 9, 9, 9]) 1 4 (Some 3) (Some q) =
        Inr (1 * 4, Some (blit [9, 9, 9, 9, 9] 0
          (zero_extended (e_data (demo_entry [97, 98, 99] [1, 2, 3, 4, 5])) (unat (3 :: u64)) (unat (1 :: u64) * unat (4 :: u64))))))"
    using demo_archive_size
    by (intro initramfs_read_file [OF s demo_archive_ok _ no_header_zeros,
          where st = "\<lparr>is_self = 64, is_base = Some (archive_bytes demo_archive @ [0, 0])\<rparr>"])
      (simp_all add: demo_super_def is_cstr_def skip_slash_def demo_entry_def)
  then obtain k where loc: "initramfs_locate (Some demo_super) (Some [47, 97]) = Some (Inr (Some k))"
    and rd: "\<And>q qt. driver_state q = Some qt \<Longrightarrow> if_base qt = Some (drop (unat k) (archive_bytes demo_archive @ [0, 0])) \<Longrightarrow>
      initramfs_read (Some [9, 9, 9, 9, 9]) 1 4 (Some 3) (Some q) =
        Inr (1 * 4, Some (blit [9, 9, 9, 9, 9] 0
          (zero_extended (e_data (demo_entry [97, 98, 99] [1, 2, 3, 4, 5])) (unat (3 :: u64)) (unat (1 :: u64) * unat (4 :: u64)))))"
    by blast
  let ?m = "drop (unat k) (archive_bytes demo_archive @ [0, 0])"
  have "zero_extended [1, 2, 3, 4, 5] 3 4 = [4, 5, 0, 0]" by (simp add: zero_extended_def upt_rec)
  then show ?thesis
    using rd [of "demo_file ?m" "\<lparr>if_self = 64, if_base = Some ?m\<rparr>"]
    by (intro exI [of _ k]) (simp add: loc demo_entry_def blit_def, simp add: demo_file_def)
qed

text \<open>
  The stat of a located file carries the header's owner, mode and times;
  its size is the length of the data rounded up to the next even number.
\<close>

theorem initramfs_stat_size:
  assumes "entry_ok e" and "driver_state q = Some qt" and "if_base qt = Some (entry_bytes e @ post)"
  shows "\<exists>sb'. initramfs_file_stat (Some q) filename (Some sb) = Inr (0, Some sb') \<and>
    unat (st_size sb') = length (e_data e) + length (e_data e) mod 2 \<and>
    st_mode sb' = ucast (h_mode (e_meta e)) \<and> st_uid sb' = ucast (h_uid (e_meta e)) \<and>
    st_gid sb' = ucast (h_gid (e_meta e)) \<and> st_ino sb' = ucast (h_inode (e_meta e)) \<and>
    st_nlink sb' = ucast (h_nlink (e_meta e)) \<and> st_mtim_nsec sb' = 0"
proof -
  have h: "header_at (entry_bytes e @ post) 0 = Inr (entry_header e)"
    using header_at_bytes [of "entry_header e"] by (simp add: entry_bytes_def)
  have "unat (scast (ARC_DATA_SIZE (entry_header e)) :: u64) = length (e_data e) + length (e_data e) mod 2"
    using entry_sizes(2) [OF assms(1)] by (simp only: length_pad_even)
  then show ?thesis
    using assms(2,3) h by (simp add: initramfs_file_stat_def stat_of_header_def entry_header_def del: scast_eq)
qed

theorem initramfs_stat_size_witness:
  fixes sb :: stat_buf
  defines "sb \<equiv> \<lparr>st_dev = 0, st_ino = 0, st_mode = 0, st_nlink = 0, st_uid = 0, st_gid = 0, st_rdev = 0, st_size = 0,
    st_blksize = 0, st_blocks = 0, st_mtim_sec = 0, st_mtim_nsec = 0\<rparr>"
  shows "\<exists>sb'. initramfs_file_stat (Some (demo_file (entry_bytes (demo_entry [97] [1, 2, 3, 4, 5])))) None (Some sb) =
      Inr (0, Some sb') \<and> unat (st_size sb') = 6 \<and> st_uid sb' = 3"
proof -
  let ?e = "demo_entry [97] [1, 2, 3, 4, 5]"
  have ok: "entry_ok ?e" by (simp add: demo_entry_def entry_ok_def is_cstr_def)
  have q: "driver_state (demo_file (entry_bytes ?e)) = Some \<lparr>if_self = 64, if_base = Some (entry_bytes ?e)\<rparr>"
    "if_base \<lparr>if_self = 64, if_base = Some (entry_bytes ?e)\<rparr> = Some (entry_bytes ?e @ [])"
    by (simp_all add: demo_file_def)
  obtain sb' where "initramfs_file_stat (Some (demo_file (entry_bytes ?e))) None (Some sb) = Inr (0, Some sb')"
    "unat (st_size sb') = length (e_data ?e) + length (e_data ?e) mod 2" "st_uid sb' = ucast (h_uid (e_meta ?e))"
    using initramfs_stat_size [OF ok q, of None sb] by blast
  then show ?thesis by (intro exI [of _ sb']) (simp add: demo_entry_def demo_meta_def)
qed

text \<open>
  The comparison is only over the length of the name asked for, so a
  file is out of reach behind an earlier file whose longer name starts with its name: asking for it
  yields the other file.
\<close>

theorem initramfs_prefix_shadows:
  assumes "\<forall>x \<in> set (pre @ [long] @ mid @ short # post). entry_ok x" and "no_header rest"
    and "length (archive_bytes (pre @ [long] @ mid @ short # post)) < 2 ^ 64"
    and "e_name long = e_name short @ ext" and "ext \<noteq> []" and "hd (e_name short @ [0]) \<noteq> 47"
    and "\<forall>x \<in> set pre. \<not> prefix (e_name short) (e_name x)"
  shows "initramfs_find_file (Some (archive_bytes (pre @ [long] @ mid @ short # post) @ rest)) (Some (e_name short)) =
      Some (Inr (Some (word_of_nat (length (archive_bytes pre))))) \<and>
    header_at (archive_bytes (pre @ [long] @ mid @ short # post) @ rest) (length (archive_bytes pre)) =
      Inr (entry_header long)"
proof -
  let ?f = "e_name short" and ?es = "pre @ [long] @ mid @ short # post"
  have f: "is_cstr ?f" using assms(1) by (simp add: entry_ok_def)
  have s: "skip_slash ?f = ?f" using assms(6) by (auto simp: skip_slash_def split: list.split)
  have "archive_find (\<lambda>e. prefix ?f (e_name e)) (pre @ long # (mid @ short # post)) = Some (length (archive_bytes pre))"
    using assms(4,7) by (intro archive_find_first) simp_all
  then show ?thesis
    using find_file_archive [OF assms(1) f assms(2,3)] header_at_entry [of pre long "mid @ short # post" rest]
    by (simp add: s)
qed

theorem initramfs_prefix_shadows_witness:
  "initramfs_find_file (Some (archive_bytes demo_archive @ [0, 0])) (Some [97, 98]) = Some (Inr (Some 0)) \<and>
   header_at (archive_bytes demo_archive @ [0, 0]) 0 = Inr (entry_header (demo_entry [97, 98, 99] [1, 2, 3, 4, 5]))"
  using initramfs_prefix_shadows [of "[]" "demo_entry [97, 98, 99] [1, 2, 3, 4, 5]" "[]" "demo_entry [97, 98] [6, 7]" "[]"
      "[0, 0]" "[99]"] demo_archive_ok demo_archive_size no_header_zeros
  by (simp add: demo_archive_def) (simp add: demo_entry_def archive_bytes_def)

section \<open>A search that never ends\<close>

lemma cpio_search_loops:
  assumes "cpio_round fs f off = Inr (Cpio_Next off)"
  shows "cpio_search fs f off = None"
proof (rule ccontr)
  assume "cpio_search fs f off \<noteq> None"
  then obtain y where "cpio_search fs f off = Some y" by blast
  then have "cpio_round fs f off \<noteq> Inr (Cpio_Next off)"
    by (rule cpio_search.raw_induct [rotated]) (auto split: sum.splits cpio_round.splits)
  with assms show False by simp
qed

text \<open>A header whose sizes lead back to itself: the size field is \<open>-28\<close> as an \<open>int\<close>.\<close>

definition looping_image :: "u8 list" where
  "looping_image = header_bytes (demo_meta\<lparr>h_magic := cpio_magic, h_namesize := 2, h_filesize0 := 0xFFFF,
     h_filesize1 := 0xFFE4\<rparr>) @ [97, 0]"

text \<open>
  C27 (initramfs_search_can_loop): on this 28-byte archive, looking for any name that is not a prefix
  of the one stored never returns.
\<close>

theorem initramfs_search_can_loop:
  assumes "is_cstr f" and "\<not> prefix (skip_slash f) [97]"
  shows "initramfs_find_file (Some looping_image) (Some f) = None"
proof -
  let ?h = "demo_meta\<lparr>h_magic := cpio_magic, h_namesize := 2, h_filesize0 := 0xFFFF, h_filesize1 := 0xFFE4\<rparr>"
  let ?f = "skip_slash f"
  have f: "is_cstr ?f" using assms(1) by (auto simp: skip_slash_def is_cstr_def split: list.split)
  have m: "looping_image = header_bytes ?h @ [97] @ 0 # []" by (simp add: looping_image_def)
  have "strncmp_mem looping_image 26 ?f 0 (length ?f) = strncmp_mem ([97] @ 0 # []) 0 ?f 0 (length ?f)"
    using strncmp_mem_skip [of "header_bytes ?h" _ 0] by (simp add: m)
  also have "\<dots> = Inr False"
    using assms(2) strncmp_mem_prefix [OF f, of "[97]" "[]"] by (simp add: is_cstr_def)
  finally have name: "strncmp_mem looping_image 26 ?f 0 (length ?f) = Inr False" .
  have magic: "read_u16 looping_image 0 = Inr cpio_magic" unfolding m by (simp only: read_u16_magic) simp
  have header: "header_at looping_image 0 = Inr ?h" unfolding m by (rule header_at_bytes)
  have size: "ARC_DATA_OFFSET ?h + scast (ARC_DATA_SIZE ?h) = 0"
    by (simp add: ARC_DATA_OFFSET_def ARC_NAME_OFFSET_def ARC_NAME_SIZE_def ARC_DATA_SIZE_def Let_def)
  have "cpio_round looping_image ?f 0 = Inr (Cpio_Next 0)"
    using name magic header size by (simp add: cpio_round_def ARC_NAME_OFFSET_def del: scast_eq)
  then show ?thesis
    by (simp add: initramfs_find_file_def cpio_search_loops)
qed

theorem initramfs_search_can_loop_witness: "initramfs_find_file (Some looping_image) (Some [98]) = None"
  by (rule initramfs_search_can_loop) (simp_all add: is_cstr_def skip_slash_def)

end
