(* ===== verification/Ext2_Util.thy ===== *)
theory Ext2_Util
  imports Drv_Iface
begin

text \<open>
  \<open>src/c/sysfs/ext2/util.c\<close> with the layouts of \<open>ext2.h\<close>: the walk over the blocks of an inode
  (direct, singly, doubly and triply indirect), reading and writing inode data with it, and going
  through a directory. An inode in memory is the list of its bytes, of which the code reads fields at
  fixed offsets. The walk does not end when a transfer moves nothing, so it is a
  \<open>partial_function\<close>. Offsets inside one block are natural numbers.
\<close>

section \<open>Layouts\<close>

definition read_u8 :: "u8 list \<Rightarrow> nat \<Rightarrow> u8 res" where
  "read_u8 m k = (if k < length m then Inr (m ! k) else Inl Out_Of_Bounds)"

definition read_le16 :: "u8 list \<Rightarrow> nat \<Rightarrow> u16 res" where
  "read_le16 m k = (if k + 2 \<le> length m then Inr (le_at m k 2) else Inl Out_Of_Bounds)"

definition read_le32 :: "u8 list \<Rightarrow> nat \<Rightarrow> u32 res" where
  "read_le32 m k = (if k + 4 \<le> length m then Inr (le_at m k 4) else Inl Out_Of_Bounds)"

text \<open>Fields of \<open>struct ext2_inode\<close> (128 bytes).\<close>

definition node_type_perms :: "u8 list \<Rightarrow> u16 res" where
  "node_type_perms m = read_le16 m 0"

definition node_size_low :: "u8 list \<Rightarrow> u32 res" where
  "node_size_low m = read_le32 m 4"

definition node_dbp :: "u8 list \<Rightarrow> nat \<Rightarrow> u32 res" where
  "node_dbp m i = read_le32 m (40 + 4 * i)"

definition node_sibp :: "u8 list \<Rightarrow> u32 res" where
  "node_sibp m = read_le32 m 88"

definition node_dibp :: "u8 list \<Rightarrow> u32 res" where
  "node_dibp m = read_le32 m 92"

definition node_tibp :: "u8 list \<Rightarrow> u32 res" where
  "node_tibp m = read_le32 m 96"

text \<open>Fields of \<open>struct ext2_dir_ent\<close> at an offset of a block; the name starts at byte 8.\<close>

definition ent_inode :: "u8 list \<Rightarrow> nat \<Rightarrow> u32 res" where
  "ent_inode m i = read_le32 m i"

definition ent_total_size :: "u8 list \<Rightarrow> nat \<Rightarrow> u16 res" where
  "ent_total_size m i = read_le16 m (i + 4)"

definition ent_lower_name_len :: "u8 list \<Rightarrow> nat \<Rightarrow> u8 res" where
  "ent_lower_name_len m i = read_u8 m (i + 6)"

text \<open>
  \<open>struct ext2_basic_driver_state\<close>: the handle of the partition, the inode (its address and bytes),
  and the rest.
\<close>

record ext2_basic =
  eb_partition :: u64
  eb_node :: "(u64 \<times> u8 list) option"
  eb_attributes :: u64
  eb_block_size :: u64
  eb_inode :: u32

section \<open>Loading index blocks\<close>

definition ext2_load_block :: "u32 \<Rightarrow> (u32 \<Rightarrow> u32) option \<Rightarrow> u32 \<Rightarrow> u32" where
  "ext2_load_block block create inode =
     (if block \<noteq> 0 then block else case create of None \<Rightarrow> 0 | Some f \<Rightarrow> f inode)"

text \<open>
  The block number comes by value; \<open>out\<close> is the caller's buffer variable, an address with its
  bytes. The buffer stays allocated when there is no block to read.
\<close>

definition ext2_load_read_block ::
  "('w, 'z) kernel_scheme \<Rightarrow> ext2_basic \<Rightarrow> u32 \<Rightarrow> (u32 \<Rightarrow> u32) option \<Rightarrow> (u64 \<times> u8 list) option \<Rightarrow> 'w \<Rightarrow>
   (int \<times> (u64 \<times> u8 list) option \<times> 'w) res" where
  "ext2_load_read_block K st block create out w =
     (case (case out of
              Some b \<Rightarrow> (Some b, w)
            | None \<Rightarrow> (case k_alloc K (eb_block_size st) w of (p, w1) \<Rightarrow>
                        if p = 0 then (None, w1) else (Some (p, fresh_bytes K p (eb_block_size st)), w1))) of
        (None, w1) \<Rightarrow> Inr (- 2, None, w1)
      | (Some (p, m), w1) \<Rightarrow>
          let b = ext2_load_block block create (eb_inode st)
          in if b \<noteq> 0
             then let w2 = k_vfs_seek K (eb_partition st) (ucast b * eb_block_size st) w1
                  in case k_vfs_read K (eb_partition st) 1 (eb_block_size st) w2 of (n, bs, w3) \<Rightarrow>
                       res_bind (mem_write m 0 bs) (\<lambda>m'. Inr (0, Some (p, m'), w3))
             else Inr (- 3, Some (p, m), w1))"

section \<open>The walk over the blocks of an inode\<close>

text \<open>
  The variables of \<open>ext2_traverse_blocks\<close>, with the memory the callback's argument points to and
  the world.
\<close>

record 'w traverse =
  tr_traversed :: u64
  tr_sibp :: "(u64 \<times> u8 list) option"
  tr_last_doubly :: u64
  tr_dibp :: "(u64 \<times> u8 list) option"
  tr_last_triply :: u64
  tr_tibp :: "(u64 \<times> u8 list) option"
  tr_buffer :: "u8 list"
  tr_world :: 'w

type_synonym 'w block_callback = "u32 \<Rightarrow> u64 \<Rightarrow> u64 \<Rightarrow> u8 list \<Rightarrow> 'w \<Rightarrow> (u64 \<times> u8 list \<times> 'w) res"

datatype 'w traverse_round = Traverse_Next "'w traverse" | Traverse_Exit "'w traverse"

definition traverse_do ::
  "'w block_callback \<Rightarrow> u32 \<Rightarrow> u64 \<Rightarrow> 'w traverse \<Rightarrow> 'w traverse_round res" where
  "traverse_do do_callback block jank t =
     (if block = 0 then Inr (Traverse_Exit t)
      else res_bind (do_callback block (tr_traversed t) jank (tr_buffer t) (tr_world t))
             (\<lambda>(n, buf, w). Inr (Traverse_Next (t\<lparr>tr_traversed := tr_traversed t + n, tr_buffer := buf, tr_world := w\<rparr>))))"

definition table_entry :: "(u64 \<times> u8 list) option \<Rightarrow> u64 \<Rightarrow> u32 res" where
  "table_entry tbl i = (case tbl of None \<Rightarrow> Inl Null_Deref | Some (p, m) \<Rightarrow> read_le32 m (4 * unat i))"

text \<open>From the label \<open>skip_dibp\<close> on.\<close>

definition traverse_sibp ::
  "ext2_basic \<Rightarrow> 'w block_callback \<Rightarrow> (u32 \<Rightarrow> u32) option \<Rightarrow> u64 \<Rightarrow> u64 \<Rightarrow> 'w traverse \<Rightarrow> 'w traverse_round res" where
  "traverse_sibp st do_callback create singly_idx jank t =
     res_bind (table_entry (tr_sibp t) singly_idx) (\<lambda>e.
       traverse_do do_callback (ext2_load_block e create (eb_inode st)) jank t)"

text \<open>Writing a cached table back to a block.\<close>

definition write_table ::
  "('w, 'z) kernel_scheme \<Rightarrow> ext2_basic \<Rightarrow> u64 \<Rightarrow> (u64 \<times> u8 list) option \<Rightarrow> 'w \<Rightarrow> 'w res" where
  "write_table K st block tbl w =
     (let w1 = k_vfs_seek K (eb_partition st) (block * eb_block_size st) w
      in case tbl of None \<Rightarrow> Inl Null_Deref
         | Some (p, m) \<Rightarrow>
             res_bind (mem_read m 0 (unat (eb_block_size st)))
               (\<lambda>bs. Inr (snd (k_vfs_write K (eb_partition st) bs 1 (eb_block_size st) w1))))"

text \<open>From the label \<open>do_dibp\<close> on.\<close>

definition traverse_dibp ::
  "('w, 'z) kernel_scheme \<Rightarrow> ext2_basic \<Rightarrow> 'w block_callback \<Rightarrow> (u32 \<Rightarrow> u32) option \<Rightarrow>
   u64 \<Rightarrow> u64 \<Rightarrow> u64 \<Rightarrow> u64 \<Rightarrow> 'w traverse \<Rightarrow> 'w traverse_round res" where
  "traverse_dibp K st do_callback create ptr_count doubly_idx singly_idx jank t =
     res_bind (table_entry (tr_dibp t) ((doubly_idx - 1) mod ptr_count)) (\<lambda>e.
       let block = ext2_load_block e create (eb_inode st)
       in if block = 0 then Inr (Traverse_Exit t)
          else if ucast block = tr_last_doubly t then traverse_sibp st do_callback create singly_idx jank t
          else res_bind (if tr_last_doubly t \<noteq> 0 then write_table K st (tr_last_doubly t) (tr_sibp t) (tr_world t)
                         else Inr (tr_world t)) (\<lambda>w1.
            res_bind (ext2_load_read_block K st e create (tr_sibp t) w1) (\<lambda>(ret, sibp, w2).
              traverse_sibp st do_callback create singly_idx jank
                (t\<lparr>tr_sibp := sibp, tr_last_doubly := ucast block, tr_world := w2\<rparr>))))"

text \<open>
  One round of the loop. A load whose result is tested ends the walk when it fails; the others go on
  with whatever is in the buffer.
\<close>

definition traverse_round ::
  "('w, 'z) kernel_scheme \<Rightarrow> ext2_basic \<Rightarrow> u64 \<Rightarrow> 'w block_callback \<Rightarrow> (u32 \<Rightarrow> u32) option \<Rightarrow>
   'w traverse \<Rightarrow> 'w traverse_round res" where
  "traverse_round K st offset do_callback create t =
     (if eb_block_size st = 0 then Inl Div_By_Zero
      else
        let ptr_count = eb_block_size st div 4;
            base_blk_idx = (tr_traversed t + offset) div eb_block_size st;
            jank = (tr_traversed t + offset) - base_blk_idx * eb_block_size st
        in case eb_node st of None \<Rightarrow> Inl Null_Deref
           | Some (node_ptr, node) \<Rightarrow>
             if base_blk_idx < 12
             then res_bind (node_dbp node (unat base_blk_idx)) (\<lambda>e.
                    traverse_do do_callback (ext2_load_block e create (eb_inode st)) jank t)
             else if ptr_count = 0 then Inl Div_By_Zero
             else
               let idx = base_blk_idx - 12;
                   doubly_idx = idx div eb_block_size st;
                   triply_idx = doubly_idx div eb_block_size st;
                   singly_idx = idx mod ptr_count
               in if doubly_idx OR triply_idx = 0
                  then (if tr_sibp t = None
                        then res_bind (node_sibp node) (\<lambda>e.
                               res_bind (ext2_load_read_block K st e create None (tr_world t)) (\<lambda>(ret, sibp, w1).
                                 let t1 = t\<lparr>tr_sibp := sibp, tr_world := w1\<rparr>
                                 in if ret \<noteq> 0 then Inr (Traverse_Exit t1)
                                    else traverse_sibp st do_callback create singly_idx jank t1))
                        else traverse_sibp st do_callback create singly_idx jank t)
                  else if doubly_idx \<ge> ptr_count + 1
                  then res_bind (if tr_tibp t = None
                                 then res_bind (node_tibp node) (\<lambda>e.
                                        res_bind (ext2_load_read_block K st e create None (tr_world t)) (\<lambda>(ret, tibp, w1).
                                          Inr (ret, t\<lparr>tr_tibp := tibp, tr_world := w1\<rparr>)))
                                 else Inr (0, t)) (\<lambda>(ret, t1).
                         if ret \<noteq> 0 then Inr (Traverse_Exit t1)
                         else res_bind (table_entry (tr_tibp t1) ((triply_idx - 1) mod ptr_count)) (\<lambda>e.
                           let block = ext2_load_block e create (eb_inode st)
                           in if block = 0 then Inr (Traverse_Exit t1)
                              else if ucast block = tr_last_triply t1
                              then traverse_dibp K st do_callback create ptr_count doubly_idx singly_idx jank t1
                              else res_bind (if tr_last_triply t1 \<noteq> 0
                                             then write_table K st (tr_last_triply t1) (tr_dibp t1) (tr_world t1)
                                             else Inr (tr_world t1)) (\<lambda>w2.
                                     res_bind (ext2_load_read_block K st e create (tr_dibp t1) w2) (\<lambda>(ret2, dibp, w3).
                                       traverse_dibp K st do_callback create ptr_count doubly_idx singly_idx jank
                                         (t1\<lparr>tr_dibp := dibp, tr_last_triply := ucast block, tr_world := w3\<rparr>)))))
                  else res_bind (if tr_dibp t = None
                                 then res_bind (node_dibp node) (\<lambda>e.
                                        res_bind (ext2_load_read_block K st e create None (tr_world t)) (\<lambda>(ret, dibp, w1).
                                          Inr (ret, t\<lparr>tr_dibp := dibp, tr_world := w1\<rparr>)))
                                 else Inr (0, t)) (\<lambda>(ret, t1).
                         if ret \<noteq> 0 then Inr (Traverse_Exit t1)
                         else traverse_dibp K st do_callback create ptr_count doubly_idx singly_idx jank t1))"

partial_function (option) traverse_loop ::
  "('w, 'z) kernel_scheme \<Rightarrow> ext2_basic \<Rightarrow> u64 \<Rightarrow> u64 \<Rightarrow> 'w block_callback \<Rightarrow> (u32 \<Rightarrow> u32) option \<Rightarrow>
   'w traverse \<Rightarrow> 'w traverse res option" where
  "traverse_loop K st offset sz do_callback create t =
     (if tr_traversed t < sz
      then (case traverse_round K st offset do_callback create t of
              Inl e \<Rightarrow> Some (Inl e)
            | Inr (Traverse_Exit t') \<Rightarrow> Some (Inr t')
            | Inr (Traverse_Next t') \<Rightarrow> traverse_loop K st offset sz do_callback create t')
      else Some (Inr t))"

text \<open>The part after the label \<open>exit\<close>: every table in memory is written back and freed.\<close>

definition close_table ::
  "('w, 'z) kernel_scheme \<Rightarrow> ext2_basic \<Rightarrow> u64 res \<Rightarrow> (u64 \<times> u8 list) option \<Rightarrow> 'w \<Rightarrow> 'w res" where
  "close_table K st block tbl w =
     (case tbl of None \<Rightarrow> Inr w
      | Some (p, m) \<Rightarrow>
          res_bind block (\<lambda>b. res_bind (write_table K st b tbl w) (\<lambda>w1. Inr (k_free K p w1))))"

definition node_block :: "ext2_basic \<Rightarrow> (u8 list \<Rightarrow> u32 res) \<Rightarrow> u64 res" where
  "node_block st field =
     (case eb_node st of None \<Rightarrow> Inl Null_Deref
      | Some (p, node) \<Rightarrow> res_bind (field node) (\<lambda>b. Inr (ucast b)))"

definition traverse_exit ::
  "('w, 'z) kernel_scheme \<Rightarrow> ext2_basic \<Rightarrow> 'w traverse \<Rightarrow> (u64 \<times> u8 list \<times> 'w) res" where
  "traverse_exit K st t =
     res_bind (close_table K st (node_block st node_tibp) (tr_tibp t) (tr_world t)) (\<lambda>w1.
     res_bind (close_table K st (if tr_last_triply t = 0 then node_block st node_dibp else Inr (tr_last_triply t))
                 (tr_dibp t) w1) (\<lambda>w2.
     res_bind (close_table K st (if tr_last_doubly t = 0 then node_block st node_sibp else Inr (tr_last_doubly t))
                 (tr_sibp t) w2) (\<lambda>w3.
       Inr (tr_traversed t, tr_buffer t, w3))))"

definition ext2_traverse_blocks ::
  "('w, 'z) kernel_scheme \<Rightarrow> ext2_basic \<Rightarrow> u64 \<Rightarrow> u64 \<Rightarrow> 'w block_callback \<Rightarrow> (u32 \<Rightarrow> u32) option \<Rightarrow>
   u8 list \<Rightarrow> 'w \<Rightarrow> (u64 \<times> u8 list \<times> 'w) res option" where
  "ext2_traverse_blocks K st offset sz do_callback create buf w =
     (if sz = 0 then Some (Inr (0, buf, w))
      else map_option (\<lambda>r. res_bind r (traverse_exit K st))
             (traverse_loop K st offset sz do_callback create
                \<lparr>tr_traversed = 0, tr_sibp = None, tr_last_doubly = 0, tr_dibp = None, tr_last_triply = 0,
                 tr_tibp = None, tr_buffer = buf, tr_world = w\<rparr>))"

section \<open>Inode data\<close>

definition ext2_read_callback ::
  "('w, 'z) kernel_scheme \<Rightarrow> ext2_basic \<Rightarrow> u64 \<Rightarrow> 'w block_callback" where
  "ext2_read_callback K st sz block traversed jank buf w =
     (let w1 = k_vfs_seek K (eb_partition st) (ucast block * eb_block_size st + jank) w;
          copy_size = k_min K (eb_block_size st - jank) (sz - traversed)
      in case k_vfs_read K (eb_partition st) 1 copy_size w1 of (n, bs, w2) \<Rightarrow>
           res_bind (mem_write buf (unat traversed) bs) (\<lambda>buf'. Inr (n, buf', w2)))"

definition ext2_read_inode_data ::
  "('w, 'z) kernel_scheme \<Rightarrow> ext2_basic option \<Rightarrow> u8 list option \<Rightarrow> u64 \<Rightarrow> u64 \<Rightarrow> 'w \<Rightarrow>
   (u64 \<times> u8 list option \<times> 'w) res option" where
  "ext2_read_inode_data K state buffer offset sz w =
     (case (state, buffer) of
        (Some st, Some buf) \<Rightarrow>
          if sz = 0 then Some (Inr (0, buffer, w))
          else map_option (\<lambda>r. res_bind r (\<lambda>(n, buf', w'). Inr (n, Some buf', w')))
                 (ext2_traverse_blocks K st offset sz (ext2_read_callback K st sz) None buf w)
      | _ \<Rightarrow> Some (Inr (0, buffer, w)))"

definition ext2_write_callback ::
  "('w, 'z) kernel_scheme \<Rightarrow> ext2_basic \<Rightarrow> u64 \<Rightarrow> 'w block_callback" where
  "ext2_write_callback K st sz block traversed jank buf w =
     (let w1 = k_vfs_seek K (eb_partition st) (ucast block * eb_block_size st + jank) w;
          copy_size = k_min K (eb_block_size st - jank) (sz - traversed)
      in res_bind (mem_read buf (unat traversed) (unat copy_size)) (\<lambda>bs.
           case k_vfs_write K (eb_partition st) bs 1 copy_size w1 of (n, w2) \<Rightarrow> Inr (n, buf, w2)))"

text \<open>Block creation is not implemented: the callback returns 0 on every path.\<close>

definition ext2_create_callback :: "'s option \<Rightarrow> u32 \<Rightarrow> u32" where
  "ext2_create_callback arg inode = (if arg = None \<or> inode = 0 then 0 else 0)"

definition ext2_write_inode_data ::
  "('w, 'z) kernel_scheme \<Rightarrow> ('s option \<times> ext2_basic) option \<Rightarrow> u8 list option \<Rightarrow> u64 \<Rightarrow> u64 \<Rightarrow> 'w \<Rightarrow>
   (u64 \<times> 'w) res option" where
  "ext2_write_inode_data K state buffer offset sz w =
     (case (state, buffer) of
        (Some (super, st), Some buf) \<Rightarrow>
          if sz = 0 \<or> k_masked_read K (eb_attributes st) 1 1 = 0 then Some (Inr (0, w))
          else map_option (\<lambda>r. res_bind r (\<lambda>(n, buf', w'). Inr (n, w')))
                 (ext2_traverse_blocks K st offset sz (ext2_write_callback K st sz)
                    (Some (ext2_create_callback super)) buf w)
      | _ \<Rightarrow> Some (Inr (0, w)))"

section \<open>Directories\<close>

text \<open>
  The inner loop over the entries of one block, from offset \<open>i\<close>. The result says whether the
  callback asked to stop.
\<close>

type_synonym 'a entry_callback = "u8 list \<Rightarrow> nat \<Rightarrow> 'a \<Rightarrow> (int \<times> 'a) res"

function scan_block :: "'a entry_callback \<Rightarrow> u8 list \<Rightarrow> nat \<Rightarrow> nat \<Rightarrow> 'a \<Rightarrow> (bool \<times> 'a) res" where
  "scan_block callback block bs i arg =
     (if i < bs
      then (case ent_total_size block i of
              Inl e \<Rightarrow> Inl e
            | Inr len \<Rightarrow>
                if len = 0 then Inr (False, arg)
                else (case callback block i arg of
                        Inl e \<Rightarrow> Inl e
                      | Inr (ret, arg') \<Rightarrow>
                          if ret = 0 then Inr (True, arg')
                          else scan_block callback block bs (i + unat len) arg'))
      else Inr (False, arg))"
  by pat_completeness auto
termination
  by (relation "measure (\<lambda>(callback, block, bs, i, arg). bs - i)") (auto simp: unat_gt_0 diff_less_mono2)

declare scan_block.simps [simp del]

text \<open>The outer loop; the block buffer is reused and is \<open>None\<close> when it could not be allocated.\<close>

partial_function (option) list_loop ::
  "('w, 'z) kernel_scheme \<Rightarrow> ext2_basic \<Rightarrow> 'a entry_callback \<Rightarrow> u64 \<Rightarrow> u8 list option \<Rightarrow> 'a \<Rightarrow> 'w \<Rightarrow>
   ('a \<times> 'w) res option" where
  "list_loop K dir callback offset block arg w =
     (case ext2_read_inode_data K (Some dir) block offset (eb_block_size dir) w of
        None \<Rightarrow> None
      | Some (Inl e) \<Rightarrow> Some (Inl e)
      | Some (Inr (delta, block', w')) \<Rightarrow>
          if delta = 0 then Some (Inr (arg, w'))
          else (case block' of None \<Rightarrow> Some (Inl Null_Deref)
                | Some m \<Rightarrow>
                  (case scan_block callback m (unat (eb_block_size dir)) 0 arg of
                     Inl e \<Rightarrow> Some (Inl e)
                   | Inr (stop, arg') \<Rightarrow>
                       if stop then Some (Inr (arg', w'))
                       else list_loop K dir callback (offset + delta) block' arg' w')))"

definition ext2_list_directory ::
  "('w, 'z) kernel_scheme \<Rightarrow> ext2_basic option \<Rightarrow> 'a entry_callback \<Rightarrow> 'a \<Rightarrow> 'w \<Rightarrow> ('a \<times> 'w) res option" where
  "ext2_list_directory K dir callback arg w =
     (case dir of None \<Rightarrow> Some (Inr (arg, w))
      | Some d \<Rightarrow>
        (case k_alloc K (eb_block_size d) w of (p, w1) \<Rightarrow>
           map_option (\<lambda>r. res_bind r (\<lambda>(arg', w2). Inr (arg', k_free K p w2)))
             (list_loop K d callback 0 (if p = 0 then None else Some (fresh_bytes K p (eb_block_size d))) arg w1)))"

text \<open>The argument of the lookup callback: the name looked for and the inode number found.\<close>

definition callback_get_inode_in_dir :: "(u8 list \<times> u64) entry_callback" where
  "callback_get_inode_in_dir block i arg =
     res_bind (ent_lower_name_len block i) (\<lambda>len.
     res_bind (strncmp_mem block (i + 8) (fst arg) 0 (unat len)) (\<lambda>same.
       if \<not> same then Inr (1, arg)
       else res_bind (ent_inode block i) (\<lambda>ino. Inr (0, (fst arg, ucast ino)))))"

definition ext2_get_inode_in_dir ::
  "('w, 'z) kernel_scheme \<Rightarrow> ext2_basic option \<Rightarrow> u8 list option \<Rightarrow> 'w \<Rightarrow> (u64 \<times> 'w) res option" where
  "ext2_get_inode_in_dir K dir filename w =
     (case (dir, filename) of
        (Some d, Some f) \<Rightarrow>
          map_option (\<lambda>r. res_bind r (\<lambda>(arg, w'). Inr (snd arg, w')))
            (ext2_list_directory K (Some d) callback_get_inode_in_dir (f, 0) w)
      | _ \<Rightarrow> Some (Inr (0, w)))"

end
