(* ===== verification/Ext2_Super.thy ===== *)
theory Ext2_Super
  imports Ext2_Util
begin

text \<open>
  \<open>src/c/sysfs/ext2/super.c\<close>: mounting an ext2 partition (superblock, checks, group descriptors, root
  inode), reading an inode by number, and looking a name up in the root directory. The superblock is
  decoded into a record; the descriptor table stays a list of bytes.
\<close>

section \<open>The superblock\<close>

record ext2_super_block =
  sb_total_inodes :: u32
  sb_total_blocks :: u32
  sb_superblock :: u32
  sb_log2_block_size :: u32
  sb_blocks_per_group :: u32
  sb_inodes_per_group :: u32
  sb_sig :: u16
  sb_state :: u16
  sb_err_handle :: u16
  sb_os_id :: u32
  sb_inode_size :: u16
  sb_opt_features :: u32
  sb_required_features :: u32
  sb_write_features :: u32

definition super_size :: nat where
  "super_size = 236"

text \<open>The packed structure of \<open>ext2.h\<close>, the fields the driver uses.\<close>

definition super_of :: "u8 list \<Rightarrow> ext2_super_block" where
  "super_of m = \<lparr>sb_total_inodes = le_at m 0 4, sb_total_blocks = le_at m 4 4, sb_superblock = le_at m 20 4,
     sb_log2_block_size = le_at m 24 4, sb_blocks_per_group = le_at m 32 4, sb_inodes_per_group = le_at m 40 4,
     sb_sig = le_at m 56 2, sb_state = le_at m 58 2, sb_err_handle = le_at m 60 2, sb_os_id = le_at m 72 4,
     sb_inode_size = le_at m 88 2, sb_opt_features = le_at m 92 4, sb_required_features = le_at m 96 4,
     sb_write_features = le_at m 100 4\<rparr>"

definition EXT2_SIG :: u16 where
  "EXT2_SIG = 0xEF53"

record ext2_super =
  es_self :: u64
  es_path :: "(u64 \<times> u8 list) option"
  es_table :: "(u64 \<times> u8 list) option"
  es_count :: u64
  es_basic :: ext2_basic
  es_super :: ext2_super_block

section \<open>Checks\<close>

definition feature :: "('w, 'z) kernel_scheme \<Rightarrow> u32 \<Rightarrow> nat \<Rightarrow> bool" where
  "feature K f b \<longleftrightarrow> k_masked_read K (ucast f) b 1 = 1"

definition set_writable :: "('w, 'z) kernel_scheme \<Rightarrow> bool \<Rightarrow> ext2_super \<Rightarrow> ext2_super" where
  "set_writable K on st =
     st\<lparr>es_basic := (es_basic st)\<lparr>eb_attributes :=
          k_masked_write K (eb_attributes (es_basic st)) (if on then 1 else 0) 1 1\<rparr>\<rparr>"

definition ext2_check_super :: "('w, 'z) kernel_scheme \<Rightarrow> ext2_super option \<Rightarrow> int \<times> ext2_super option" where
  "ext2_check_super K state =
     (case state of None \<Rightarrow> (- 1, None)
      | Some st \<Rightarrow>
        let sb = es_super st;
            st1 = (if sb_state sb \<noteq> 1 then set_writable K (sb_err_handle sb \<noteq> 2) st else st)
        in if sb_state sb \<noteq> 1 \<and> sb_err_handle sb = 3 then (- 2, Some st1)
           else if feature K (sb_required_features sb) 0 then (- 3, Some st1)
           else if feature K (sb_required_features sb) 2 then (- 4, Some st1)
           else if feature K (sb_required_features sb) 3 then (- 5, Some st1)
           else let st2 = (if feature K (sb_write_features sb) 0 then set_writable K False st1 else st1);
                    st3 = (if feature K (sb_write_features sb) 2 then set_writable K False st2 else st2)
                in (0, Some st3))"

section \<open>Inodes\<close>

definition desc_inode_table_start :: "u8 list \<Rightarrow> nat \<Rightarrow> u32 res" where
  "desc_inode_table_start tbl g = read_le32 tbl (32 * g + 8)"

definition desc_usage_bmp_block :: "u8 list \<Rightarrow> nat \<Rightarrow> u32 res" where
  "desc_usage_bmp_block tbl g = read_le32 tbl (32 * g)"

definition desc_unallocated_blocks :: "u8 list \<Rightarrow> nat \<Rightarrow> u16 res" where
  "desc_unallocated_blocks tbl g = read_le16 tbl (32 * g + 12)"

text \<open>The result is the new buffer with the inode, or \<open>None\<close> for \<open>NULL\<close>.\<close>

definition ext2_read_inode ::
  "('w, 'z) kernel_scheme \<Rightarrow> ext2_super option \<Rightarrow> u64 \<Rightarrow> 'w \<Rightarrow> ((u64 \<times> u8 list) option \<times> 'w) res" where
  "ext2_read_inode K state inode w =
     (case state of None \<Rightarrow> Inr (None, w)
      | Some st \<Rightarrow>
        (case es_table st of None \<Rightarrow> Inr (None, w)
         | Some (tp, tbl) \<Rightarrow>
           if inode = 0 then Inr (None, w)
           else let sb = es_super st; isz = ucast (sb_inode_size sb); ipg = ucast (sb_inodes_per_group sb)
                in case k_alloc K isz w of (p, w1) \<Rightarrow>
                  if p = 0 then Inr (None, w1)
                  else if ipg = 0 then Inl Div_By_Zero
                  else let block_group = (inode - 1) div ipg; index_in_table = (inode - 1) mod ipg
                       in res_bind (desc_inode_table_start tbl (unat block_group)) (\<lambda>start.
                         let inode_table_address = ucast start * eb_block_size (es_basic st);
                             inode_offset = isz * index_in_table;
                             w2 = k_vfs_seek K (eb_partition (es_basic st)) (inode_table_address + inode_offset) w1
                         in case k_vfs_read K (eb_partition (es_basic st)) 1 isz w2 of (n, bs, w3) \<Rightarrow>
                              res_bind (mem_write (fresh_bytes K p isz) 0 bs) (\<lambda>m. Inr (Some (p, m), w3)))))"

section \<open>Mounting\<close>

definition ext2_block_size_of :: "u32 \<Rightarrow> u64" where
  "ext2_block_size_of log2 = ((\<lambda>bs. push_bit 1 bs) ^^ nat (sint log2)) 1024"

definition div_round_up :: "u32 \<Rightarrow> u32 \<Rightarrow> u32 res" where
  "div_round_up a b = (if b = 0 then Inl Div_By_Zero else Inr ((a + b - 1) div b))"

text \<open>\<open>strdup\<close>: a fresh copy of the string, or \<open>NULL\<close> without memory.\<close>

definition k_strdup :: "('w, 'z) kernel_scheme \<Rightarrow> u8 list \<Rightarrow> 'w \<Rightarrow> (u64 \<times> u8 list) option \<times> 'w" where
  "k_strdup K s w =
     (case k_alloc K (word_of_nat (length s) + 1) w of (p, w1) \<Rightarrow> (if p = 0 then None else Some (p, s), w1))"

text \<open>From the accepted superblock on.\<close>

definition mount_groups ::
  "('w, 'z) kernel_scheme \<Rightarrow> u8 list \<Rightarrow> ext2_super \<Rightarrow> 'w \<Rightarrow> (int \<times> ext2_super \<times> 'w) res" where
  "mount_groups K path st w =
     (let sb = es_super st; drive = eb_partition (es_basic st);
          st1 = st\<lparr>es_basic := (es_basic st)\<lparr>eb_block_size := ext2_block_size_of (sb_log2_block_size sb)\<rparr>\<rparr>
      in res_bind (div_round_up (sb_total_blocks sb) (sb_blocks_per_group sb)) (\<lambda>by_blocks.
         res_bind (div_round_up (sb_total_inodes sb) (sb_inodes_per_group sb)) (\<lambda>by_inodes.
           let block_groups = k_min K (ucast by_blocks) (ucast by_inodes);
               st2 = st1\<lparr>es_count := block_groups\<rparr>
           in case k_alloc K (block_groups * 32) w of (p, w1) \<Rightarrow>
             if p = 0 then Inr (- 7, st2, k_free K (es_self st) (k_vfs_close K drive w1))
             else
               let w2 = k_vfs_seek K drive (ucast (1 + sb_superblock sb) * eb_block_size (es_basic st2)) w1
               in case k_vfs_read K drive 1 (block_groups * 32) w2 of (n, bs, w3) \<Rightarrow>
                 res_bind (mem_write (fresh_bytes K p (block_groups * 32)) 0 bs) (\<lambda>tbl.
                   if n \<noteq> block_groups * 32
                   then Inr (- 8, st2, k_free K (es_self st) (k_free K p (k_vfs_close K drive w3)))
                   else case k_strdup K path w3 of (pth, w4) \<Rightarrow>
                     let st3 = st2\<lparr>es_table := Some (p, tbl), es_path := pth\<rparr>
                     in res_bind (ext2_read_inode K (Some st3) 2 w4) (\<lambda>(node, w5).
                          Inr (0, st3\<lparr>es_basic := (es_basic st3)\<lparr>eb_node := node, eb_inode := 2\<rparr>\<rparr>, w5))))))"

definition init_ext2_super ::
  "('w, 'z) kernel_scheme \<Rightarrow> ext2_super resource option \<Rightarrow> u8 list option \<Rightarrow> 'w rsys \<Rightarrow>
   (int \<times> ext2_super resource option \<times> 'w rsys) res" where
  "init_ext2_super K res args s =
     (case (res, args) of
        (Some r, Some path) \<Rightarrow>
          (case k_alloc K 304 (env s) of (p, w1) \<Rightarrow>
             if p = 0 then Inr (- 2, res, s\<lparr>env := w1\<rparr>)
             else case k_vfs_open K path 0 w1 of (drive, w2) \<Rightarrow>
               if drive = 0 then Inr (- 3, res, s\<lparr>env := k_free K p (k_vfs_close K drive w2)\<rparr>)
               else let w3 = k_vfs_seek K drive 1024 w2
                 in case k_vfs_read K drive 1 (word_of_nat super_size) w3 of (n, bs, w4) \<Rightarrow>
                   res_bind (mem_write (replicate super_size 0) 0 bs) (\<lambda>sbm.
                     let sb = super_of sbm;
                         st = \<lparr>es_self = p, es_path = None, es_table = None, es_count = 0,
                               es_basic = \<lparr>eb_partition = drive, eb_node = None,
                                           eb_attributes = k_masked_write K 0 1 1 1, eb_block_size = 0, eb_inode = 0\<rparr>,
                               es_super = sb\<rparr>;
                         fail = (\<lambda>code. Inr (code, res, s\<lparr>env := k_free K p (k_vfs_close K drive w4)\<rparr>))
                     in if n \<noteq> word_of_nat super_size then fail (- 4)
                        else if sb_sig sb \<noteq> EXT2_SIG then fail (- 5)
                        else case ext2_check_super K (Some st) of (ret, checked) \<Rightarrow>
                          if ret \<noteq> 0 then fail (- 6)
                          else case checked of None \<Rightarrow> Inl Null_Deref
                            | Some st1 \<Rightarrow>
                              res_bind (mount_groups K path st1 w4) (\<lambda>(code, st2, w5).
                                if code \<noteq> 0 then Inr (code, res, s\<lparr>env := w5\<rparr>)
                                else Inr (0, Some (r\<lparr>driver_state := Some st2\<rparr>), s\<lparr>env := w5\<rparr>))))
      | _ \<Rightarrow> Inr (- 1, res, s))"

definition uninit_ext2_super :: "ext2_super resource option \<Rightarrow> int" where
  "uninit_ext2_super res = (if res = None then - 1 else 0)"

definition read_ext2_super :: "u8 list option \<Rightarrow> u64 \<Rightarrow> u64 \<Rightarrow> u64 option \<Rightarrow> ext2_super resource option \<Rightarrow> u64" where
  "read_ext2_super buffer sz cnt file res =
     (if buffer = None \<or> sz = 0 \<or> cnt = 0 \<or> file = None \<or> res = None then 0 else 0)"

definition write_ext2_super :: "u8 list option \<Rightarrow> u64 \<Rightarrow> u64 \<Rightarrow> u64 option \<Rightarrow> ext2_super resource option \<Rightarrow> u64" where
  "write_ext2_super buffer sz cnt file res =
     (if buffer = None \<or> sz = 0 \<or> cnt = 0 \<or> file = None \<or> res = None then 0 else 0)"

section \<open>Names in the root directory\<close>

text \<open>
  The lookup that \<open>stat\<close> and \<open>locate\<close> share: the inode number of a name in a directory, and the
  inode read through the super driver's state.
\<close>

definition lookup_inode ::
  "('w, 'z) kernel_scheme \<Rightarrow> ext2_super \<Rightarrow> ext2_basic \<Rightarrow> u8 list \<Rightarrow> 'w \<Rightarrow>
   (u64 \<times> (u64 \<times> u8 list) option \<times> 'w) res option" where
  "lookup_inode K super dir filename w =
     run_bind (ext2_get_inode_in_dir K (Some dir) (Some filename) w) (\<lambda>(inode, w1).
       Some (res_bind (ext2_read_inode K (Some super) inode w1) (\<lambda>(node, w2). Inr (inode, node, w2))))"

definition stat_by_name ::
  "('w, 'z) kernel_scheme \<Rightarrow> ext2_super \<Rightarrow> ext2_basic \<Rightarrow> u8 list \<Rightarrow> stat_buf \<Rightarrow> 'w \<Rightarrow>
   (int \<times> stat_buf option \<times> 'w) res option" where
  "stat_by_name K super dir filename sb w =
     run_bind (lookup_inode K super dir filename w) (\<lambda>(inode, node, w1).
       case node of None \<Rightarrow> Some (Inr (- 1, Some sb, w1))
       | Some (p, m) \<Rightarrow> Some (res_bind (node_type_perms m) (\<lambda>mode. Inr (0, Some (sb\<lparr>st_mode := ucast mode\<rparr>), w1))))"

definition stat_ext2_super ::
  "('w, 'z) kernel_scheme \<Rightarrow> ext2_super resource option \<Rightarrow> u8 list option \<Rightarrow> stat_buf option \<Rightarrow> 'w \<Rightarrow>
   (int \<times> stat_buf option \<times> 'w) res option" where
  "stat_ext2_super K res filename stat w =
     (case (res, stat) of
        (Some r, Some sb) \<Rightarrow>
          (case filename of None \<Rightarrow> Some (Inr (0, stat, w))
           | Some f \<Rightarrow>
             (case driver_state r of None \<Rightarrow> Some (Inl Null_Deref)
              | Some st \<Rightarrow> stat_by_name K st (es_basic st) f sb w))
      | _ \<Rightarrow> Some (Inr (- 1, stat, w)))"

text \<open>
  \<open>struct ext2_locate_args\<close>, passed on to the node drivers. The super driver's state does not change
  after mounting, so the pointer to it is its value.
\<close>

record ext2_locate_args =
  la_self :: u64
  la_node :: "(u64 \<times> u8 list) option"
  la_super :: ext2_super
  la_inode :: u32

definition locate_by_name ::
  "('w, 'z) kernel_scheme \<Rightarrow> ext2_super \<Rightarrow> ext2_basic \<Rightarrow> u8 list \<Rightarrow> 'w \<Rightarrow>
   (ext2_locate_args option \<times> 'w) res option" where
  "locate_by_name K super dir filename w =
     (case k_alloc K 24 w of (p, w1) \<Rightarrow>
        if p = 0 then Some (Inr (None, w1))
        else run_bind (lookup_inode K super dir filename w1) (\<lambda>(inode, node, w2).
               Some (Inr (Some \<lparr>la_self = p, la_node = node, la_super = super, la_inode = ucast inode\<rparr>, w2))))"

definition locate_ext2_super ::
  "('w, 'z) kernel_scheme \<Rightarrow> ext2_super resource option \<Rightarrow> u8 list option \<Rightarrow> 'w \<Rightarrow>
   (ext2_locate_args option \<times> 'w) res option" where
  "locate_ext2_super K res filename w =
     (case (res, filename) of
        (Some r, Some f) \<Rightarrow>
          (case driver_state r of
             None \<Rightarrow> (case k_alloc K 24 w of (p, w1) \<Rightarrow> if p = 0 then Some (Inr (None, w1)) else Some (Inl Null_Deref))
           | Some st \<Rightarrow> locate_by_name K st (es_basic st) f w)
      | _ \<Rightarrow> Some (Inr (None, w)))"

section \<open>Block allocation\<close>

text \<open>
  Nothing in the repository calls these two. The bitmap and the result are arrays of 64-bit words; a
  store past the end of the result is a fault. \<open>max\<close> and \<open>count\<close> are 32-bit values.
\<close>

definition word64_at :: "u8 list \<Rightarrow> nat \<Rightarrow> u64" where
  "word64_at m i = le_at m (8 * i) 8"

definition store_ret :: "u64 list \<Rightarrow> nat \<Rightarrow> nat \<Rightarrow> u64 \<Rightarrow> u64 list res" where
  "store_ret ret room i v =
     (if i < room then Inr (ret @ [v]) else Inl Out_Of_Bounds)"

text \<open>\<open>__builtin_ffs\<close> takes an \<open>int\<close>: the low half of the word. It is 0 when no bit is set.\<close>

definition builtin_ffs :: "u64 \<Rightarrow> int" where
  "builtin_ffs v =
     (case find (\<lambda>i. bit (ucast v :: u32) i) [0..<32] of None \<Rightarrow> 0 | Some i \<Rightarrow> int i + 1)"

fun take_bits ::
  "('w, 'z) kernel_scheme \<Rightarrow> u64 \<Rightarrow> nat \<Rightarrow> nat \<Rightarrow> u64 \<Rightarrow> u32 \<Rightarrow> u64 list \<Rightarrow> (u64 \<times> u32 \<times> u64 list) res" where
  "take_bits K range_start room 0 word cnt ret = Inr (word, cnt, ret)"
| "take_bits K range_start room (Suc n) word cnt ret =
     (if cnt = 0 then Inr (word, cnt, ret)
      else let free_idx = builtin_ffs (NOT word) - 1
           in if free_idx < 0 then Inl Bad_Shift
              else res_bind (store_ret ret room (length ret) ((range_start + word_of_int free_idx) OR push_bit 32 1)) (\<lambda>ret'.
                take_bits K range_start room n (k_masked_write K word 1 (nat free_idx) 1) (cnt - 1) ret'))"

text \<open>The loop over the words of the bitmap, with \<open>n\<close> left.\<close>

fun take_words ::
  "('w, 'z) kernel_scheme \<Rightarrow> u64 \<Rightarrow> nat \<Rightarrow> u8 list \<Rightarrow> nat \<Rightarrow> nat \<Rightarrow> u32 \<Rightarrow> u64 list \<Rightarrow> u64 list res" where
  "take_words K base room bmp offset 0 cnt ret = Inr ret"
| "take_words K base room bmp offset (Suc n) cnt ret =
     (let range_start = base + push_bit 3 (word_of_nat offset); word = word64_at bmp offset
      in if word = 0
         then (let max_blocks = (ucast (k_min K (ucast cnt) 64) :: u32)
               in if max_blocks \<ge> 64 then Inl Bad_Shift
                  else res_bind (store_ret ret room (length ret)
                                   (range_start OR push_bit 32 (ucast (max_blocks - 1)))) (\<lambda>ret'.
                         take_words K base room bmp (Suc offset) n cnt ret'))
         else res_bind (take_bits K range_start room 64 word cnt ret) (\<lambda>(word', cnt', ret').
                take_words K base room bmp (Suc offset) n cnt' ret'))"

fun pick_group :: "u8 list \<Rightarrow> u64 \<Rightarrow> u64 \<Rightarrow> u32 \<Rightarrow> nat \<Rightarrow> nat \<Rightarrow> int res" where
  "pick_group tbl groups start cnt i 0 = Inr (- 1)"
| "pick_group tbl groups start cnt i (Suc n) =
     (let g = (start + word_of_nat i) mod groups
      in res_bind (desc_unallocated_blocks tbl (unat g)) (\<lambda>u.
           if (ucast u :: u32) \<ge> cnt then Inr (sint (ucast g :: u32)) else pick_group tbl groups start cnt (Suc i) n))"

definition ext2_allocate_blocks ::
  "('w, 'z) kernel_scheme \<Rightarrow> ext2_super option \<Rightarrow> u32 \<Rightarrow> u32 \<Rightarrow> 'w \<Rightarrow> (u64 list option \<times> 'w) res" where
  "ext2_allocate_blocks K state inode cnt w =
     (case state of None \<Rightarrow> Inr (None, w)
      | Some st \<Rightarrow>
        if inode = 0 \<or> cnt = 0 then Inr (None, w)
        else if sb_inodes_per_group (es_super st) = 0 then Inl Div_By_Zero
        else
          let block_group = ucast ((inode - 1) div sb_inodes_per_group (es_super st));
              tbl = (case es_table st of None \<Rightarrow> [] | Some (p, m) \<Rightarrow> m);
              bs = eb_block_size (es_basic st); drive = eb_partition (es_basic st)
          in res_bind (pick_group tbl (es_count st) block_group cnt 0 (unat (es_count st))) (\<lambda>use_group.
            if use_group = - 1 then Inr (None, w)
            else case k_alloc K (ucast (cnt * 8)) w of (rp, w1) \<Rightarrow>
              if rp = 0 then Inr (None, w1)
              else case k_alloc K bs w1 of (bp, w2) \<Rightarrow>
                if bp = 0 then Inr (None, k_free K rp w2)
                else if use_group < 0 then Inl Out_Of_Bounds
                else res_bind (desc_usage_bmp_block tbl (nat use_group)) (\<lambda>bmp_block.
                  let w3 = k_vfs_seek K drive (ucast bmp_block * bs) w2
                  in case k_vfs_read K drive 1 bs w3 of (n, bytes, w4) \<Rightarrow>
                    res_bind (mem_write (fresh_bytes K bp bs) 0 bytes) (\<lambda>bmp.
                    res_bind (desc_inode_table_start tbl (nat use_group)) (\<lambda>start.
                      if bs = 0 then Inl Div_By_Zero
                      else let base = k_align_up K (ucast start + bs * 8 * ucast (sb_inode_size (es_super st))) bs div bs
                        in res_bind (take_words K base (unat (ucast (cnt * 8) :: u64) div 8) bmp 0 (unat (bs div 8)) cnt [])
                             (\<lambda>ret. Inr (Some ret, w4)))))))"

definition ext2_delete_inode :: "ext2_super option \<Rightarrow> u32 \<Rightarrow> int" where
  "ext2_delete_inode state inode = - 1"

definition create_ext2_super :: "ext2_super resource option \<Rightarrow> u8 list option \<Rightarrow> u32 \<Rightarrow> int \<Rightarrow> int" where
  "create_ext2_super res name mode typ = (if res = None \<or> name = None \<or> mode = 0 \<or> typ = 0 then - 1 else 0)"

definition remove_ext2_super :: "ext2_super resource option \<Rightarrow> u8 list option \<Rightarrow> int" where
  "remove_ext2_super res name = (if res = None \<or> name = None then - 1 else 0)"

text \<open>Control packets; data are byte lists.\<close>

record control_instruction =
  ci_command :: u32
  ci_size :: u64
  ci_data :: "u8 list option"

record control_response =
  cr_type :: u32
  cr_size :: u64
  cr_data :: "u8 list option"

definition control_ext2_super :: "ext2_super resource option \<Rightarrow> control_instruction option \<Rightarrow> control_response" where
  "control_ext2_super res inst = \<lparr>cr_type = 0, cr_size = 0, cr_data = None\<rparr>"

end
