(* ===== verification/Ext2_Nodes.thy ===== *)
theory Ext2_Nodes
  imports Ext2_Super
begin

text \<open>
  \<open>src/c/sysfs/ext2/directory.c\<close> and \<open>file.c\<close>: the drivers for one directory or file of an ext2
  partition. Each gets what the super or directory driver located (\<open>ext2_locate_args\<close>) and opens the
  partition again. The state structure is not cleared: \<open>attributes\<close> keeps whatever the memory held.
\<close>

record ext2_node =
  en_self :: u64
  en_super :: ext2_super
  en_basic :: ext2_basic

text \<open>
  Offsets in \<open>struct ext2_node_driver_state\<close> (48 bytes): the handle at 8, the attributes at 24. Both
  files have the same \<open>init\<close>.
\<close>

definition init_ext2_node ::
  "('w, 'z) kernel_scheme \<Rightarrow> ext2_node resource option \<Rightarrow> ext2_locate_args option \<Rightarrow> 'w rsys \<Rightarrow>
   (int \<times> ext2_node resource option \<times> 'w rsys) res" where
  "init_ext2_node K res args s =
     (case (res, args) of
        (Some r, Some a) \<Rightarrow>
          (case k_alloc K 48 (env s) of (p, w1) \<Rightarrow>
             if p = 0 then Inr (- 2, res, s\<lparr>env := w1\<rparr>)
             else let m = fresh_bytes K p 48
               in case es_path (la_super a) of None \<Rightarrow> Inl Null_Deref
                | Some (pp, path) \<Rightarrow>
                  (case k_vfs_open K path (le_at m 8 8) w1 of (drive, w2) \<Rightarrow>
                     if drive = 0 then Inr (- 3, res, s\<lparr>env := k_free K p w2\<rparr>)
                     else let st = \<lparr>en_self = p, en_super = la_super a,
                            en_basic = \<lparr>eb_partition = drive, eb_node = la_node a, eb_attributes = le_at m 24 8,
                              eb_block_size = eb_block_size (es_basic (la_super a)), eb_inode = la_inode a\<rparr>\<rparr>
                       in Inr (0, Some (r\<lparr>driver_state := Some st\<rparr>), s\<lparr>env := k_free K (la_self a) w2\<rparr>)))
      | _ \<Rightarrow> Inr (- 1, res, s))"

definition uninit_ext2_node ::
  "('w, 'z) kernel_scheme \<Rightarrow> ext2_node resource option \<Rightarrow> 'w rsys \<Rightarrow> (int \<times> 'w rsys) res" where
  "uninit_ext2_node K res s =
     (case res of None \<Rightarrow> Inr (- 1, s)
      | Some r \<Rightarrow>
        let p = (case driver_state r of None \<Rightarrow> 0 | Some st \<Rightarrow> en_self st)
        in Inr (0, s\<lparr>env := k_free K p (env s)\<rparr>))"

section \<open>Directories\<close>

definition init_ext2_directory ::
  "('w, 'z) kernel_scheme \<Rightarrow> ext2_node resource option \<Rightarrow> ext2_locate_args option \<Rightarrow> 'w rsys \<Rightarrow>
   (int \<times> ext2_node resource option \<times> 'w rsys) res" where
  "init_ext2_directory = init_ext2_node"

definition uninit_ext2_directory ::
  "('w, 'z) kernel_scheme \<Rightarrow> ext2_node resource option \<Rightarrow> 'w rsys \<Rightarrow> (int \<times> 'w rsys) res" where
  "uninit_ext2_directory = uninit_ext2_node"

definition read_ext2_directory :: "u8 list option \<Rightarrow> u64 \<Rightarrow> u64 \<Rightarrow> u64 option \<Rightarrow> ext2_node resource option \<Rightarrow> u64" where
  "read_ext2_directory buffer sz cnt file res =
     (if buffer = None \<or> sz = 0 \<or> cnt = 0 \<or> file = None \<or> res = None then 0 else 0)"

definition write_ext2_directory :: "u8 list option \<Rightarrow> u64 \<Rightarrow> u64 \<Rightarrow> u64 option \<Rightarrow> ext2_node resource option \<Rightarrow> u64" where
  "write_ext2_directory buffer sz cnt file res =
     (if buffer = None \<or> sz = 0 \<or> cnt = 0 \<or> file = None \<or> res = None then 0 else 0)"

definition stat_ext2_directory ::
  "('w, 'z) kernel_scheme \<Rightarrow> ext2_node resource option \<Rightarrow> u8 list option \<Rightarrow> stat_buf option \<Rightarrow> 'w \<Rightarrow>
   (int \<times> stat_buf option \<times> 'w) res option" where
  "stat_ext2_directory K res filename stat w =
     (case (res, stat) of
        (Some r, Some sb) \<Rightarrow>
          (case filename of None \<Rightarrow> Some (Inr (0, stat, w))
           | Some f \<Rightarrow>
             (case driver_state r of None \<Rightarrow> Some (Inl Null_Deref)
              | Some st \<Rightarrow> stat_by_name K (en_super st) (en_basic st) f sb w))
      | _ \<Rightarrow> Some (Inr (- 1, stat, w)))"

definition locate_ext2_directory ::
  "('w, 'z) kernel_scheme \<Rightarrow> ext2_node resource option \<Rightarrow> u8 list option \<Rightarrow> 'w \<Rightarrow>
   (ext2_locate_args option \<times> 'w) res option" where
  "locate_ext2_directory K res filename w =
     (case (res, filename) of
        (Some r, Some f) \<Rightarrow>
          (case driver_state r of
             None \<Rightarrow> (case k_alloc K 24 w of (p, w1) \<Rightarrow> if p = 0 then Some (Inr (None, w1)) else Some (Inl Null_Deref))
           | Some st \<Rightarrow> locate_by_name K (en_super st) (en_basic st) f w)
      | _ \<Rightarrow> Some (Inr (None, w)))"

section \<open>Files\<close>

definition init_ext2_file ::
  "('w, 'z) kernel_scheme \<Rightarrow> ext2_node resource option \<Rightarrow> ext2_locate_args option \<Rightarrow> 'w rsys \<Rightarrow>
   (int \<times> ext2_node resource option \<times> 'w rsys) res" where
  "init_ext2_file = init_ext2_node"

definition uninit_ext2_file ::
  "('w, 'z) kernel_scheme \<Rightarrow> ext2_node resource option \<Rightarrow> 'w rsys \<Rightarrow> (int \<times> 'w rsys) res" where
  "uninit_ext2_file = uninit_ext2_node"

definition read_ext2_file ::
  "('w, 'z) kernel_scheme \<Rightarrow> u8 list option \<Rightarrow> u64 \<Rightarrow> u64 \<Rightarrow> u64 option \<Rightarrow> ext2_node resource option \<Rightarrow> 'w \<Rightarrow>
   (u64 \<times> u8 list option \<times> 'w) res option" where
  "read_ext2_file K buffer sz cnt file res w =
     (case (buffer, file, res) of
        (Some buf, Some offset, Some r) \<Rightarrow>
          if sz = 0 \<or> cnt = 0 then Some (Inr (0, buffer, w))
          else (case driver_state r of None \<Rightarrow> Some (Inl Null_Deref)
                | Some st \<Rightarrow> ext2_read_inode_data K (Some (en_basic st)) buffer offset (sz * cnt) w)
      | _ \<Rightarrow> Some (Inr (0, buffer, w)))"

definition write_ext2_file ::
  "('w, 'z) kernel_scheme \<Rightarrow> u8 list option \<Rightarrow> u64 \<Rightarrow> u64 \<Rightarrow> u64 option \<Rightarrow> ext2_node resource option \<Rightarrow> 'w \<Rightarrow>
   (u64 \<times> 'w) res option" where
  "write_ext2_file K buffer sz cnt file res w =
     (case (buffer, file, res) of
        (Some buf, Some offset, Some r) \<Rightarrow>
          if sz = 0 \<or> cnt = 0 then Some (Inr (0, w))
          else (case driver_state r of None \<Rightarrow> Some (Inr (0, w))
                | Some st \<Rightarrow> ext2_write_inode_data K (Some (Some (en_super st), en_basic st)) buffer offset (sz * cnt) w)
      | _ \<Rightarrow> Some (Inr (0, w)))"

definition stat_ext2_file ::
  "ext2_node resource option \<Rightarrow> u8 list option \<Rightarrow> stat_buf option \<Rightarrow> (int \<times> stat_buf option) res" where
  "stat_ext2_file res filename stat =
     (case (res, stat) of
        (Some r, Some sb) \<Rightarrow>
          (case driver_state r of None \<Rightarrow> Inl Null_Deref
           | Some st \<Rightarrow>
             (case eb_node (en_basic st) of None \<Rightarrow> Inl Null_Deref
              | Some (p, m) \<Rightarrow>
                res_bind (node_type_perms m) (\<lambda>mode. res_bind (node_size_low m) (\<lambda>n.
                  Inr (0, Some (sb\<lparr>st_mode := ucast mode, st_size := ucast n\<rparr>))))))
      | _ \<Rightarrow> Inr (- 1, stat))"

end
