(* ===== verification/Ext2_Read.thy ===== *)
theory Ext2_Read
  imports Ext2_Util Sim_Kernel
begin

text \<open>
  Reading inode data through the direct and singly indirect blocks, against an abstract view of the
  file: which block of the disk holds the file's block \<open>i\<close>, and which byte of the disk holds the
  file's byte \<open>k\<close>. Then what the walk does outside that range.
\<close>

section \<open>The abstract file\<close>

definition ptr_at :: "u8 list \<Rightarrow> nat \<Rightarrow> u32" where
  "ptr_at m k = le_at m k 4"

definition index_block :: "u8 list \<Rightarrow> nat \<Rightarrow> u8 list \<Rightarrow> u8 list" where
  "index_block D B m = bytes_at (unat (ptr_at m 88) * B) B D"

text \<open>
  The disk block that the walk takes for the file's block \<open>i\<close>, for \<open>i < 12 + B\<close>. The format gives
  the singly indirect table only \<open>B div 4\<close> blocks; the next ones are behind the doubly indirect table
  (\<open>ext2_block\<close>).
\<close>

definition inode_block :: "u8 list \<Rightarrow> nat \<Rightarrow> u8 list \<Rightarrow> nat \<Rightarrow> u32" where
  "inode_block D B m i =
     (if i < 12 then ptr_at m (40 + 4 * i) else ptr_at (index_block D B m) (4 * ((i - 12) mod (B div 4))))"

definition ext2_block :: "u8 list \<Rightarrow> nat \<Rightarrow> u8 list \<Rightarrow> nat \<Rightarrow> u32" where
  "ext2_block D B m i =
     (let P = B div 4; block = (\<lambda>b. bytes_at (unat b * B) B D)
      in if i < 12 then ptr_at m (40 + 4 * i)
         else if i < 12 + P then ptr_at (block (ptr_at m 88)) (4 * (i - 12))
         else let j = i - 12 - P
              in ptr_at (block (ptr_at (block (ptr_at m 92)) (4 * (j div P)))) (4 * (j mod P)))"

lemma inode_block_is_ext2: "i < 12 + B div 4 \<Longrightarrow> inode_block D B m i = ext2_block D B m i"
  by (auto simp: inode_block_def ext2_block_def index_block_def Let_def)

definition inode_byte :: "u8 list \<Rightarrow> nat \<Rightarrow> u8 list \<Rightarrow> nat \<Rightarrow> u8" where
  "inode_byte D B m k = D ! (unat (inode_block D B m (k div B)) * B + k mod B)"

definition inode_data :: "u8 list \<Rightarrow> nat \<Rightarrow> u8 list \<Rightarrow> nat \<Rightarrow> nat \<Rightarrow> u8 list" where
  "inode_data D B m off n = map (\<lambda>k. inode_byte D B m (off + k)) [0..<n]"

definition block_on_disk :: "u8 list \<Rightarrow> nat \<Rightarrow> u32 \<Rightarrow> bool" where
  "block_on_disk D B b \<longleftrightarrow> b \<noteq> 0 \<and> unat b * B + B \<le> length D"

text \<open>Every block up to index \<open>n\<close> is there, and so is the table when it is needed.\<close>

definition mapped_upto :: "u8 list \<Rightarrow> nat \<Rightarrow> u8 list \<Rightarrow> nat \<Rightarrow> bool" where
  "mapped_upto D B m n \<longleftrightarrow> 4 \<le> B \<and> 128 \<le> length m \<and> n \<le> 12 + B \<and>
     (\<forall>i < n. block_on_disk D B (inode_block D B m i)) \<and> (12 < n \<longrightarrow> block_on_disk D B (ptr_at m 88))"

lemma length_inode_data [simp]: "length (inode_data D B m off n) = n"
  by (simp add: inode_data_def)

definition ext2_data :: "u8 list \<Rightarrow> nat \<Rightarrow> u8 list \<Rightarrow> nat \<Rightarrow> nat \<Rightarrow> u8 list" where
  "ext2_data D B m off n =
     map (\<lambda>k. D ! (unat (ext2_block D B m ((off + k) div B)) * B + (off + k) mod B)) [0..<n]"

lemma inode_data_is_ext2:
  assumes "off + n \<le> (12 + B div 4) * B"
  shows "inode_data D B m off n = ext2_data D B m off n"
proof -
  have "(off + k) div B < 12 + B div 4" if "k < n" for k
    using assms that by (intro less_mult_imp_div_less) simp
  then show ?thesis by (simp add: inode_data_def ext2_data_def inode_byte_def inode_block_is_ext2)
qed

lemma inode_data_append: "inode_data D B m off (a + b) = inode_data D B m off a @ inode_data D B m (off + a) b"
  by (rule nth_equalityI) (auto simp: inode_data_def nth_append)

text \<open>Inside one block the file's bytes lie together on the disk.\<close>

lemma inode_data_in_block:
  assumes "off mod B + n \<le> B" and "unat (inode_block D B m (off div B)) * B + B \<le> length D"
  shows "inode_data D B m off n = bytes_at (unat (inode_block D B m (off div B)) * B + off mod B) n D"
proof (rule nth_equalityI)
  show "length (inode_data D B m off n) =
      length (bytes_at (unat (inode_block D B m (off div B)) * B + off mod B) n D)"
    using assms by simp
  fix i assume "i < length (inode_data D B m off n)"
  then have i: "i < n" by simp
  then have k: "off mod B + i < B" using assms(1) by simp
  have "off + i = off div B * B + (off mod B + i)" by (simp add: add.assoc [symmetric])
  then have "(off + i) div B = off div B" and "(off + i) mod B = off mod B + i"
    using k by (metis add_0_right div_less div_mult_self3 less_nat_zero_code mod_less mod_mult_self3 neq0_conv)+
  then show "inode_data D B m off n ! i =
      bytes_at (unat (inode_block D B m (off div B)) * B + off mod B) n D ! i"
    using i k assms(2) by (simp add: inode_data_def inode_byte_def nth_bytes_at add.assoc)
qed

lemma read_le32_ok: "k + 4 \<le> length m \<Longrightarrow> read_le32 m k = Inr (ptr_at m k)"
  by (simp add: read_le32_def ptr_at_def)

lemma node_fields:
  assumes "128 \<le> length m"
  shows "i < 12 \<Longrightarrow> node_dbp m i = Inr (ptr_at m (40 + 4 * i))" and "node_sibp m = Inr (ptr_at m 88)"
    and "node_dibp m = Inr (ptr_at m 92)" and "node_tibp m = Inr (ptr_at m 96)"
  using assms by (simp_all add: node_dbp_def node_sibp_def node_dibp_def node_tibp_def read_le32_ok)

section \<open>Addresses\<close>

lemma block_address:
  assumes "unat b * unat bs + j < 2 ^ 64"
  shows "unat (ucast (b :: u32) * bs + word_of_nat j :: u64) = unat b * unat bs + j"
proof -
  have b: "unat (ucast b :: u64) = unat b"
    using unsigned_less [of b, where 'a = nat] by (simp add: unsigned_ucast_eq take_bit_nat_eq_self)
  have "unat (ucast b * bs :: u64) = unat b * unat bs"
    unfolding unat_word_ariths b using assms by simp
  moreover have "unat (word_of_nat j :: u64) = j" using assms by (simp add: unat_of_nat)
  ultimately show ?thesis using assms by (simp add: unat_word_ariths)
qed

lemma ext2_load_block_nz: "b \<noteq> 0 \<Longrightarrow> ext2_load_block b create i = b"
  by (simp add: ext2_load_block_def)

lemma ext2_load_block_0 [simp]: "ext2_load_block 0 None i = 0"
  by (simp add: ext2_load_block_def)

text \<open>The block index and the offset in the block that a round computes.\<close>

lemma walk_position:
  assumes "d + o' < 2 ^ 64" and "unat t = d" and "unat off = o'" and "(bs :: u64) \<noteq> 0"
  shows "unat ((t + off) div bs) = (d + o') div unat bs"
    and "unat ((t + off) - (t + off) div bs * bs) = (d + o') mod unat bs"
proof -
  have s: "unat (t + off) = d + o'" using assms by (simp add: unat_word_ariths)
  show q: "unat ((t + off) div bs) = (d + o') div unat bs" by (simp add: unat_div s)
  have "(t + off) - (t + off) div bs * bs = (t + off) mod bs" by (simp add: minus_div_mult_eq_mod)
  then show "unat ((t + off) - (t + off) div bs * bs) = (d + o') mod unat bs" by (simp add: unat_mod s)
qed

section \<open>One round\<close>

lemma quarter_bound: "(x :: nat) < B div 4 \<Longrightarrow> 4 * x + 4 \<le> B"
  by presburger

lemma blit_whole: "length ys = length xs \<Longrightarrow> blit xs 0 ys = ys"
  by (simp add: blit_def)

text \<open>
  The tables between two rounds: only the singly indirect table may be in memory, with the bytes
  it has on the disk.
\<close>

definition tables_ok :: "u8 list \<Rightarrow> nat \<Rightarrow> u8 list \<Rightarrow> 'w traverse \<Rightarrow> bool" where
  "tables_ok D B m t \<longleftrightarrow> tr_dibp t = None \<and> tr_tibp t = None \<and> tr_last_doubly t = 0 \<and> tr_last_triply t = 0 \<and>
     (case tr_sibp t of None \<Rightarrow> True
      | Some (p, tbl) \<Rightarrow> block_on_disk D B (ptr_at m 88) \<and> tbl = index_block D B m)"

context vfs_disk begin

lemma load_read_block_cases:
  assumes w: "ok w" and st: "eb_partition st = h" and b: "block_on_disk (disk w) (unat (eb_block_size st)) b"
    and B: "0 < unat (eb_block_size st)"
  obtains (nomem) w' where "fst (k_alloc K (eb_block_size st) w) = 0"
      "ext2_load_read_block K st b create None w = Inr (- 2, None, w')" "ok w'" "disk w' = disk w"
  | (loaded) p w' where
      "ext2_load_read_block K st b create None w =
        Inr (0, Some (p, bytes_at (unat b * unat (eb_block_size st)) (unat (eb_block_size st)) (disk w)), w')"
      "ok w'" "disk w' = disk w"
proof -
  let ?bs = "eb_block_size st"
  obtain p w1 where a: "k_alloc K ?bs w = (p, w1)" by fastforce
  have w1: "ok w1" "disk w1 = disk w" using alloc_frame [OF w, of ?bs] a by simp_all
  show thesis
  proof (cases "p = 0")
    case True
    then show thesis using nomem [of w1] a w1 by (simp add: ext2_load_read_block_def)
  next
    case False
    have len: "unat b * unat ?bs + unat ?bs \<le> length (disk w1)" and nz: "b \<noteq> 0"
      using b w1 by (simp_all add: block_on_disk_def)
    have addr: "unat (ucast b * ?bs) = unat b * unat ?bs"
      using block_address [of b ?bs 0] len disk_size [OF w1(1)] by simp
    obtain w2 where w2: "k_vfs_read K h 1 ?bs (k_vfs_seek K h (ucast b * ?bs) w1) =
        (1 * ?bs, bytes_at (unat (ucast b * ?bs)) (unat (1 :: u64) * unat ?bs) (disk w1), w2)" "ok w2" "disk w2 = disk w1"
      by (rule seek_read [OF w1(1), of 1 ?bs "ucast b * ?bs"]) (use B len addr in simp_all)
    let ?new = "bytes_at (unat b * unat ?bs) (unat ?bs) (disk w1)"
    have "mem_write (fresh_bytes K p ?bs) 0 ?new = Inr ?new"
      using len B by (simp add: mem_write_ok blit_whole)
    then have "ext2_load_read_block K st b create None w = Inr (0, Some (p, ?new), w2)"
      using a False w2(1) nz st
      by (simp add: ext2_load_read_block_def Let_def addr ext2_load_block_nz)
    then show thesis using loaded w1 w2 by simp
  qed
qed

text \<open>
  A round at a mapped block: the callback runs on the block the abstract file has there, or, when the
  table has to be loaded and there is no memory for it, the walk ends.
\<close>

lemma round_resolves:
  assumes ok: "ok (tr_world t)" and D: "disk (tr_world t) = D"
    and st: "eb_partition st = h" "eb_node st = Some (np, m)" "unat (eb_block_size st) = B"
    and mapped: "mapped_upto D B m n" and tabs: "tables_ok D B m t"
    and pos: "d + unat off < 2 ^ 64" "unat (tr_traversed t) = d" "(d + unat off) div B < n"
  obtains (nomem) t' where "traverse_round K st off cb create t = Inr (Traverse_Exit t')"
      "12 \<le> (d + unat off) div B" "fst (k_alloc K (eb_block_size st) (tr_world t)) = 0" "tables_ok D B m t'"
      "ok (tr_world t')" "disk (tr_world t') = D" "tr_traversed t' = tr_traversed t" "tr_buffer t' = tr_buffer t"
  | (does) t' jank where "traverse_round K st off cb create t =
        traverse_do cb (inode_block D B m ((d + unat off) div B)) jank t'"
      "unat jank = (d + unat off) mod B" "tables_ok D B m t'"
      "ok (tr_world t')" "disk (tr_world t') = D" "tr_traversed t' = tr_traversed t" "tr_buffer t' = tr_buffer t"
proof -
  let ?bs = "eb_block_size st"
  have B: "4 \<le> B" "128 \<le> length m" "n \<le> 12 + B" using mapped by (simp_all add: mapped_upto_def)
  then have nz: "?bs \<noteq> 0" using st(3) by auto
  let ?base = "(tr_traversed t + off) div ?bs" and ?jank = "(tr_traversed t + off) - (tr_traversed t + off) div ?bs * ?bs"
  let ?i = "(d + unat off) div B"
  have base: "unat ?base = ?i" and jank: "unat ?jank = (d + unat off) mod B"
    using walk_position [OF pos(1,2) refl nz] st(3) by simp_all
  have blk: "block_on_disk D B (inode_block D B m ?i)"
    using mapped pos(3) by (simp add: mapped_upto_def)
  then have lb: "ext2_load_block (inode_block D B m ?i) create (eb_inode st) = inode_block D B m ?i"
    by (simp add: block_on_disk_def ext2_load_block_nz)
  show thesis
  proof (cases "?i < 12")
    case True
    have "(?base < 12) = True" using True base by (simp add: word_less_nat_alt)
    then have "traverse_round K st off cb create t = traverse_do cb (inode_block D B m ?i) ?jank t"
      using nz st(2) node_fields(1) [OF B(2) True] base lb True
      by (simp add: traverse_round_def Let_def inode_block_def)
    then show thesis using does [of ?jank t] jank tabs ok D by simp
  next
    case False
    let ?idx = "?base - 12"
    have g: "\<not> ?base < 12" using False base by (simp add: word_less_nat_alt)
    have idx: "unat ?idx = ?i - 12" using False base by (simp add: unat_sub_if_size)
    have "?i - 12 < B" using False pos(3) B(3) by linarith
    then have dbl: "?idx div ?bs = 0" using idx st(3) by (simp add: word_unat_eq_iff unat_div)
    have p4: "unat (?bs div 4) = B div 4" using st(3) by (simp add: unat_div)
    then have pc: "?bs div 4 \<noteq> 0" using B(1) by auto
    let ?sng = "?idx mod (?bs div 4)"
    have sng: "unat ?sng = (?i - 12) mod (B div 4)" using idx p4 by (simp add: unat_mod)
    have lt: "(?i - 12) mod (B div 4) < B div 4" using B(1) by (intro mod_less_divisor) simp
    have sib: "block_on_disk D B (ptr_at m 88)" using mapped pos(3) False by (simp add: mapped_upto_def)
    have idxlen: "length (index_block D B m) = B" using sib by (auto simp: block_on_disk_def index_block_def min_def)
    have entry: "read_le32 (index_block D B m) (4 * unat ?sng) = Inr (inode_block D B m ?i)"
    proof -
      have "4 * ((?i - 12) mod (B div 4)) + 4 \<le> B" by (rule quarter_bound [OF lt])
      then show ?thesis
        unfolding sng using read_le32_ok [of "4 * ((?i - 12) mod (B div 4))" "index_block D B m"] False idxlen
        by (simp add: inode_block_def)
    qed
    have use: "traverse_sibp st cb create ?sng ?jank t1 = traverse_do cb (inode_block D B m ?i) ?jank t1"
      if "tr_sibp t1 = Some (p, index_block D B m)" for t1 p
      using that entry lb by (simp add: traverse_sibp_def table_entry_def)
    have round: "traverse_round K st off cb create t =
        (if tr_sibp t = None
         then res_bind (ext2_load_read_block K st (ptr_at m 88) create None (tr_world t)) (\<lambda>(ret, sibp, w1).
                let t1 = t\<lparr>tr_sibp := sibp, tr_world := w1\<rparr>
                in if ret \<noteq> 0 then Inr (Traverse_Exit t1) else traverse_sibp st cb create ?sng ?jank t1)
         else traverse_sibp st cb create ?sng ?jank t)"
      using nz st(2) g pc dbl node_fields(2) [OF B(2)]
      by (simp only: traverse_round_def Let_def if_False option.case prod.case div_0 or.right_neutral res_bind_Inr if_True simp_thms)
    show thesis
    proof (cases "tr_sibp t")
      case (Some pt)
      then have "tr_sibp t = Some (fst pt, index_block D B m)"
        using tabs by (cases pt) (simp add: tables_ok_def)
      then show thesis using round use [of t "fst pt"] does [of ?jank t] jank tabs ok D by simp
    next
      case None
      have b: "block_on_disk (disk (tr_world t)) (unat ?bs) (ptr_at m 88)" using sib D st(3) by simp
      have Bp: "0 < unat ?bs" using B(1) st(3) by simp
      from ok st(1) b Bp show thesis
      proof (cases rule: load_read_block_cases [where create = create])
        case (nomem w')
        then show thesis
          using None round \<open>\<not> ?i < 12\<close> tabs D
          by (intro that(1) [of "t\<lparr>tr_sibp := None, tr_world := w'\<rparr>"]) (simp_all add: tables_ok_def)
      next
        case (loaded p w')
        let ?t1 = "t\<lparr>tr_sibp := Some (p, index_block D B m), tr_world := w'\<rparr>"
        have "traverse_round K st off cb create t = traverse_do cb (inode_block D B m ?i) ?jank ?t1"
          using None round loaded(1) use [of ?t1 p] D st(3) by (simp add: index_block_def)
        then show thesis using does [of ?jank ?t1] jank tabs sib loaded D by (simp add: tables_ok_def)
      qed
    qed
  qed
qed

lemma read_callback_ok:
  assumes w: "ok w" and st: "eb_partition st = h" "unat (eb_block_size st) = B" and law: "min_law K"
    and b: "block_on_disk (disk w) B b" and j: "unat jank < B" and d: "unat trav < unat sz" "unat sz \<le> length buf"
  obtains c w' where "ext2_read_callback K st sz b trav jank buf w =
      Inr (c, blit buf (unat trav) (bytes_at (unat b * B + unat jank) (unat c) (disk w)), w')"
    "ok w'" "disk w' = disk w" "unat c = min (B - unat jank) (unat sz - unat trav)"
proof -
  let ?c = "min (eb_block_size st - jank) (sz - trav)"
  have c: "unat ?c = min (B - unat jank) (unat sz - unat trav)"
    using st(2) j d(1) by (auto simp: min_def word_le_nat_alt unat_sub_if_size)
  have in_disk: "unat b * B + unat jank + unat ?c \<le> length (disk w)" and nz: "0 < unat (1 :: u64) * unat ?c"
    using b j d(1) by (auto simp: c block_on_disk_def)
  have addr: "unat (ucast b * eb_block_size st + jank) = unat b * B + unat jank"
    using block_address [of b "eb_block_size st" "unat jank"] in_disk disk_size [OF w] st(2) by simp
  obtain w' where w': "k_vfs_read K h 1 ?c (k_vfs_seek K h (ucast b * eb_block_size st + jank) w) =
      (1 * ?c, bytes_at (unat (ucast b * eb_block_size st + jank)) (unat (1 :: u64) * unat ?c) (disk w), w')"
      "ok w'" "disk w' = disk w"
    by (rule seek_read [OF w nz, of "ucast b * eb_block_size st + jank"]) (use in_disk addr in simp_all)
  let ?bs = "bytes_at (unat b * B + unat jank) (unat ?c) (disk w)"
  have "mem_write buf (unat trav) ?bs = Inr (blit buf (unat trav) ?bs)"
    using d in_disk c by (intro mem_write_ok) (auto simp: min_def)
  then have "ext2_read_callback K st sz b trav jank buf w = Inr (?c, blit buf (unat trav) ?bs, w')"
    using w'(1) law st(1) by (simp add: ext2_read_callback_def Let_def addr min_law_def)
  then show thesis using that [of ?c w'] w' c by simp
qed

lemma fill_more:
  assumes "length xs = d" and "d + length ys \<le> length buf"
  shows "blit (xs @ drop d buf) d ys = (xs @ ys) @ drop (d + length ys) buf"
  using assms by (simp add: blit_def add.commute)

lemma loop_reads:
  assumes st: "eb_partition st = h" "eb_node st = Some (np, m)" "unat (eb_block_size st) = B" and law: "min_law K"
    and mapped: "mapped_upto D B m n" and range: "unat off + unat sz \<le> n * B" "unat off + unat sz < 2 ^ 64"
    and room: "unat sz \<le> length buf"
    and "ok (tr_world t)" "disk (tr_world t) = D" "tables_ok D B m t" "unat (tr_traversed t) \<le> unat sz"
    and "tr_buffer t = inode_data D B m (unat off) (unat (tr_traversed t)) @ drop (unat (tr_traversed t)) buf"
  shows "\<exists>t'. traverse_loop K st off sz (ext2_read_callback K st sz) None t = Some (Inr t') \<and>
    ok (tr_world t') \<and> disk (tr_world t') = D \<and> tables_ok D B m t' \<and> unat (tr_traversed t') \<le> unat sz \<and>
    tr_buffer t' = inode_data D B m (unat off) (unat (tr_traversed t')) @ drop (unat (tr_traversed t')) buf \<and>
    (unat (tr_traversed t') = unat sz \<or>
     12 * B \<le> unat off + unat (tr_traversed t') \<and> (\<exists>w. ok w \<and> fst (k_alloc K (eb_block_size st) w) = 0))"
  using assms(9-13)
proof (induction "unat sz - unat (tr_traversed t)" arbitrary: t rule: less_induct)
  case less
  let ?d = "unat (tr_traversed t)"
  have B: "4 \<le> B" using mapped by (simp add: mapped_upto_def)
  show ?case
  proof (cases "tr_traversed t < sz")
    case False
    then have "?d = unat sz" using less.prems(4) by (simp add: word_less_nat_alt)
    then show ?thesis using False less.prems by (subst traverse_loop.simps) simp
  next
    case True
    then have lt: "?d < unat sz" by (simp add: word_less_nat_alt)
    have in_map: "(?d + unat off) div B < n" and sum: "?d + unat off < 2 ^ 64"
      using lt range B by (simp_all add: less_mult_imp_div_less)
    note round = round_resolves [OF less.prems(1,2) st mapped less.prems(3) sum refl in_map]
    let ?cb = "ext2_read_callback K st sz"
    show ?thesis
    proof (rule round [of ?cb None])
      fix t' assume t': "traverse_round K st off ?cb None t = Inr (Traverse_Exit t')"
        "12 \<le> (?d + unat off) div B" "fst (k_alloc K (eb_block_size st) (tr_world t)) = 0" "tables_ok D B m t'"
        "ok (tr_world t')" "disk (tr_world t') = D" "tr_traversed t' = tr_traversed t" "tr_buffer t' = tr_buffer t"
      have "12 * B \<le> unat off + ?d" using t'(2) B by (metis add.commute div_times_less_eq_dividend le_trans mult_le_mono1)
      then show ?thesis
        using True t' less.prems(1,4,5) by (subst traverse_loop.simps) auto
    next
      fix t' jank
      let ?b = "inode_block D B m ((?d + unat off) div B)"
      assume t': "traverse_round K st off ?cb None t = traverse_do ?cb ?b jank t'"
        "unat jank = (?d + unat off) mod B" "tables_ok D B m t'"
        "ok (tr_world t')" "disk (tr_world t') = D" "tr_traversed t' = tr_traversed t" "tr_buffer t' = tr_buffer t"
      have b: "block_on_disk D B ?b" using mapped in_map by (simp add: mapped_upto_def)
      have j: "unat jank < B" using t'(2) B by simp
      have len: "length (tr_buffer t) = length buf" using less.prems(5) lt room by simp
      obtain c w' where cb: "?cb ?b (tr_traversed t) jank (tr_buffer t) (tr_world t') =
          Inr (c, blit (tr_buffer t) ?d (bytes_at (unat ?b * B + unat jank) (unat c) (disk (tr_world t'))), w')"
        "ok w'" "disk w' = disk (tr_world t')" "unat c = min (B - unat jank) (unat sz - ?d)"
        by (rule read_callback_ok [OF t'(4) st(1,3) law, of ?b jank "tr_traversed t" sz "tr_buffer t"])
          (use b j lt room len t'(5) in simp_all)
      let ?t = "t'\<lparr>tr_traversed := tr_traversed t' + c, tr_buffer := blit (tr_buffer t) ?d
        (bytes_at (unat ?b * B + unat jank) (unat c) D), tr_world := w'\<rparr>"
      have nxt: "traverse_round K st off ?cb None t = Inr (Traverse_Next ?t)"
        using t' cb b by (simp add: traverse_do_def block_on_disk_def)
      have c: "unat c \<le> unat sz - ?d" "0 < unat c" "unat jank + unat c \<le> B" using cb(4) lt j by auto
      have trav: "unat (tr_traversed ?t) = ?d + unat c"
        using c(1) lt t'(6) unsigned_less [of sz, where 'a = nat] by (simp add: unat_word_ariths)
      have chunk: "bytes_at (unat ?b * B + unat jank) (unat c) D = inode_data D B m (unat off + ?d) (unat c)"
        using c(3) b t'(2) inode_data_in_block [of "unat off + ?d" B "unat c" D m]
        by (simp add: add.commute block_on_disk_def)
      have "tr_buffer ?t = inode_data D B m (unat off) (?d + unat c) @ drop (?d + unat c) buf"
        using fill_more [of "inode_data D B m (unat off) ?d" ?d "inode_data D B m (unat off + ?d) (unat c)" buf] c(1) lt room
        by (simp add: less.prems(5) chunk inode_data_append)
      then have buf: "tr_buffer ?t = inode_data D B m (unat off) (unat (tr_traversed ?t)) @ drop (unat (tr_traversed ?t)) buf"
        unfolding trav .
      have tabs: "tables_ok D B m ?t" using t'(3) by (simp add: tables_ok_def)
      have world: "ok (tr_world ?t)" "disk (tr_world ?t) = D" using cb t'(5) by simp_all
      have small: "unat (tr_traversed ?t) \<le> unat sz" "unat sz - unat (tr_traversed ?t) < unat sz - ?d"
        unfolding trav using c lt by simp_all
      have "traverse_loop K st off sz ?cb None t = traverse_loop K st off sz ?cb None ?t"
        using True nxt by (subst traverse_loop.simps) simp
      then show ?thesis by (simp only: less.hyps [OF small(2) world tabs small(1) buf])
    qed
  qed
qed

text \<open>At the end the only table is the unchanged one: writing it back changes nothing on the disk.\<close>

lemma exit_keeps_disk:
  assumes ok: "ok (tr_world t)" and D: "disk (tr_world t) = D" and tabs: "tables_ok D B m t"
    and st: "eb_partition st = h" "eb_node st = Some (np, m)" "unat (eb_block_size st) = B" and B: "4 \<le> B" "128 \<le> length m"
  obtains w' where "traverse_exit K st t = Inr (tr_traversed t, tr_buffer t, w')" "ok w'" "disk w' = D"
proof (cases "tr_sibp t")
  case None
  then show thesis using that [of "tr_world t"] tabs ok D by (simp add: traverse_exit_def close_table_def tables_ok_def)
next
  case (Some pt)
  then obtain p where p: "tr_sibp t = Some (p, index_block D B m)" and b: "block_on_disk D B (ptr_at m 88)"
    using tabs by (cases pt) (simp add: tables_ok_def)
  let ?w = "tr_world t" and ?bs = "eb_block_size st" and ?b = "ptr_at m 88"
  have fits: "unat ?b * B + B \<le> length D" using b by (simp add: block_on_disk_def)
  have len: "length (index_block D B m) = unat (1 :: u64) * unat ?bs"
    using fits st(3) by (simp add: index_block_def)
  have addr: "unat (ucast ?b * ?bs) = unat ?b * B"
    using block_address [of ?b ?bs 0] fits disk_size [OF ok] D st(3) by simp
  obtain w1 where w1: "k_vfs_write K h (index_block D B m) 1 ?bs (k_vfs_seek K h (ucast ?b * ?bs) ?w) = (1 * ?bs, w1)"
      "ok w1" "disk w1 = blit (disk ?w) (unat (ucast ?b * ?bs)) (index_block D B m)"
    by (rule seek_write [OF ok _ len, of "ucast ?b * ?bs"]) (use B st(3) fits addr len D in simp_all)
  have same: "disk w1 = D" using w1(3) fits D unfolding addr by (simp add: index_block_def blit_self)
  have "mem_read (index_block D B m) 0 (unat ?bs) = Inr (index_block D B m)"
    using len bytes_at_all [of "index_block D B m"] by (simp add: mem_read_ok del: bytes_at_all)
  then have "close_table K st (node_block st node_sibp) (Some (p, index_block D B m)) ?w = Inr (k_free K p w1)"
    using w1(1) st node_fields(2) [OF B(2)] by (simp add: close_table_def node_block_def write_table_def Let_def)
  then have "traverse_exit K st t = Inr (tr_traversed t, tr_buffer t, k_free K p w1)"
    using tabs p by (simp add: traverse_exit_def tables_ok_def) (simp add: close_table_def)
  then show thesis using that free_frame [OF w1(2), of p] same by simp
qed

lemma read_inode_data_ok:
  assumes w: "ok w" "disk w = D"
    and st: "eb_partition st = h" "eb_node st = Some (np, m)" "unat (eb_block_size st) = B" and law: "min_law K"
    and mapped: "mapped_upto D B m n" and range: "unat off + unat sz \<le> n * B" "unat off + unat sz < 2 ^ 64"
    and room: "unat sz \<le> length buf"
  obtains k w' where "ext2_read_inode_data K (Some st) (Some buf) off sz w =
      Some (Inr (k, Some (blit buf 0 (inode_data D B m (unat off) (unat k))), w'))"
    "ok w'" "disk w' = D" "unat k \<le> unat sz"
    "k = sz \<or> 12 * B \<le> unat off + unat k \<and> (\<exists>w. ok w \<and> fst (k_alloc K (eb_block_size st) w) = 0)"
proof (cases "sz = 0")
  case True
  then show thesis
    using that [of 0 w] w by (simp add: ext2_read_inode_data_def inode_data_def)
next
  case False
  let ?t = "\<lparr>tr_traversed = 0, tr_sibp = None, tr_last_doubly = 0, tr_dibp = None, tr_last_triply = 0,
                 tr_tibp = None, tr_buffer = buf, tr_world = w\<rparr>"
  have B: "4 \<le> B" "128 \<le> length m" using mapped by (simp_all add: mapped_upto_def)
  have init: "ok (tr_world ?t)" "disk (tr_world ?t) = D" "tables_ok D B m ?t" "unat (tr_traversed ?t) \<le> unat sz"
    "tr_buffer ?t = inode_data D B m (unat off) (unat (tr_traversed ?t)) @ drop (unat (tr_traversed ?t)) buf"
    using w by (simp_all add: tables_ok_def inode_data_def)
  obtain t' where t': "traverse_loop K st off sz (ext2_read_callback K st sz) None ?t = Some (Inr t')"
    "ok (tr_world t')" "disk (tr_world t') = D" "tables_ok D B m t'" "unat (tr_traversed t') \<le> unat sz"
    "tr_buffer t' = inode_data D B m (unat off) (unat (tr_traversed t')) @ drop (unat (tr_traversed t')) buf"
    "unat (tr_traversed t') = unat sz \<or> 12 * B \<le> unat off + unat (tr_traversed t') \<and> (\<exists>w. ok w \<and> fst (k_alloc K (eb_block_size st) w) = 0)"
    using loop_reads [OF st law mapped range room init] by blast
  obtain w' where w': "traverse_exit K st t' = Inr (tr_traversed t', tr_buffer t', w')" "ok w'" "disk w' = D"
    by (rule exit_keeps_disk [OF t'(2,3,4) st B])
  have "tr_buffer t' = blit buf 0 (inode_data D B m (unat off) (unat (tr_traversed t')))"
    using t'(6) by (simp add: blit_def)
  then have "ext2_read_inode_data K (Some st) (Some buf) off sz w =
      Some (Inr (tr_traversed t', Some (blit buf 0 (inode_data D B m (unat off) (unat (tr_traversed t')))), w'))"
    using False t'(1) w'(1) by (simp add: ext2_read_inode_data_def ext2_traverse_blocks_def)
  then show thesis
    by (rule that) (use w' t' in \<open>auto simp: word_unat_eq_iff\<close>)
qed

end

end
