(* ===== verification/Ext2_Write.thy ===== *)
theory Ext2_Write
  imports Ext2_Read
begin

text \<open>
  Writing inode data: the blocks of the file get the new bytes, every other byte of the file and of
  the disk stays, and the tables are written back unchanged. The file's blocks have to be there
  already, since the driver cannot allocate any.
\<close>

section \<open>Blocks apart\<close>

definition blocks_apart :: "u8 list \<Rightarrow> nat \<Rightarrow> u8 list \<Rightarrow> nat \<Rightarrow> bool" where
  "blocks_apart D B m n \<longleftrightarrow> inj_on (inode_block D B m) {..<n} \<and>
     ptr_at m 88 \<notin> inode_block D B m ` {..<n}"

lemma in_block_range:
  fixes x y B r j c :: nat
  assumes "r < B" and "j + c \<le> B"
  shows "y * B + j \<le> x * B + r \<and> x * B + r < y * B + j + c \<longleftrightarrow> x = y \<and> j \<le> r \<and> r < j + c"
proof
  assume a: "y * B + j \<le> x * B + r \<and> x * B + r < y * B + j + c"
  then have "x * B + r = y * B + (x * B + r - y * B)" and "x * B + r - y * B < B" using a assms by linarith+
  then have "(x * B + r) div B = y" by (metis div_mult_self3 add.right_neutral div_less gr_implies_not0)
  then have "x = y" using assms(1) by simp
  with a show "x = y \<and> j \<le> r \<and> r < j + c" by simp
qed (use assms in auto)

text \<open>One chunk written into the file's block \<open>i\<close>.\<close>

lemma chunk_effect:
  assumes mapped: "mapped_upto D B m n" and ap: "blocks_apart D B m n" and i: "i < n" and j: "j + length ch \<le> B"
  defines "D' \<equiv> blit D (unat (inode_block D B m i) * B + j) ch"
  shows "length D' = length D" and "index_block D' B m = index_block D B m"
    and "q < n \<Longrightarrow> inode_block D' B m q = inode_block D B m q"
    and "k < n * B \<Longrightarrow> inode_byte D' B m k =
      (if k div B = i \<and> j \<le> k mod B \<and> k mod B < j + length ch then ch ! (k mod B - j) else inode_byte D B m k)"
proof -
  let ?b = "inode_block D B m i"
  have fits: "unat ?b * B + B \<le> length D" and B: "4 \<le> B"
    using mapped i by (simp_all add: mapped_upto_def block_on_disk_def)
  show len: "length D' = length D" unfolding D'_def using fits j by (intro length_blit) simp
  show idx: "index_block D' B m = index_block D B m"
  proof -
    let ?s = "ptr_at m 88"
    have "?s \<noteq> ?b" using ap i by (auto simp: blocks_apart_def)
    then have "unat ?s \<noteq> unat ?b" by (simp only: word_unat_eq_iff) simp
    then have "unat ?s * B + B \<le> unat ?b * B \<or> unat ?b * B + B \<le> unat ?s * B"
      by (metis add.commute linorder_neqE_nat mult_Suc mult_le_mono1 Suc_leI)
    then show ?thesis unfolding index_block_def D'_def using fits j by (intro bytes_at_blit_other) auto
  qed
  show same: "inode_block D' B m q = inode_block D B m q" if "q < n" for q
    using idx that by (auto simp: inode_block_def)
  show "inode_byte D' B m k =
      (if k div B = i \<and> j \<le> k mod B \<and> k mod B < j + length ch then ch ! (k mod B - j) else inode_byte D B m k)"
    if k: "k < n * B"
  proof -
    have q: "k div B < n" using k by (simp add: less_mult_imp_div_less)
    have r: "k mod B < B" using B by simp
    let ?x = "unat (inode_block D B m (k div B))"
    have p: "?x * B + k mod B < length D"
    proof -
      have "?x * B + B \<le> length D" using mapped q by (simp add: mapped_upto_def block_on_disk_def)
      then show ?thesis using r by linarith
    qed
    have eq: "(?x = unat ?b) = (k div B = i)"
      unfolding word_unat_eq_iff [symmetric] using ap q i by (auto simp: blocks_apart_def inj_on_def)
    have "D' ! (?x * B + k mod B) =
        (if unat ?b * B + j \<le> ?x * B + k mod B \<and> ?x * B + k mod B < unat ?b * B + j + length ch
         then ch ! (?x * B + k mod B - (unat ?b * B + j)) else D ! (?x * B + k mod B))"
      unfolding D'_def using fits j p by (intro nth_blit) simp_all
    then show ?thesis
      unfolding in_block_range [OF r j] inode_byte_def same [OF q] eq by auto
  qed
qed

lemma mapped_upto_same:
  assumes "mapped_upto D B m n" and "length D' = length D" and "\<And>q. q < n \<Longrightarrow> inode_block D' B m q = inode_block D B m q"
  shows "mapped_upto D' B m n"
  using assms by (simp add: mapped_upto_def block_on_disk_def)

lemma blocks_apart_same:
  assumes "blocks_apart D B m n" and "\<And>q. q < n \<Longrightarrow> inode_block D' B m q = inode_block D B m q"
  shows "blocks_apart D' B m n"
proof -
  have "inj_on (inode_block D' B m) {..<n} = inj_on (inode_block D B m) {..<n}"
    using assms(2) by (intro inj_on_cong) simp
  moreover have "inode_block D' B m ` {..<n} = inode_block D B m ` {..<n}"
    using assms(2) by (intro image_cong) simp_all
  ultimately show ?thesis using assms(1) by (simp add: blocks_apart_def)
qed

text \<open>The disk after the first \<open>d\<close> bytes of \<open>src\<close> went to offset \<open>off\<close> of the file.\<close>

definition file_written ::
  "nat \<Rightarrow> u8 list \<Rightarrow> nat \<Rightarrow> u8 list \<Rightarrow> nat \<Rightarrow> nat \<Rightarrow> u8 list \<Rightarrow> u8 list \<Rightarrow> bool" where
  "file_written B m n src off d D0 D \<longleftrightarrow> length D = length D0 \<and>
     index_block D B m = index_block D0 B m \<and>
     (\<forall>q < n. inode_block D B m q = inode_block D0 B m q) \<and>
     (\<forall>k < n * B. inode_byte D B m k =
        (if off \<le> k \<and> k < off + d then src ! (k - off) else inode_byte D0 B m k))"

lemma file_written_0: "file_written B m n src off 0 D D"
  by (auto simp: file_written_def)

lemma file_written_step:
  assumes wr: "file_written B m n src off d D0 D" and mapped: "mapped_upto D0 B m n" and ap: "blocks_apart D0 B m n"
    and i: "(off + d) div B < n" and c: "(off + d) mod B + c \<le> B" and src: "d + c \<le> length src"
  shows "file_written B m n src off (d + c) D0
    (blit D (unat (inode_block D B m ((off + d) div B)) * B + (off + d) mod B) (bytes_at d c src))"
proof -
  let ?i = "(off + d) div B" and ?j = "(off + d) mod B" and ?ch = "bytes_at d c src"
  let ?D = "blit D (unat (inode_block D B m ?i) * B + ?j) ?ch"
  have W: "length D = length D0" "index_block D B m = index_block D0 B m"
    "\<And>q. q < n \<Longrightarrow> inode_block D B m q = inode_block D0 B m q"
    "\<And>k. k < n * B \<Longrightarrow> inode_byte D B m k = (if off \<le> k \<and> k < off + d then src ! (k - off) else inode_byte D0 B m k)"
    using wr by (simp_all add: file_written_def)
  have lch: "length ?ch = c" using src by simp
  have j: "?j + length ?ch \<le> B" using c lch by simp
  have now: "mapped_upto D B m n" "blocks_apart D B m n"
    using mapped_upto_same [OF mapped W(1)] blocks_apart_same [OF ap] W(3) by blast+
  note E = chunk_effect [OF now i j]
  have B: "0 < B" using mapped by (simp add: mapped_upto_def)
  have here: "k div B = ?i \<and> ?j \<le> k mod B \<and> k mod B < ?j + c \<longleftrightarrow> off + d \<le> k \<and> k < off + d + c" for k
    using in_block_range [of "k mod B" B ?j c ?i "k div B"] B c by (simp add: div_mult_mod_eq)
  have at: "?ch ! (k mod B - ?j) = src ! (k - off)" if "off + d \<le> k" "k < off + d + c" for k
  proof -
    have k: "k div B = ?i" "?j \<le> k mod B" using here [of k] that by auto
    have "k = ?i * B + k mod B" using div_mult_mod_eq [of k B] k(1) by simp
    moreover have "off + d = ?i * B + ?j" by (simp add: div_mult_mod_eq)
    ultimately have "k mod B - ?j = k - (off + d)" using k(2) by linarith
    then show ?thesis using that src by (simp add: nth_bytes_at)
  qed
  have "inode_byte ?D B m k = (if off \<le> k \<and> k < off + (d + c) then src ! (k - off) else inode_byte D0 B m k)"
    if k: "k < n * B" for k
  proof (cases "off + d \<le> k \<and> k < off + d + c")
    case True
    then show ?thesis using E(4) [OF k] here [of k] at [of k] lch by (simp add: add.assoc)
  next
    case False
    then have "(off \<le> k \<and> k < off + (d + c)) = (off \<le> k \<and> k < off + d)" by auto
    moreover have "inode_byte ?D B m k = inode_byte D B m k"
      unfolding E(4) [OF k] lch using here [of k] False by (simp only: if_False)
    ultimately show ?thesis using W(4) [OF k] by simp
  qed
  then show ?thesis
    unfolding file_written_def using E(1,2,3) W(1,2,3) by simp
qed

text \<open>What was written is what the file holds afterwards.\<close>

lemma written_data:
  assumes "file_written B m n src off d D0 D" and "off + d \<le> n * B" and "d \<le> length src"
  shows "inode_data D B m off d = take d src"
    and "p + l \<le> n * B \<Longrightarrow> p + l \<le> off \<or> off + d \<le> p \<Longrightarrow> inode_data D B m p l = inode_data D0 B m p l"
  using assms by (auto simp: inode_data_def file_written_def intro!: nth_equalityI)

section \<open>The walk\<close>

context vfs_disk begin

lemma write_callback_ok:
  assumes w: "ok w" and st: "eb_partition st = h" "unat (eb_block_size st) = B" and law: "min_law K"
    and b: "block_on_disk (disk w) B b" and j: "unat jank < B" and d: "unat trav < unat sz" "unat sz \<le> length buf"
  obtains c w' where "ext2_write_callback K st sz b trav jank buf w = Inr (c, buf, w')"
    "ok w'" "disk w' = blit (disk w) (unat b * B + unat jank) (bytes_at (unat trav) (unat c) buf)"
    "unat c = min (B - unat jank) (unat sz - unat trav)"
proof -
  let ?c = "min (eb_block_size st - jank) (sz - trav)"
  have c: "unat ?c = min (B - unat jank) (unat sz - unat trav)"
    using st(2) j d(1) by (auto simp: min_def word_le_nat_alt unat_sub_if_size)
  have in_disk: "unat b * B + unat jank + unat ?c \<le> length (disk w)" and nz: "0 < unat (1 :: u64) * unat ?c"
    using b j d(1) by (auto simp: c block_on_disk_def)
  have addr: "unat (ucast b * eb_block_size st + jank) = unat b * B + unat jank"
    using block_address [of b "eb_block_size st" "unat jank"] in_disk disk_size [OF w] st(2) by simp
  let ?bs = "bytes_at (unat trav) (unat ?c) buf"
  have room: "unat trav + unat ?c \<le> length buf" using d c by linarith
  then have len: "length ?bs = unat (1 :: u64) * unat ?c" by simp
  obtain w' where w': "k_vfs_write K h ?bs 1 ?c (k_vfs_seek K h (ucast b * eb_block_size st + jank) w) = (1 * ?c, w')"
      "ok w'" "disk w' = blit (disk w) (unat (ucast b * eb_block_size st + jank)) ?bs"
    by (rule seek_write [OF w nz len, of "ucast b * eb_block_size st + jank"]) (use in_disk addr len in simp_all)
  have "mem_read buf (unat trav) (unat ?c) = Inr ?bs" using room by (rule mem_read_ok)
  then have "ext2_write_callback K st sz b trav jank buf w = Inr (?c, buf, w')"
    using w'(1) law st(1) by (simp add: ext2_write_callback_def Let_def min_law_def)
  then show thesis using that [of ?c w'] w' c by (simp add: addr)
qed

lemma loop_writes:
  assumes st: "eb_partition st = h" "eb_node st = Some (np, m)" "unat (eb_block_size st) = B" and law: "min_law K"
    and mapped: "mapped_upto D0 B m n" and ap: "blocks_apart D0 B m n"
    and range: "unat off + unat sz \<le> n * B" "unat off + unat sz < 2 ^ 64" and room: "unat sz \<le> length buf"
    and "ok (tr_world t)" "tables_ok (disk (tr_world t)) B m t" "unat (tr_traversed t) \<le> unat sz" "tr_buffer t = buf"
    and "file_written B m n buf (unat off) (unat (tr_traversed t)) D0 (disk (tr_world t))"
  shows "\<exists>t'. traverse_loop K st off sz (ext2_write_callback K st sz) create t = Some (Inr t') \<and>
    ok (tr_world t') \<and> tables_ok (disk (tr_world t')) B m t' \<and> unat (tr_traversed t') \<le> unat sz \<and>
    file_written B m n buf (unat off) (unat (tr_traversed t')) D0 (disk (tr_world t')) \<and>
    (unat (tr_traversed t') = unat sz \<or>
     12 * B \<le> unat off + unat (tr_traversed t') \<and> (\<exists>w. ok w \<and> fst (k_alloc K (eb_block_size st) w) = 0))"
  using assms(10-14)
proof (induction "unat sz - unat (tr_traversed t)" arbitrary: t rule: less_induct)
  case less
  let ?d = "unat (tr_traversed t)" and ?D = "disk (tr_world t)"
  have B: "4 \<le> B" using mapped by (simp add: mapped_upto_def)
  show ?case
  proof (cases "tr_traversed t < sz")
    case False
    then have "?d = unat sz" using less.prems(3) by (simp add: word_less_nat_alt)
    then show ?thesis using False less.prems by (subst traverse_loop.simps) simp
  next
    case True
    then have lt: "?d < unat sz" by (simp add: word_less_nat_alt)
    have in_map: "(?d + unat off) div B < n" and sum: "?d + unat off < 2 ^ 64"
      using lt range B by (simp_all add: less_mult_imp_div_less)
    have W: "length ?D = length D0" "\<And>q. q < n \<Longrightarrow> inode_block ?D B m q = inode_block D0 B m q"
      using less.prems(5) by (simp_all add: file_written_def)
    have now: "mapped_upto ?D B m n" using mapped_upto_same [OF mapped W(1)] W(2) by blast
    note round = round_resolves [OF less.prems(1) refl st now less.prems(2) sum refl in_map]
    let ?cb = "ext2_write_callback K st sz"
    show ?thesis
    proof (rule round [of ?cb create])
      fix t' assume t': "traverse_round K st off ?cb create t = Inr (Traverse_Exit t')"
        "12 \<le> (?d + unat off) div B" "fst (k_alloc K (eb_block_size st) (tr_world t)) = 0" "tables_ok ?D B m t'"
        "ok (tr_world t')" "disk (tr_world t') = ?D" "tr_traversed t' = tr_traversed t" "tr_buffer t' = tr_buffer t"
      have "12 * B \<le> unat off + ?d" using t'(2) B by (metis add.commute div_times_less_eq_dividend le_trans mult_le_mono1)
      then show ?thesis
        using True t' less.prems(1,3,5) by (subst traverse_loop.simps) auto
    next
      fix t' jank
      let ?b = "inode_block ?D B m ((?d + unat off) div B)"
      assume t': "traverse_round K st off ?cb create t = traverse_do ?cb ?b jank t'"
        "unat jank = (?d + unat off) mod B" "tables_ok ?D B m t'"
        "ok (tr_world t')" "disk (tr_world t') = ?D" "tr_traversed t' = tr_traversed t" "tr_buffer t' = tr_buffer t"
      have b: "block_on_disk ?D B ?b" using now in_map by (simp add: mapped_upto_def)
      have j: "unat jank < B" using t'(2) B by simp
      obtain c w' where cb: "?cb ?b (tr_traversed t) jank buf (tr_world t') = Inr (c, buf, w')"
        "ok w'" "disk w' = blit ?D (unat ?b * B + unat jank) (bytes_at ?d (unat c) buf)"
        "unat c = min (B - unat jank) (unat sz - ?d)"
        by (rule write_callback_ok [OF t'(4) st(1,3) law, of ?b jank "tr_traversed t" sz buf])
          (use b j lt room t'(5) in simp_all)
      let ?t = "t'\<lparr>tr_traversed := tr_traversed t' + c, tr_buffer := buf, tr_world := w'\<rparr>"
      have nxt: "traverse_round K st off ?cb create t = Inr (Traverse_Next ?t)"
        using t' cb b less.prems(4) by (simp add: traverse_do_def block_on_disk_def)
      have c: "unat c \<le> unat sz - ?d" "0 < unat c" "unat jank + unat c \<le> B" using cb(4) lt j by auto
      have trav: "unat (tr_traversed ?t) = ?d + unat c"
        using c(1) lt t'(6) unsigned_less [of sz, where 'a = nat] by (simp add: unat_word_ariths)
      have step: "file_written B m n buf (unat off) (?d + unat c) D0 (disk w')"
        unfolding cb(3) t'(2) add.commute [of ?d "unat off"]
        by (rule file_written_step [OF less.prems(5) mapped ap])
          (use in_map c t'(2) room lt in \<open>simp_all add: add.commute\<close>)
      have wr: "file_written B m n buf (unat off) (unat (tr_traversed ?t)) D0 (disk (tr_world ?t))"
        unfolding trav using step by simp
      have "index_block (disk w') B m = index_block ?D B m" and "length (disk w') = length ?D"
        using step less.prems(5) by (simp_all add: file_written_def)
      then have tabs: "tables_ok (disk (tr_world ?t)) B m ?t"
        using t'(3) by (simp add: tables_ok_def block_on_disk_def split: option.splits prod.splits)
      have world: "ok (tr_world ?t)" using cb by simp
      have buf: "tr_buffer ?t = buf" by simp
      have small: "unat (tr_traversed ?t) \<le> unat sz" "unat sz - unat (tr_traversed ?t) < unat sz - ?d"
        unfolding trav using c lt by simp_all
      have "traverse_loop K st off sz ?cb create t = traverse_loop K st off sz ?cb create ?t"
        using True nxt by (subst traverse_loop.simps) simp
      then show ?thesis by (simp only: less.hyps [OF small(2) world tabs small(1) buf wr])
    qed
  qed
qed

lemma write_inode_data_ok:
  assumes w: "ok w" "disk w = D"
    and st: "eb_partition st = h" "eb_node st = Some (np, m)" "unat (eb_block_size st) = B" and law: "min_law K"
    and enabled: "k_masked_read K (eb_attributes st) 1 1 \<noteq> 0"
    and mapped: "mapped_upto D B m n" and ap: "blocks_apart D B m n"
    and range: "unat off + unat sz \<le> n * B" "unat off + unat sz < 2 ^ 64" and room: "unat sz \<le> length buf"
  obtains k w' where "ext2_write_inode_data K (Some (super, st)) (Some buf) off sz w = Some (Inr (k, w'))"
    "ok w'" "file_written B m n buf (unat off) (unat k) D (disk w')" "unat k \<le> unat sz"
    "k = sz \<or> 12 * B \<le> unat off + unat k \<and> (\<exists>w. ok w \<and> fst (k_alloc K (eb_block_size st) w) = 0)"
proof (cases "sz = 0")
  case True
  then show thesis
    using that [of 0 w] w file_written_0 [of B m n buf "unat off" D] by (simp add: ext2_write_inode_data_def)
next
  case False
  let ?t = "\<lparr>tr_traversed = 0, tr_sibp = None, tr_last_doubly = 0, tr_dibp = None, tr_last_triply = 0,
                 tr_tibp = None, tr_buffer = buf, tr_world = w\<rparr>" and ?create = "Some (ext2_create_callback super)"
  have B: "4 \<le> B" "128 \<le> length m" using mapped by (simp_all add: mapped_upto_def)
  have init: "ok (tr_world ?t)" "tables_ok (disk (tr_world ?t)) B m ?t" "unat (tr_traversed ?t) \<le> unat sz"
    "tr_buffer ?t = buf" "file_written B m n buf (unat off) (unat (tr_traversed ?t)) D (disk (tr_world ?t))"
    using w file_written_0 [of B m n buf "unat off" D] by (simp_all add: tables_ok_def)
  obtain t' where t': "traverse_loop K st off sz (ext2_write_callback K st sz) ?create ?t = Some (Inr t')"
    "ok (tr_world t')" "tables_ok (disk (tr_world t')) B m t'" "unat (tr_traversed t') \<le> unat sz"
    "file_written B m n buf (unat off) (unat (tr_traversed t')) D (disk (tr_world t'))"
    "unat (tr_traversed t') = unat sz \<or> 12 * B \<le> unat off + unat (tr_traversed t') \<and> (\<exists>w. ok w \<and> fst (k_alloc K (eb_block_size st) w) = 0)"
    using loop_writes [OF st law mapped ap range room init, of ?create] by blast
  obtain w' where w': "traverse_exit K st t' = Inr (tr_traversed t', tr_buffer t', w')" "ok w'" "disk w' = disk (tr_world t')"
    by (rule exit_keeps_disk [OF t'(2) refl t'(3) st B])
  have "ext2_write_inode_data K (Some (super, st)) (Some buf) off sz w = Some (Inr (tr_traversed t', w'))"
    using False enabled t'(1) w'(1) by (simp add: ext2_write_inode_data_def ext2_traverse_blocks_def)
  then show thesis
    by (rule that) (use w' t' in \<open>auto simp: word_unat_eq_iff\<close>)
qed

text \<open>
  Without a table block, a read that reaches the indirect blocks moves nothing and writes a freshly
  allocated buffer over the first block of the partition.
\<close>

lemma missing_table:
  assumes w: "ok w" "disk w = D"
    and st: "eb_partition st = h" "eb_node st = Some (np, m)" "unat (eb_block_size st) = B"
    and B: "4 \<le> B" "128 \<le> length m" "B \<le> length D" and no_table: "ptr_at m 88 = 0"
    and off: "12 \<le> unat off div B" "unat off div B < 12 + B" and sz: "sz \<noteq> 0"
    and mem: "k_alloc K (eb_block_size st) w = (p, w1)" "p \<noteq> 0"
  obtains w' where "ext2_read_inode_data K (Some st) (Some buf) off sz w = Some (Inr (0, Some buf, w'))"
    "ok w'" "disk w' = blit D 0 (fresh_bytes K p (eb_block_size st))"
proof -
  let ?bs = "eb_block_size st" and ?cb = "ext2_read_callback K st sz"
  let ?t = "\<lparr>tr_traversed = 0, tr_sibp = None, tr_last_doubly = 0, tr_dibp = None, tr_last_triply = 0,
                 tr_tibp = None, tr_buffer = buf, tr_world = w\<rparr>"
  let ?t1 = "?t\<lparr>tr_sibp := Some (p, fresh_bytes K p ?bs), tr_world := w1\<rparr>"
  have w1: "ok w1" "disk w1 = D" using alloc_frame [OF w(1), of ?bs] w(2) mem by simp_all
  have nz: "?bs \<noteq> 0" using B(1) st(3) by auto
  have base: "unat (off div ?bs) = unat off div B" using st(3) by (simp add: unat_div)
  have g: "\<not> off div ?bs < 12" using base off(1) by (simp add: word_less_nat_alt)
  have idx: "unat (off div ?bs - 12) = unat off div B - 12" using base off(1) by (simp add: unat_sub_if_size)
  have dbl: "(off div ?bs - 12) div ?bs = 0"
    using idx off B(1) st(3) by (simp add: word_unat_eq_iff unat_div)
  have "unat (?bs div 4) = B div 4" using st(3) by (simp add: unat_div)
  then have pc: "?bs div 4 \<noteq> 0" using B(1) by auto
  have "ext2_load_read_block K st 0 None None w = Inr (- 3, Some (p, fresh_bytes K p ?bs), w1)"
    using mem by (simp add: ext2_load_read_block_def)
  then have round: "traverse_round K st off ?cb None ?t = Inr (Traverse_Exit ?t1)"
    using nz st(2) g pc dbl node_fields(2) [OF B(2)] no_table by (simp add: traverse_round_def Let_def)
  have "tr_traversed ?t < sz" using sz by (simp add: word_gt_0)
  then have loop: "traverse_loop K st off sz ?cb None ?t = Some (Inr ?t1)"
    using round by (subst traverse_loop.simps) simp
  have len: "length (fresh_bytes K p ?bs) = unat (1 :: u64) * unat ?bs" by simp
  obtain w2 where w2: "k_vfs_write K h (fresh_bytes K p ?bs) 1 ?bs (k_vfs_seek K h 0 w1) = (1 * ?bs, w2)"
      "ok w2" "disk w2 = blit (disk w1) (unat (0 :: u64)) (fresh_bytes K p ?bs)"
    by (rule seek_write [OF w1(1) _ len, of 0]) (use B st(3) w1 in simp_all)
  have "mem_read (fresh_bytes K p ?bs) 0 (unat ?bs) = Inr (fresh_bytes K p ?bs)"
    using bytes_at_all [of "fresh_bytes K p ?bs"] by (simp add: mem_read_ok del: bytes_at_all)
  then have "close_table K st (node_block st node_sibp) (Some (p, fresh_bytes K p ?bs)) w1 = Inr (k_free K p w2)"
    using w2(1) st node_fields(2) [OF B(2)] no_table by (simp add: close_table_def node_block_def write_table_def Let_def)
  then have "traverse_exit K st ?t1 = Inr (0, buf, k_free K p w2)"
    by (simp add: traverse_exit_def) (simp add: close_table_def)
  then show thesis
    using sz loop w1 w2 free_frame [OF w2(2), of p]
    by (intro that [of "k_free K p w2"]) (simp_all add: ext2_read_inode_data_def ext2_traverse_blocks_def)
qed

end

end
