(* ===== verification/Ext2_Dir.thy ===== *)
theory Ext2_Dir
  imports Ext2_Write "HOL-Library.Sublist"
begin

text \<open>
  Directory lookup against an abstract directory: a list of blocks, each a list of entries that fill
  it. The search goes through the blocks until a read delivers nothing, and stops at the first entry
  whose name is a prefix of the name asked for.
\<close>

section \<open>Entries\<close>

record dirent =
  d_ino :: u32
  d_type :: u8
  d_name :: "u8 list"
  d_pad :: "u8 list"

definition dirent_size :: "dirent \<Rightarrow> nat" where
  "dirent_size e = 8 + length (d_name e) + length (d_pad e)"

definition dirent_bytes :: "dirent \<Rightarrow> u8 list" where
  "dirent_bytes e = le_bytes 4 (unat (d_ino e)) @ le_bytes 2 (dirent_size e) @
     [word_of_nat (length (d_name e)), d_type e] @ d_name e @ d_pad e"

definition dirent_ok :: "dirent \<Rightarrow> bool" where
  "dirent_ok e \<longleftrightarrow> is_cstr (d_name e) \<and> length (d_name e) < 256 \<and> dirent_size e < 65536"

definition dir_bytes :: "dirent list \<Rightarrow> u8 list" where
  "dir_bytes es = concat (map dirent_bytes es)"

lemma length_dirent_bytes [simp]: "length (dirent_bytes e) = dirent_size e"
  by (simp add: dirent_bytes_def dirent_size_def)

lemma dir_bytes_simps [simp]: "dir_bytes [] = []" "dir_bytes (e # es) = dirent_bytes e @ dir_bytes es"
  by (simp_all add: dir_bytes_def)

lemma le_word_total: "n < 65536 \<Longrightarrow> (le_word (le_bytes 2 n) :: u16) = word_of_nat n"
  by (simp add: le_word_def le_nat_le_bytes)

lemma entry_fields:
  assumes "dirent_ok e"
  shows "ent_inode (pre @ dirent_bytes e @ post) (length pre) = Inr (d_ino e)"
    and "ent_total_size (pre @ dirent_bytes e @ post) (length pre) = Inr (word_of_nat (dirent_size e))"
    and "ent_lower_name_len (pre @ dirent_bytes e @ post) (length pre) = Inr (word_of_nat (length (d_name e)))"
  using assms
  by (simp_all add: ent_inode_def ent_total_size_def ent_lower_name_len_def read_le32_def read_le16_def read_u8_def
      dirent_bytes_def le_at_def bytes_at_after bytes_at_first le_word_total dirent_ok_def nth_append)

lemma strncmp_name:
  assumes "is_cstr nm"
  shows "strncmp_mem (pre @ nm @ post) (length pre) f i (length nm) = Inr (prefix nm (drop i f))"
  using assms
proof (induction nm arbitrary: pre i)
  case Nil
  then show ?case by simp
next
  case (Cons c nm)
  have c: "c \<noteq> 0" "is_cstr nm" using Cons.prems by (simp_all add: is_cstr_def)
  have IH: "strncmp_mem (pre @ c # nm @ post) (Suc (length pre)) f (Suc i) (length nm) = Inr (prefix nm (drop (Suc i) f))"
    using Cons.IH [OF c(2), of "pre @ [c]" "Suc i"] by simp
  show ?case
  proof (cases "i < length f")
    case True
    then have "drop i f = f ! i # drop (Suc i) f" by (simp add: Cons_nth_drop_Suc)
    then show ?thesis using True c IH by (cases "c = f ! i") (simp_all add: cstr_at_def nth_append)
  next
    case False
    then show ?thesis using c by (simp add: cstr_at_def nth_append)
  qed
qed

section \<open>One block\<close>

text \<open>The entry a lookup settles on.\<close>

definition dir_match :: "u8 list \<Rightarrow> dirent \<Rightarrow> bool" where
  "dir_match f e \<longleftrightarrow> prefix (d_name e) f"

lemma callback_entry:
  assumes "dirent_ok e"
  shows "callback_get_inode_in_dir (pre @ dirent_bytes e @ post) (length pre) (f, n) =
    Inr (if dir_match f e then (0, (f, ucast (d_ino e))) else (1, (f, n)))"
proof -
  let ?head = "pre @ le_bytes 4 (unat (d_ino e)) @ le_bytes 2 (dirent_size e) @ [word_of_nat (length (d_name e)), d_type e]"
  have "strncmp_mem (?head @ d_name e @ d_pad e @ post) (length ?head) f 0 (length (d_name e)) = Inr (dir_match f e)"
    using strncmp_name [of "d_name e" ?head "d_pad e @ post" f 0] assms by (simp only: dir_match_def dirent_ok_def drop_0)
  then have cmp: "strncmp_mem (pre @ dirent_bytes e @ post) (length pre + 8) f 0 (length (d_name e)) = Inr (dir_match f e)"
    by (simp add: dirent_bytes_def)
  have len: "unat (word_of_nat (length (d_name e)) :: u8) = length (d_name e)"
    using assms by (simp add: dirent_ok_def unat_of_nat)
  show ?thesis
    by (simp add: callback_get_inode_in_dir_def entry_fields [OF assms] len cmp)
qed

lemma scan_finds:
  assumes "\<forall>e \<in> set es. dirent_ok e"
  shows "scan_block callback_get_inode_in_dir (pre @ dir_bytes es) (length pre + length (dir_bytes es)) (length pre) (f, n) =
    Inr (case find (dir_match f) es of None \<Rightarrow> (False, (f, n)) | Some e \<Rightarrow> (True, (f, ucast (d_ino e))))"
  using assms
proof (induction es arbitrary: pre)
  case Nil
  then show ?case by (subst scan_block.simps) simp
next
  case (Cons e es)
  have e: "dirent_ok e" and es: "\<forall>e \<in> set es. dirent_ok e" using Cons.prems by simp_all
  have sz: "0 < dirent_size e" "dirent_size e < 65536" using e by (simp_all add: dirent_size_def dirent_ok_def)
  then have w: "unat (word_of_nat (dirent_size e) :: u16) = dirent_size e" by (simp add: unat_of_nat)
  then have nz: "(word_of_nat (dirent_size e) :: u16) \<noteq> 0" using sz(1) by (metis less_irrefl unat_0)
  note fields = entry_fields(2) [OF e, of pre "dir_bytes es"] callback_entry [OF e, of pre "dir_bytes es" f n]
  show ?case
  proof (cases "dir_match f e")
    case True
    then show ?thesis using sz fields nz by (subst scan_block.simps) simp
  next
    case False
    then have "scan_block callback_get_inode_in_dir (pre @ dir_bytes (e # es)) (length pre + length (dir_bytes (e # es)))
        (length pre) (f, n) =
      scan_block callback_get_inode_in_dir ((pre @ dirent_bytes e) @ dir_bytes es)
        (length (pre @ dirent_bytes e) + length (dir_bytes es)) (length (pre @ dirent_bytes e)) (f, n)"
      using sz fields nz w by (subst scan_block.simps) (simp add: add.assoc)
    then show ?thesis using Cons.IH [OF es, of "pre @ dirent_bytes e"] False by simp
  qed
qed

section \<open>The whole directory\<close>

text \<open>The blocks of a directory hold the entries \<open>bss\<close>, block by block, and end before the indirect ones.\<close>

definition ext2_directory :: "u8 list \<Rightarrow> nat \<Rightarrow> u8 list \<Rightarrow> dirent list list \<Rightarrow> bool" where
  "ext2_directory D B m bss \<longleftrightarrow>
     mapped_upto D B m (length bss) \<and> length bss < 12 \<and> ptr_at m (40 + 4 * length bss) = 0 \<and>
     (\<forall>i < length bss. ext2_data D B m (i * B) B = dir_bytes (bss ! i)) \<and>
     (\<forall>es \<in> set bss. \<forall>e \<in> set es. dirent_ok e) \<and> length bss * B < 2 ^ 63"

context vfs_disk begin

text \<open>Reading at a block that is not there, below the indirect blocks, delivers nothing.\<close>

lemma read_past_blocks:
  assumes w: "ok w" and st: "eb_node st = Some (np, m)" "unat (eb_block_size st) = B" and m: "128 \<le> length m" "0 < B"
    and i: "unat off div B < 12" "ptr_at m (40 + 4 * (unat off div B)) = 0"
  shows "ext2_read_inode_data K (Some st) (Some buf) off sz w = Some (Inr (0, Some buf, w))"
proof (cases "sz = 0")
  case True
  then show ?thesis by (simp add: ext2_read_inode_data_def)
next
  case False
  let ?t = "\<lparr>tr_traversed = 0, tr_sibp = None, tr_last_doubly = 0, tr_dibp = None, tr_last_triply = 0,
                 tr_tibp = None, tr_buffer = buf, tr_world = w\<rparr>"
  have base: "unat (off div eb_block_size st) = unat off div B" using st(2) by (simp add: unat_div)
  then have "off div eb_block_size st < 12" using i(1) by (simp add: word_less_nat_alt)
  moreover have "eb_block_size st \<noteq> 0" using st(2) m(2) by auto
  ultimately have "traverse_round K st off (ext2_read_callback K st sz) None ?t = Inr (Traverse_Exit ?t)"
    using st(1) node_fields(1) [OF m(1) i(1)] i(2) base
    by (simp add: traverse_round_def Let_def traverse_do_def)
  moreover have "tr_traversed ?t < sz" using False by (simp add: word_gt_0)
  ultimately have "traverse_loop K st off sz (ext2_read_callback K st sz) None ?t = Some (Inr ?t)"
    by (subst traverse_loop.simps) simp
  then show ?thesis
    using False by (simp add: ext2_read_inode_data_def ext2_traverse_blocks_def traverse_exit_def close_table_def)
qed

lemma list_loop_finds:
  assumes st: "eb_partition st = h" "eb_node st = Some (np, m)" "unat (eb_block_size st) = B" and law: "min_law K"
    and mapped: "mapped_upto D B m n" "n < 12" and end_ptr: "ptr_at m (40 + 4 * n) = 0"
    and blocks: "length bss = n" "\<forall>i < n. inode_data D B m (i * B) B = dir_bytes (bss ! i)" "\<forall>es \<in> set bss. \<forall>e \<in> set es. dirent_ok e"
    and size: "n * B < 2 ^ 63"
    and "ok w" "disk w = D" "length buf = B" "i \<le> n" "unat off = i * B"
  shows "\<exists>w'. list_loop K st callback_get_inode_in_dir off (Some buf) (f, 0) w =
      Some (Inr ((f, case find (dir_match f) (concat (drop i bss)) of None \<Rightarrow> 0 | Some e \<Rightarrow> ucast (d_ino e)), w')) \<and>
    ok w' \<and> disk w' = D"
  using assms(12-)
proof (induction "n - i" arbitrary: i w buf off)
  case 0
  then have i: "i = n" by simp
  have B: "4 \<le> B" "128 \<le> length m" using mapped(1) by (simp_all add: mapped_upto_def)
  have "unat off div B = n" using 0 i B(1) by simp
  then have "ext2_read_inode_data K (Some st) (Some buf) off (eb_block_size st) w = Some (Inr (0, Some buf, w))"
    using B mapped(2) end_ptr by (intro read_past_blocks [OF 0(2) st(2,3)]) simp_all
  then show ?case using 0 i blocks(1) by (subst list_loop.simps) simp
next
  case (Suc k)
  then have i: "i < n" by simp
  have B: "4 \<le> B" using mapped(1) by (simp add: mapped_upto_def)
  let ?bs = "eb_block_size st"
  have iB: "i * B + B \<le> n * B" using i by (metis Suc_leI add.commute mult_Suc mult_le_mono1)
  then have range: "unat off + unat ?bs \<le> n * B" "unat off + unat ?bs < 2 ^ 64" "unat ?bs \<le> length buf"
    using Suc.prems st(3) size by simp_all
  obtain q w' where rd: "ext2_read_inode_data K (Some st) (Some buf) off ?bs w =
      Some (Inr (q, Some (blit buf 0 (inode_data D B m (unat off) (unat q))), w'))"
    "ok w'" "disk w' = D" "unat q \<le> unat ?bs"
    "q = ?bs \<or> 12 * B \<le> unat off + unat q \<and> (\<exists>w. ok w \<and> fst (k_alloc K ?bs w) = 0)"
    using read_inode_data_ok [OF Suc.prems(1,2) st law mapped(1) range] by blast
  have "n * B < 12 * B" using mapped(2) B by simp
  then have q: "q = ?bs" using rd(4,5) range(1) by linarith
  have data: "inode_data D B m (unat off) (unat q) = dir_bytes (bss ! i)"
    using blocks(2) i Suc.prems(5) q st(3) by simp
  have len: "length (dir_bytes (bss ! i)) = B" using data q st(3) by (metis length_inode_data)
  have es: "\<forall>e \<in> set (bss ! i). dirent_ok e" using blocks(1,3) i nth_mem by blast
  have blk: "blit buf 0 (dir_bytes (bss ! i)) = dir_bytes (bss ! i)" using len Suc.prems(3) by (simp add: blit_whole)
  have scan: "scan_block callback_get_inode_in_dir (dir_bytes (bss ! i)) B 0 (f, 0) =
      Inr (case find (dir_match f) (bss ! i) of None \<Rightarrow> (False, (f, 0)) | Some e \<Rightarrow> (True, (f, ucast (d_ino e))))"
    using scan_finds [OF es, of "[]" f 0] len by simp
  have nz: "?bs \<noteq> 0" using st(3) B by auto
  have d: "drop i bss = bss ! i # drop (Suc i) bss" using i blocks(1) by (simp add: Cons_nth_drop_Suc)
  have find_app: "find P (xs @ ys) = (case find P xs of None \<Rightarrow> find P ys | Some e \<Rightarrow> Some e)" for P :: "dirent \<Rightarrow> bool" and xs ys
    by (induction xs) auto
  show ?case
  proof (cases "find (dir_match f) (bss ! i)")
    case (Some e)
    then show ?thesis
      using rd q data blk scan nz st(3) d by (subst list_loop.simps) (simp add: find_app)
  next
    case None
    have off': "unat (off + ?bs) = Suc i * B"
      using Suc.prems(5) st(3) range(2) by (simp add: unat_word_ariths)
    have "\<exists>w''. list_loop K st callback_get_inode_in_dir (off + ?bs) (Some (dir_bytes (bss ! i))) (f, 0) w' =
      Some (Inr ((f, case find (dir_match f) (concat (drop (Suc i) bss)) of None \<Rightarrow> 0 | Some e \<Rightarrow> ucast (d_ino e)), w'')) \<and>
      ok w'' \<and> disk w'' = D"
      using Suc.hyps(2) i by (intro Suc.hyps(1) rd(2,3) len off') simp_all
    then show ?thesis
      using rd(1) q data blk scan nz st(3) d None by (subst list_loop.simps) (simp add: find_app)
  qed
qed

lemma get_inode_ok:
  assumes w: "ok w" "disk w = D"
    and st: "eb_partition st = h" "eb_node st = Some (np, m)" "unat (eb_block_size st) = B" and law: "min_law K"
    and mem: "fst (k_alloc K (eb_block_size st) w) \<noteq> 0" and dir: "ext2_directory D B m bss"
  obtains w' where "ext2_get_inode_in_dir K (Some st) (Some f) w =
      Some (Inr (case find (dir_match f) (concat bss) of None \<Rightarrow> 0 | Some e \<Rightarrow> ucast (d_ino e), w'))" "ok w'" "disk w' = D"
proof -
  let ?n = "length bss"
  have mapped: "mapped_upto D B m ?n" "?n < 12" and end_ptr: "ptr_at m (40 + 4 * ?n) = 0" and size: "?n * B < 2 ^ 63"
    and blocks: "\<forall>i < ?n. ext2_data D B m (i * B) B = dir_bytes (bss ! i)" "\<forall>es \<in> set bss. \<forall>e \<in> set es. dirent_ok e"
    using dir by (simp_all add: ext2_directory_def)
  obtain p w1 where a: "k_alloc K (eb_block_size st) w = (p, w1)" "p \<noteq> 0"
    using mem by (cases "k_alloc K (eb_block_size st) w") auto
  have w1: "ok w1" "disk w1 = D" using alloc_frame [OF w(1), of "eb_block_size st"] a w(2) by simp_all
  have data: "\<forall>i < ?n. inode_data D B m (i * B) B = dir_bytes (bss ! i)"
  proof (intro allI impI)
    fix i assume i: "i < ?n"
    then have "Suc i * B \<le> (12 + B div 4) * B" using mapped(2) by (intro mult_le_mono1) simp
    then show "inode_data D B m (i * B) B = dir_bytes (bss ! i)"
      using blocks(1) i inode_data_is_ext2 [of "i * B" B B D m] by (simp add: add.commute)
  qed
  obtain w2 where w2: "list_loop K st callback_get_inode_in_dir 0 (Some (fresh_bytes K p (eb_block_size st))) (f, 0) w1 =
      Some (Inr ((f, case find (dir_match f) (concat (drop 0 bss)) of None \<Rightarrow> 0 | Some e \<Rightarrow> ucast (d_ino e)), w2))"
    "ok w2" "disk w2 = D"
    using list_loop_finds [OF st law mapped end_ptr refl data blocks(2) size w1, of
        "fresh_bytes K p (eb_block_size st)" 0 0 f] st(3) by auto
  then show thesis
    using a free_frame [OF w2(2), of p]
    by (intro that [of "k_free K p w2"]) (simp_all add: ext2_get_inode_in_dir_def ext2_list_directory_def)
qed

end

end
