(* ===== verification/Ext2_Props.thy ===== *)
theory Ext2_Props
  imports Ext2_Dir
begin

text \<open>
  The properties of the ext2 inode access, with witnesses on a small disk of 4-byte blocks: 13 blocks of
  one file, the last one behind the singly indirect table.
\<close>

section \<open>The disk for the witnesses\<close>

text \<open>A kernel like the concrete one that never runs out of memory.\<close>

definition roomy_kernel :: "sim_world kernel" where
  "roomy_kernel = sim_kernel\<lparr>k_alloc := (\<lambda>n w. (4096, w))\<rparr>"

interpretation roomy_vfs: vfs_disk roomy_kernel 1 sim_disk sw_pos sim_ok
  using sim_vfs.disk_size sim_vfs.seek_law sim_vfs.read_law sim_vfs.write_law sim_vfs.free_frame
  by unfold_locales (simp_all add: roomy_kernel_def)

lemma roomy_laws [simp]: "min_law roomy_kernel" "mask_laws roomy_kernel" "fst (k_alloc roomy_kernel n w) = 4096"
  using sim_laws by (simp_all add: roomy_kernel_def min_law_def mask_laws_def)

definition demo_node :: "u8 list" where
  "demo_node = replicate 40 0 @ concat (map (le_bytes 4) [1..<14]) @ replicate 36 0"

definition demo_disk :: "u8 list" where
  "demo_disk = replicate 50 7 @ [7, 7] @ le_bytes 4 14 @ [1, 2, 3, 4]"

definition demo_basic :: ext2_basic where
  "demo_basic = \<lparr>eb_partition = 1, eb_node = Some (64, demo_node), eb_attributes = 2, eb_block_size = 4, eb_inode = 12\<rparr>"

lemma demo_basic_simps [simp]:
  "eb_partition demo_basic = 1" "eb_node demo_basic = Some (64, demo_node)" "eb_attributes demo_basic = 2"
  "eb_block_size demo_basic = 4"
  by (simp_all add: demo_basic_def)

lemma demo_ptr: "i < 13 \<Longrightarrow> ptr_at demo_node (40 + 4 * i) = word_of_nat (i + 1)"
  using bytes_at_table [of i "[1..<14]" "replicate 36 0"]
  by (simp add: ptr_at_def le_at_def demo_node_def bytes_at_after le_word_entry del: of_nat_Suc upt_Suc)

lemma demo_blocks:
  "inode_block demo_disk 4 demo_node i = (if i < 12 then word_of_nat (i + 1) else 14)"
  "ptr_at demo_node 88 = 13"
proof -
  show s: "ptr_at demo_node 88 = 13" using demo_ptr [of 12] by simp
  have "index_block demo_disk 4 demo_node = le_bytes 4 14"
    by (simp add: index_block_def s demo_disk_def bytes_at_after bytes_at_first del: append.simps)
  then show "inode_block demo_disk 4 demo_node i = (if i < 12 then word_of_nat (i + 1) else 14)"
    using demo_ptr [of i] bytes_at_all [of "le_bytes 4 14"]
    by (simp add: inode_block_def ptr_at_def le_at_def le_word_entry del: bytes_at_all of_nat_Suc of_nat_add)
qed

lemma demo_mapped: "n \<le> 16 \<Longrightarrow> mapped_upto demo_disk 4 demo_node n"
proof -
  assume n: "n \<le> 16"
  have len: "length demo_disk = 60" "length demo_node = 128"
    by (simp_all add: demo_disk_def demo_node_def length_table)
  have "block_on_disk demo_disk 4 (inode_block demo_disk 4 demo_node i)" for i
  proof (cases "i < 12")
    case True
    then have "unat (word_of_nat (i + 1) :: u32) = i + 1" by (simp add: unat_of_nat del: of_nat_Suc of_nat_add)
    moreover from this have "(word_of_nat (i + 1) :: u32) \<noteq> 0" by (metis Suc_eq_plus1 nat.distinct(1) unat_0)
    ultimately show ?thesis using True len by (simp add: demo_blocks block_on_disk_def del: of_nat_Suc of_nat_add)
  next
    case False
    then show ?thesis using len by (simp add: demo_blocks block_on_disk_def)
  qed
  moreover have "block_on_disk demo_disk 4 (ptr_at demo_node 88)"
    using len by (simp add: demo_blocks block_on_disk_def)
  ultimately show ?thesis using n len by (simp add: mapped_upto_def)
qed

lemma demo_apart: "blocks_apart demo_disk 4 demo_node 13"
proof -
  have v: "unat (inode_block demo_disk 4 demo_node i) = (if i < 12 then i + 1 else 14)" for i
    by (simp add: demo_blocks unat_of_nat del: of_nat_Suc of_nat_add)
  have inj: "i = j" if "i < 13" "j < 13" "inode_block demo_disk 4 demo_node i = inode_block demo_disk 4 demo_node j" for i j
  proof -
    have "(if i < 12 then i + 1 else 14) = (if j < 12 then j + 1 else 14)" using that(3) v by metis
    then show ?thesis using that(1,2) by (auto split: if_splits)
  qed
  have "inode_block demo_disk 4 demo_node i \<noteq> 13" for i
  proof
    assume "inode_block demo_disk 4 demo_node i = 13"
    then have "unat (13 :: u32) = (if i < 12 then i + 1 else 14)" using v by metis
    then show False by (auto split: if_splits)
  qed
  then show ?thesis using inj by (auto simp: blocks_apart_def demo_blocks(2) inj_on_def)
qed

lemma demo_world: "sim_ok (sim_init demo_disk)" "length demo_disk = 60"
  by (simp_all add: sim_init_ok demo_disk_def)

section \<open>Properties\<close>

text \<open>
  C3 (ext2_read_matches_file): a read inside the direct and singly indirect blocks of an inode whose
  blocks are all on the partition returns the full count, fills the caller's memory with the bytes that
  the ext2 format assigns to that range, and leaves the partition as it was.
\<close>

theorem ext2_read_matches_file:
  assumes vfs: "vfs_disk K h disk pos ok" and w: "ok w" "disk w = D"
    and st: "eb_partition st = h" "eb_node st = Some (np, m)" "unat (eb_block_size st) = B" and law: "min_law K"
    and mem: "\<And>w. ok w \<Longrightarrow> fst (k_alloc K (eb_block_size st) w) \<noteq> 0"
    and mapped: "mapped_upto D B m n" "n \<le> 12 + B div 4"
    and range: "unat off + unat sz \<le> n * B" "unat off + unat sz < 2 ^ 64" "unat sz \<le> length buf"
  shows "\<exists>w'. ext2_read_inode_data K (Some st) (Some buf) off sz w =
      Some (Inr (sz, Some (blit buf 0 (ext2_data D B m (unat off) (unat sz))), w')) \<and> ok w' \<and> disk w' = D"
proof -
  obtain k w' where r: "ext2_read_inode_data K (Some st) (Some buf) off sz w =
      Some (Inr (k, Some (blit buf 0 (inode_data D B m (unat off) (unat k))), w'))" "ok w'" "disk w' = D" "k = sz"
    using vfs_disk.read_inode_data_ok [OF vfs w st law mapped(1) range] mem by metis
  have "n * B \<le> (12 + B div 4) * B" using mapped(2) by (rule mult_le_mono1)
  then have "inode_data D B m (unat off) (unat sz) = ext2_data D B m (unat off) (unat sz)"
    using range(1) by (intro inode_data_is_ext2) linarith
  then show ?thesis using r by auto
qed

theorem ext2_read_matches_file_witness:
  "\<exists>w'. ext2_read_inode_data roomy_kernel (Some demo_basic) (Some [0, 0, 0, 0, 0, 0]) 46 6 (sim_init demo_disk) =
      Some (Inr (6, Some [7, 7, 1, 2, 3, 4], w')) \<and> sim_disk w' = demo_disk"
proof -
  have f: "ext2_data demo_disk 4 demo_node 46 6 = [7, 7, 1, 2, 3, 4]"
  proof -
    have "inode_data demo_disk 4 demo_node 46 2 = bytes_at 50 2 demo_disk"
      using inode_data_in_block [of 46 4 2 demo_disk demo_node] demo_blocks(1) [of 11] demo_world(2) by simp
    moreover have "inode_data demo_disk 4 demo_node 48 4 = bytes_at 56 4 demo_disk"
      using inode_data_in_block [of 48 4 4 demo_disk demo_node] demo_blocks(1) [of 12] demo_world(2) by simp
    moreover have "bytes_at 50 2 demo_disk = [7, 7]" "bytes_at 56 4 demo_disk = [1, 2, 3, 4]"
      by (simp_all only: demo_disk_def) (simp_all add: bytes_at_after bytes_at_first del: append.simps, simp_all add: bytes_at_def)
    ultimately show ?thesis
      using inode_data_append [of demo_disk 4 demo_node 46 2 4] inode_data_is_ext2 [of 46 6 4 demo_disk demo_node] by simp
  qed
  show ?thesis
    using ext2_read_matches_file [OF roomy_vfs.vfs_disk_axioms demo_world(1) sim_init_disk, of demo_basic 64 demo_node 4
        13 46 6 "[0, 0, 0, 0, 0, 0]"] demo_mapped [of 13] f
    by (auto simp: blit_def)
qed

text \<open>
  C4 (ext2_write_then_read): with writing enabled, the blocks of the file present and pairwise different,
  a write returns the full count; a read of the range then delivers what was written, and any range of
  the file that the write did not touch reads as before.
\<close>

theorem ext2_write_then_read:
  assumes vfs: "vfs_disk K h disk pos ok" and w: "ok w" "disk w = D"
    and st: "eb_partition st = h" "eb_node st = Some (np, m)" "unat (eb_block_size st) = B" and law: "min_law K"
    and mem: "\<And>w. ok w \<Longrightarrow> fst (k_alloc K (eb_block_size st) w) \<noteq> 0"
    and enabled: "k_masked_read K (eb_attributes st) 1 1 \<noteq> 0"
    and mapped: "mapped_upto D B m n" "n \<le> 12 + B div 4" "blocks_apart D B m n"
    and range: "unat off + unat sz \<le> n * B" "unat off + unat sz < 2 ^ 64" "length src = unat sz"
    and other: "unat p + unat l \<le> n * B" "unat p + unat l < 2 ^ 64" "unat l \<le> length buf"
      "unat p + unat l \<le> unat off \<or> unat off + unat sz \<le> unat p"
  shows "\<exists>w1 w2 w3. ext2_write_inode_data K (Some (super, st)) (Some src) off sz w = Some (Inr (sz, w1)) \<and>
    ext2_read_inode_data K (Some st) (Some (replicate (unat sz) 0)) off sz w1 = Some (Inr (sz, Some src, w2)) \<and>
    ext2_read_inode_data K (Some st) (Some buf) p l w1 =
      Some (Inr (l, Some (blit buf 0 (ext2_data D B m (unat p) (unat l))), w3))"
proof -
  have room: "unat sz \<le> length src" using range(3) by simp
  obtain k w1 where wr: "ext2_write_inode_data K (Some (super, st)) (Some src) off sz w = Some (Inr (k, w1))"
    "ok w1" "file_written B m n src (unat off) (unat k) D (disk w1)" "k = sz"
    using vfs_disk.write_inode_data_ok [OF vfs w st law enabled mapped(1,3) range(1,2) room] mem by metis
  have now: "mapped_upto (disk w1) B m n"
    using mapped_upto_same [OF mapped(1)] wr(3) unfolding file_written_def by blast
  note rd = vfs_disk.read_inode_data_ok [OF vfs wr(2) refl st law now]
  have zr: "unat sz \<le> length (replicate (unat sz) (0 :: u8))" by simp
  obtain q w2 where q: "ext2_read_inode_data K (Some st) (Some (replicate (unat sz) 0)) off sz w1 =
      Some (Inr (q, Some (blit (replicate (unat sz) 0) 0 (inode_data (disk w1) B m (unat off) (unat q))), w2))" "q = sz"
    using rd [OF range(1,2) zr] mem by metis
  obtain q' w3 where q': "ext2_read_inode_data K (Some st) (Some buf) p l w1 =
      Some (Inr (q', Some (blit buf 0 (inode_data (disk w1) B m (unat p) (unat q'))), w3))" "q' = l"
    using rd [OF other(1-3)] mem by metis
  have nB: "n * B \<le> (12 + B div 4) * B" using mapped(2) by (rule mult_le_mono1)
  have "inode_data (disk w1) B m (unat off) (unat sz) = src"
    using written_data(1) [OF wr(3)] wr(4) range by simp
  moreover have "inode_data (disk w1) B m (unat p) (unat l) = inode_data D B m (unat p) (unat l)"
    using written_data(2) [OF wr(3)] wr(4) range other by simp
  moreover have "inode_data D B m (unat p) (unat l) = ext2_data D B m (unat p) (unat l)"
    using other(1) nB by (intro inode_data_is_ext2) linarith
  ultimately show ?thesis using wr q q' range(3) by (auto simp: blit_whole)
qed

theorem ext2_write_then_read_witness:
  "\<exists>w1 w2 w3. ext2_write_inode_data roomy_kernel (Some (Some (), demo_basic)) (Some [9, 8]) 47 2 (sim_init demo_disk) =
      Some (Inr (2, w1)) \<and>
    ext2_read_inode_data roomy_kernel (Some demo_basic) (Some [0, 0]) 47 2 w1 = Some (Inr (2, Some [9, 8], w2)) \<and>
    ext2_read_inode_data roomy_kernel (Some demo_basic) (Some [0, 0]) 49 2 w1 = Some (Inr (2, Some [2, 3], w3))"
proof -
  have "inode_data demo_disk 4 demo_node 49 2 = bytes_at 57 2 demo_disk"
    using inode_data_in_block [of 49 4 2 demo_disk demo_node] demo_blocks(1) [of 12] demo_world(2) by simp
  moreover have "bytes_at 57 2 demo_disk = [2, 3]"
    by (simp only: demo_disk_def) (simp add: bytes_at_after del: append.simps, simp add: bytes_at_def)
  ultimately have f: "ext2_data demo_disk 4 demo_node 49 2 = [2, 3]"
    using inode_data_is_ext2 [of 49 2 4 demo_disk demo_node] by simp
  have e: "k_masked_read roomy_kernel 2 1 1 \<noteq> 0" by (simp add: mask_lawsD [OF roomy_laws(2)])
  have two: "replicate (unat (2 :: u64)) 0 = [0, 0 :: u8]" 
  proof -
    have "unat (2 :: u64) = Suc (Suc 0)" by simp
    then show ?thesis by (simp only: replicate.simps)
  qed
  show ?thesis
    using ext2_write_then_read [OF roomy_vfs.vfs_disk_axioms demo_world(1) sim_init_disk, of demo_basic 64 demo_node 4
        13 47 2 "[9, 8]" 49 2 "[0, 0]" "Some ()", unfolded two] demo_mapped [of 13] demo_apart f e
    by (simp add: blit_def)
qed

text \<open>
  C36 (ext2_index_aliases): the walk divides by the block size where the format divides by the number of
  pointers of a table, so a read of a whole block between \<open>12 + B div 4\<close> and \<open>12 + B\<close> delivers an earlier
  block of the same file instead of the one behind the doubly indirect table.
\<close>

theorem ext2_index_aliases:
  assumes vfs: "vfs_disk K h disk pos ok" and w: "ok w" "disk w = D"
    and st: "eb_partition st = h" "eb_node st = Some (np, m)" "unat (eb_block_size st) = B" and law: "min_law K"
    and mem: "\<And>w. ok w \<Longrightarrow> fst (k_alloc K (eb_block_size st) w) \<noteq> 0"
    and mapped: "mapped_upto D B m (Suc i)" and i: "12 + B div 4 \<le> i" and off: "unat off = i * B" "Suc i * B < 2 ^ 64"
    and buf: "length buf = B"
  shows "\<exists>w'. ext2_read_inode_data K (Some st) (Some buf) off (eb_block_size st) w =
      Some (Inr (eb_block_size st, Some (ext2_data D B m ((12 + (i - 12) mod (B div 4)) * B) B), w'))"
proof -
  let ?j = "12 + (i - 12) mod (B div 4)"
  have B: "4 \<le> B" "Suc i \<le> 12 + B" using mapped by (simp_all add: mapped_upto_def)
  have range: "unat off + unat (eb_block_size st) \<le> Suc i * B" "unat off + unat (eb_block_size st) < 2 ^ 64"
    "unat (eb_block_size st) \<le> length buf" using off st(3) buf by simp_all
  obtain k w' where r: "ext2_read_inode_data K (Some st) (Some buf) off (eb_block_size st) w =
      Some (Inr (k, Some (blit buf 0 (inode_data D B m (unat off) (unat k))), w'))" "k = eb_block_size st"
    using vfs_disk.read_inode_data_ok [OF vfs w st law mapped range] mem by metis
  have P: "(i - 12) mod (B div 4) < B div 4" using B(1) by (intro mod_less_divisor) simp
  have fits: "unat (inode_block D B m i) * B + B \<le> length D"
    using mapped by (simp add: mapped_upto_def block_on_disk_def)
  have same: "inode_block D B m ?j = inode_block D B m i" using i by (simp add: inode_block_def)
  have data: "inode_data D B m (q * B) B = bytes_at (unat (inode_block D B m q) * B) B D"
    if "unat (inode_block D B m q) * B + B \<le> length D" for q
    using inode_data_in_block [of "q * B" B B D m] that B(1) by simp
  have "inode_data D B m (i * B) B = inode_data D B m (?j * B) B"
    unfolding data [OF fits] data [OF fits [folded same]] same ..
  also have "\<dots> = ext2_data D B m (?j * B) B"
  proof (rule inode_data_is_ext2)
    have "Suc ?j * B \<le> (12 + B div 4) * B" using P by (intro mult_le_mono1) simp
    then show "?j * B + B \<le> (12 + B div 4) * B" by (simp only: mult_Suc add.commute)
  qed
  finally show ?thesis using r st(3) off(1) buf by (auto simp: blit_whole ext2_data_def)
qed

theorem ext2_index_aliases_witness:
  "\<exists>w'. ext2_read_inode_data roomy_kernel (Some demo_basic) (Some [0, 0, 0, 0]) 52 4 (sim_init demo_disk) =
      Some (Inr (4, Some (ext2_data demo_disk 4 demo_node (12 * 4) 4), w'))"
  using ext2_index_aliases [OF roomy_vfs.vfs_disk_axioms demo_world(1) sim_init_disk, of demo_basic 64 demo_node 4
      13 52 "[0, 0, 0, 0]"] demo_mapped [of 14]
  by simp

text \<open>
  C37 (ext2_missing_table_overwrites_block_0): reading at the indirect blocks of a file that has no
  singly indirect table returns nothing, and overwrites the first block of the partition with the
  uninitialised buffer that was allocated for the table.
\<close>

theorem ext2_missing_table_overwrites_block_0:
  assumes vfs: "vfs_disk K h disk pos ok" and w: "ok w" "disk w = D"
    and st: "eb_partition st = h" "eb_node st = Some (np, m)" "unat (eb_block_size st) = B"
    and B: "4 \<le> B" "128 \<le> length m" "B \<le> length D" and no_table: "ptr_at m 88 = 0"
    and off: "12 \<le> unat off div B" "unat off div B < 12 + B" and sz: "sz \<noteq> 0"
    and mem: "k_alloc K (eb_block_size st) w = (p, w1)" "p \<noteq> 0"
  shows "\<exists>w'. ext2_read_inode_data K (Some st) (Some buf) off sz w = Some (Inr (0, Some buf, w')) \<and>
    disk w' = blit D 0 (fresh_bytes K p (eb_block_size st))"
  by (rule vfs_disk.missing_table [OF assms]) blast

theorem ext2_missing_table_overwrites_block_0_witness:
  fixes st defines "st \<equiv> demo_basic\<lparr>eb_node := Some (64, replicate 128 0)\<rparr>"
  shows "\<exists>w'. ext2_read_inode_data sim_kernel (Some st) (Some [0]) 48 1 (sim_init [1, 2, 3, 4, 5, 6]) =
      Some (Inr (0, Some [0], w')) \<and> sim_disk w' = [0xAA, 0xAA, 0xAA, 0xAA, 5, 6]"
proof -
  have z: "ptr_at (replicate 128 0) 88 = 0"
    by (simp add: ptr_at_def le_at_def bytes_at_def le_word_def eval_nat_numeral)
  have a: "k_alloc sim_kernel (eb_block_size st) (sim_init [1, 2, 3, 4, 5, 6]) =
      (64, snd (sim_alloc 4 (sim_init [1, 2, 3, 4, 5, 6])))"
    by (simp add: st_def sim_kernel_def sim_alloc_def sim_init_def)
  have f: "blit [1, 2, 3, 4, 5, 6] 0 (fresh_bytes sim_kernel 64 4) = [0xAA, 0xAA, 0xAA, 0xAA, 5, 6]"
    by (simp add: blit_def fresh_bytes_def sim_kernel_def upt_rec)
  show ?thesis
    using ext2_missing_table_overwrites_block_0 [OF sim_vfs.vfs_disk_axioms sim_init_ok sim_init_disk, of "[1, 2, 3, 4, 5, 6]"
        st 64 "replicate 128 0" 4 48 1 64 _ "[0]", OF _ _ _ _ _ _ _ z _ _ _ a] f
    by (simp add: st_def)
qed

text \<open>
  C35 (ext2_lookup_first_prefix): on a directory whose blocks are filled with entries and end before the
  indirect blocks, the lookup ends, leaves the partition alone and yields the inode number of the first
  entry whose name is a prefix of the name asked for, or 0. The exact name may stand further back.
\<close>

theorem ext2_lookup_first_prefix:
  assumes vfs: "vfs_disk K h disk pos ok" and w: "ok w" "disk w = D"
    and st: "eb_partition st = h" "eb_node st = Some (np, m)" "unat (eb_block_size st) = B" and law: "min_law K"
    and mem: "fst (k_alloc K (eb_block_size st) w) \<noteq> 0"
    and mapped: "mapped_upto D B m n" "n < 12" and end_ptr: "ptr_at m (40 + 4 * n) = 0"
    and blocks: "length bss = n" "\<forall>i < n. ext2_data D B m (i * B) B = dir_bytes (bss ! i)" "\<forall>es \<in> set bss. \<forall>e \<in> set es. dirent_ok e"
    and size: "n * B < 2 ^ 63"
  shows "\<exists>w'. ext2_get_inode_in_dir K (Some st) (Some f) w =
      Some (Inr (case find (\<lambda>e. prefix (d_name e) f) (concat bss) of None \<Rightarrow> 0 | Some e \<Rightarrow> ucast (d_ino e), w')) \<and>
    disk w' = D"
proof -
  have dir: "ext2_directory D B m bss"
    using mapped end_ptr blocks size by (simp add: ext2_directory_def)
  obtain w' where "ext2_get_inode_in_dir K (Some st) (Some f) w =
      Some (Inr (case find (dir_match f) (concat bss) of None \<Rightarrow> 0 | Some e \<Rightarrow> ucast (d_ino e), w'))" "disk w' = D"
    by (rule vfs_disk.get_inode_ok [OF vfs w st law mem dir])
  moreover have "dir_match f = (\<lambda>e. prefix (d_name e) f)" by (rule ext) (simp add: dir_match_def)
  ultimately show ?thesis by auto
qed

definition demo_dir_node :: "u8 list" where
  "demo_dir_node = replicate 40 0 @ le_bytes 4 1 @ replicate 84 0"

definition demo_entries :: "dirent list" where
  "demo_entries = [\<lparr>d_ino = 5, d_type = 1, d_name = [97], d_pad = [0, 0, 0]\<rparr>,
     \<lparr>d_ino = 6, d_type = 1, d_name = [97, 98], d_pad = [0, 0]\<rparr>]"

theorem ext2_lookup_first_prefix_witness:
  fixes st defines "st \<equiv> demo_basic\<lparr>eb_node := Some (64, demo_dir_node), eb_block_size := 24\<rparr>"
  shows "\<exists>w'. ext2_get_inode_in_dir sim_kernel (Some st) (Some [97, 98]) (sim_init (replicate 24 0 @ dir_bytes demo_entries)) =
      Some (Inr (5, w'))"
proof -
  let ?D = "replicate 24 0 @ dir_bytes demo_entries"
  have len: "length (dir_bytes demo_entries) = 24" "length demo_dir_node = 128"
    by (simp_all add: demo_entries_def dirent_size_def demo_dir_node_def)
  have p0: "ptr_at demo_dir_node (40 + 4 * 0) = 1" and p1: "ptr_at demo_dir_node (40 + 4 * 1) = 0"
  proof -
    have "bytes_at 40 4 demo_dir_node = le_bytes 4 1" "bytes_at 44 4 demo_dir_node = replicate 4 0"
      by (simp_all only: demo_dir_node_def) (simp_all add: bytes_at_after bytes_at_first, simp add: bytes_at_def)
    moreover have "le_nat (replicate 4 0) = 0" by (rule le_nat_zeros)
    ultimately show "ptr_at demo_dir_node (40 + 4 * 0) = 1" and "ptr_at demo_dir_node (40 + 4 * 1) = 0"
      by (simp_all add: ptr_at_def le_at_def le_word_def le_nat_le_bytes)
  qed
  have b: "inode_block ?D 24 demo_dir_node 0 = 1" using p0 by (simp add: inode_block_def)
  have mapped: "mapped_upto ?D 24 demo_dir_node 1"
    using len b by (simp add: mapped_upto_def block_on_disk_def)
  have "ext2_data ?D 24 demo_dir_node (0 * 24) 24 = bytes_at 24 24 ?D"
    using inode_data_is_ext2 [of 0 24 24 ?D demo_dir_node] inode_data_in_block [of 0 24 24 ?D demo_dir_node] b len by simp
  also have "\<dots> = dir_bytes demo_entries"
    using len bytes_at_all [of "dir_bytes demo_entries"] by (simp add: bytes_at_after del: bytes_at_all)
  finally have data: "\<forall>i < 1. ext2_data ?D 24 demo_dir_node (i * 24) 24 = dir_bytes ([demo_entries] ! i)" by simp
  have ok: "\<forall>es \<in> set [demo_entries]. \<forall>e \<in> set es. dirent_ok e"
    by (simp add: demo_entries_def dirent_ok_def is_cstr_def dirent_size_def)
  have sk: "sim_ok (sim_init ?D)" using len by (intro sim_init_ok) simp
  have mem: "fst (k_alloc sim_kernel (eb_block_size st) (sim_init ?D)) \<noteq> 0"
    by (simp add: sim_kernel_def sim_alloc_def sim_init_def)
  have st: "eb_partition st = 1" "eb_node st = Some (64, demo_dir_node)" "unat (eb_block_size st) = 24"
    by (simp_all add: st_def)
  have "\<exists>w'. ext2_get_inode_in_dir sim_kernel (Some st) (Some [97, 98]) (sim_init ?D) =
      Some (Inr (case find (\<lambda>e. prefix (d_name e) [97, 98]) (concat [demo_entries]) of None \<Rightarrow> 0 | Some e \<Rightarrow> ucast (d_ino e), w')) \<and>
      sim_disk w' = ?D"
    by (rule ext2_lookup_first_prefix [OF sim_vfs.vfs_disk_axioms sk sim_init_disk st _ mem mapped _ p1 _ data ok]) simp_all
  then show ?thesis by (auto simp: demo_entries_def)
qed

end
