(* ===== verification/Ext2_Super_Props.thy ===== *)
theory Ext2_Super_Props
  imports Ext2_Nodes Ext2_Props
begin

text \<open>
  Properties of mounting, of inodes by number, and of the path from a name to a file's bytes through
  the super, directory and file drivers.
\<close>

section \<open>Bits of the superblock\<close>

lemma and_1_eq_1: "((v :: u64) AND 1 = 1) = bit v 0"
  by (simp add: and_one_eq mod2_eq_if bit_0)

lemma and_1_eq_0: "((v :: u64) AND 1 = 0) = (\<not> bit v 0)"
  by (simp add: and_one_eq mod2_eq_if bit_0)

lemma feature_bit: "mask_laws K \<Longrightarrow> b < 32 \<Longrightarrow> feature K f b = bit f b"
  by (simp add: feature_def mask_lawsD and_1_eq_1 bit_simps)

lemma set_writable_simps [simp]:
  "es_super (set_writable K on st) = es_super st" "es_self (set_writable K on st) = es_self st"
  "es_table (set_writable K on st) = es_table st" "es_path (set_writable K on st) = es_path st"
  "eb_partition (es_basic (set_writable K on st)) = eb_partition (es_basic st)"
  by (simp_all add: set_writable_def)

lemma set_writable_bit:
  assumes "mask_laws K" and "n < 64"
  shows "bit (eb_attributes (es_basic (set_writable K on st))) n \<longleftrightarrow>
    (if n = 1 then on else bit (eb_attributes (es_basic st)) n)"
  using assms by (auto simp: set_writable_def mask_lawsD bit_simps bit_1_iff)

text \<open>What \<open>ext2_check_super\<close> may change: one bit of the attributes.\<close>

definition attributes_set :: "ext2_super \<Rightarrow> bool \<Rightarrow> ext2_super \<Rightarrow> bool" where
  "attributes_set st w st' \<longleftrightarrow>
     (\<exists>attrs. st' = st\<lparr>es_basic := (es_basic st)\<lparr>eb_attributes := attrs\<rparr>\<rparr> \<and>
       (\<forall>n < 64. bit attrs n \<longleftrightarrow> (if n = 1 then w else bit (eb_attributes (es_basic st)) n)))"

lemma attributes_set_refl: "attributes_set st (bit (eb_attributes (es_basic st)) 1) st"
  unfolding attributes_set_def by (intro exI [of _ "eb_attributes (es_basic st)"]) simp

lemma attributes_set_writable:
  assumes "mask_laws K" and "attributes_set st w st'"
  shows "attributes_set st on (set_writable K on st')"
proof -
  obtain attrs where a: "st' = st\<lparr>es_basic := (es_basic st)\<lparr>eb_attributes := attrs\<rparr>\<rparr>"
    "\<forall>n < 64. bit attrs n \<longleftrightarrow> (if n = 1 then w else bit (eb_attributes (es_basic st)) n)"
    using assms(2) by (auto simp: attributes_set_def)
  show ?thesis unfolding attributes_set_def
    by (intro exI [of _ "eb_attributes (es_basic (set_writable K on st'))"] conjI allI impI)
      (simp add: a(1) set_writable_def, use a in \<open>simp add: set_writable_bit [OF assms(1)]\<close>)
qed

lemma check_super_attributes:
  assumes laws: "mask_laws K" and run: "ext2_check_super K (Some st) = (ret, out)"
  defines "sb \<equiv> es_super st"
  defines "allowed \<equiv> (if sb_state sb \<noteq> 1 then sb_err_handle sb \<noteq> 2 else bit (eb_attributes (es_basic st)) 1)"
  shows "\<exists>st' w. out = Some st' \<and> attributes_set st w st' \<and>
    (ret = 0 \<longrightarrow> w = (allowed \<and> \<not> bit (sb_write_features sb) 0 \<and> \<not> bit (sb_write_features sb) 2))"
proof -
  define st1 where "st1 = (if sb_state sb \<noteq> 1 then set_writable K (sb_err_handle sb \<noteq> 2) st else st)"
  have 1: "attributes_set st allowed st1"
    using attributes_set_refl [of st] attributes_set_writable [OF laws attributes_set_refl]
    by (simp add: st1_def allowed_def)
  define st2 where "st2 = (if feature K (sb_write_features sb) 0 then set_writable K False st1 else st1)"
  define st3 where "st3 = (if feature K (sb_write_features sb) 2 then set_writable K False st2 else st2)"
  have 2: "attributes_set st (allowed \<and> \<not> bit (sb_write_features sb) 0) st2"
    using 1 attributes_set_writable [OF laws 1] feature_bit [OF laws, of 0] by (auto simp: st2_def)
  have 3: "attributes_set st (allowed \<and> \<not> bit (sb_write_features sb) 0 \<and> \<not> bit (sb_write_features sb) 2) st3"
    using 2 attributes_set_writable [OF laws 2] feature_bit [OF laws, of 2] by (auto simp: st3_def)
  have "ret \<noteq> 0 \<and> out = Some st1 \<or> ret = 0 \<and> out = Some st3"
    using run unfolding ext2_check_super_def Let_def option.case sb_def [symmetric] st1_def [symmetric]
      st2_def [symmetric] st3_def [symmetric] by (auto split: if_splits)
  then show ?thesis using 1 3 by auto
qed

section \<open>Inodes by number\<close>

text \<open>Where the format puts inode \<open>n\<close>: its group's table, then its index in the table.\<close>

definition inode_pos :: "ext2_super_block \<Rightarrow> u8 list \<Rightarrow> nat \<Rightarrow> nat \<Rightarrow> nat" where
  "inode_pos sb tbl B n =
     unat (ptr_at tbl (32 * ((n - 1) div unat (sb_inodes_per_group sb)) + 8)) * B +
     unat (sb_inode_size sb) * ((n - 1) mod unat (sb_inodes_per_group sb))"

definition inode_on_disk :: "u8 list \<Rightarrow> nat \<Rightarrow> ext2_super_block \<Rightarrow> u8 list \<Rightarrow> nat \<Rightarrow> bool" where
  "inode_on_disk D B sb tbl n \<longleftrightarrow> 1 \<le> n \<and> 0 < unat (sb_inodes_per_group sb) \<and> 0 < unat (sb_inode_size sb) \<and>
     32 * ((n - 1) div unat (sb_inodes_per_group sb)) + 12 \<le> length tbl \<and>
     inode_pos sb tbl B n + unat (sb_inode_size sb) \<le> length D"

context vfs_disk begin

lemma read_inode_ok:
  assumes w: "ok w" "disk w = D" and st: "eb_partition (es_basic st) = h" "unat (eb_block_size (es_basic st)) = B"
    and tbl: "es_table st = Some (tp, tbl)" and on: "inode_on_disk D B (es_super st) tbl (unat n)"
    and a: "k_alloc K (ucast (sb_inode_size (es_super st))) w = (p, w1)" "p \<noteq> 0"
  defines "at \<equiv> inode_pos (es_super st) tbl B (unat n)"
  obtains w' where "ext2_read_inode K (Some st) n w =
      Inr (Some (p, bytes_at at (unat (sb_inode_size (es_super st))) D), w')" "ok w'" "disk w' = D"
proof -
  let ?sb = "es_super st" and ?bs = "eb_block_size (es_basic st)"
  let ?isz = "ucast (sb_inode_size ?sb) :: u64" and ?ipg = "ucast (sb_inodes_per_group ?sb) :: u64"
  define g where "g = (unat n - 1) div unat (sb_inodes_per_group ?sb)"
  define i where "i = (unat n - 1) mod unat (sb_inodes_per_group ?sb)"
  have at_def: "at = unat (ptr_at tbl (32 * g + 8)) * B + unat (sb_inode_size ?sb) * i"
    by (simp add: at_def inode_pos_def g_def i_def)
  have n: "1 \<le> unat n" and ipg: "0 < unat (sb_inodes_per_group ?sb)" and isz: "0 < unat (sb_inode_size ?sb)"
    and row: "32 * g + 12 \<le> length tbl" and inside: "at + unat (sb_inode_size ?sb) \<le> length D"
    using on by (simp_all add: inode_on_disk_def g_def assms(9))
  have w1: "ok w1" "disk w1 = D" using alloc_frame [OF w(1), of ?isz] a w(2) by simp_all
  have uisz: "unat ?isz = unat (sb_inode_size ?sb)" and uipg: "unat ?ipg = unat (sb_inodes_per_group ?sb)"
    using unsigned_less [of "sb_inode_size ?sb", where 'a = nat] unsigned_less [of "sb_inodes_per_group ?sb", where 'a = nat]
    by (simp_all add: unsigned_ucast_eq take_bit_nat_eq_self)
  have nz: "n \<noteq> 0" "?ipg \<noteq> 0" using n ipg uipg by auto
  have n1: "unat (n - 1) = unat n - 1" using nz(1) n by (simp add: unat_sub_if_size)
  have g: "unat ((n - 1) div ?ipg) = g" and i: "unat ((n - 1) mod ?ipg) = i"
    by (simp_all add: unat_div unat_mod n1 uipg g_def i_def)
  have start: "desc_inode_table_start tbl (unat ((n - 1) div ?ipg)) = Inr (ptr_at tbl (32 * g + 8))"
    unfolding g desc_inode_table_start_def using row by (intro read_le32_ok) simp
  let ?b = "ptr_at tbl (32 * g + 8)"
  have "at \<le> length D" using inside by simp
  then have small: "at < 2 ^ 63" using disk_size [OF w(1)] unfolding w(2) by (rule order_le_less_trans)
  then have "unat (sb_inode_size ?sb) * i < 2 ^ 63" by (simp add: at_def)
  then have off: "unat (?isz * ((n - 1) mod ?ipg)) = unat (sb_inode_size ?sb) * i"
    unfolding unat_word_ariths(2) uisz i by simp
  have addr: "unat (ucast ?b * ?bs + ?isz * ((n - 1) mod ?ipg)) = at"
  proof -
    have "word_of_nat (unat (?isz * ((n - 1) mod ?ipg))) = ?isz * ((n - 1) mod ?ipg)" by simp
    then have "?isz * ((n - 1) mod ?ipg) = word_of_nat (unat (sb_inode_size ?sb) * i)" unfolding off by (rule sym)
    then show ?thesis using block_address [of ?b ?bs "unat (sb_inode_size ?sb) * i"] small st(2)
      by (simp add: at_def)
  qed
  have c: "0 < unat (1 :: u64) * unat ?isz" using isz uisz by simp
  obtain w2 where w2: "k_vfs_read K h 1 ?isz (k_vfs_seek K h (ucast ?b * ?bs + ?isz * ((n - 1) mod ?ipg)) w1) =
      (1 * ?isz, bytes_at at (unat (sb_inode_size ?sb)) D, w2)" "ok w2" "disk w2 = D"
    using seek_read [OF w1(1) c, of "ucast ?b * ?bs + ?isz * ((n - 1) mod ?ipg)"] inside w1(2)
    by (auto simp: addr uisz)
  have "mem_write (fresh_bytes K p ?isz) 0 (bytes_at at (unat (sb_inode_size ?sb)) D) =
      Inr (bytes_at at (unat (sb_inode_size ?sb)) D)"
    using inside uisz by (simp add: mem_write_ok blit_whole)
  then have "ext2_read_inode K (Some st) n w = Inr (Some (p, bytes_at at (unat (sb_inode_size ?sb)) D), w2)"
    using tbl nz a start w2(1) st(1) by (simp add: ext2_read_inode_def Let_def)
  then show thesis using w2 by (intro that)
qed

end

section \<open>A mounted partition\<close>

text \<open>
  What the name lookups need of the super driver's state: the handle \<open>h\<close>, the block size, the root
  directory's inode \<open>dm\<close>, the descriptor table and the path of the partition.
\<close>

definition mounted :: "u64 \<Rightarrow> nat \<Rightarrow> u8 list \<Rightarrow> u8 list \<Rightarrow> ext2_super \<Rightarrow> bool" where
  "mounted h B dm tbl st \<longleftrightarrow>
     eb_partition (es_basic st) = h \<and> unat (eb_block_size (es_basic st)) = B \<and>
     map_option snd (eb_node (es_basic st)) = Some dm \<and> map_option snd (es_table st) = Some tbl \<and> es_path st \<noteq> None"

lemma mountedE:
  assumes "mounted h B dm tbl st"
  obtains np tp pp path where "eb_partition (es_basic st) = h" "unat (eb_block_size (es_basic st)) = B"
    "eb_node (es_basic st) = Some (np, dm)" "es_table st = Some (tp, tbl)" "es_path st = Some (pp, path)"
  using assms by (auto simp: mounted_def)

text \<open>Opening the partition once more gives the same handle and leaves it alone.\<close>

definition opens :: "('w, 'z) kernel_scheme \<Rightarrow> u64 \<Rightarrow> ('w \<Rightarrow> u8 list) \<Rightarrow> ('w \<Rightarrow> bool) \<Rightarrow> bool" where
  "opens K h disk ok \<longleftrightarrow> h \<noteq> 0 \<and>
     (\<forall>path old w. ok w \<longrightarrow> (\<exists>w'. k_vfs_open K path old w = (h, w') \<and> ok w' \<and> disk w' = disk w))"

lemma opensE:
  assumes "opens K h disk ok" and "ok w"
  obtains w' where "k_vfs_open K path old w = (h, w')" "ok w'" "disk w' = disk w" "h \<noteq> 0"
  using assms unfolding opens_def by blast

definition enough_memory :: "('w, 'z) kernel_scheme \<Rightarrow> ('w \<Rightarrow> bool) \<Rightarrow> bool" where
  "enough_memory K ok \<longleftrightarrow> (\<forall>n w. ok w \<longrightarrow> fst (k_alloc K n w) \<noteq> 0)"

text \<open>A walk whose rounds never transfer anything does not end.\<close>

lemma traverse_loop_stuck:
  assumes step: "\<And>t. tr_traversed t = 0 \<Longrightarrow> \<exists>t'. traverse_round K st off cb create t = Inr (Traverse_Next t') \<and> tr_traversed t' = 0"
    and "tr_traversed t = 0" and "sz \<noteq> 0"
  shows "traverse_loop K st off sz cb create t = None"
proof (rule ccontr)
  assume "traverse_loop K st off sz cb create t \<noteq> None"
  then obtain y where "traverse_loop K st off sz cb create t = Some y" by blast
  then have "sz \<noteq> 0 \<longrightarrow> tr_traversed t = 0 \<longrightarrow>
    (\<exists>t. tr_traversed t = 0 \<and> \<not> (\<exists>t'. traverse_round K st off cb create t = Inr (Traverse_Next t') \<and> tr_traversed t' = 0))"
  proof (rule traverse_loop.raw_induct [rotated])
    fix loop K st off sz cb create t y
    assume ih: "\<And>K st off sz cb create t y. loop K st off sz cb create t = Some y \<Longrightarrow> sz \<noteq> 0 \<longrightarrow> tr_traversed t = 0 \<longrightarrow>
        (\<exists>t. tr_traversed t = 0 \<and> \<not> (\<exists>t'. traverse_round K st off cb create t = Inr (Traverse_Next t') \<and> tr_traversed t' = 0))"
      and body: "(if tr_traversed t < sz
        then (case traverse_round K st off cb create t of Inl e \<Rightarrow> Some (Inl e)
              | Inr (Traverse_Exit t') \<Rightarrow> Some (Inr t')
              | Inr (Traverse_Next t') \<Rightarrow> loop K st off sz cb create t')
        else Some (Inr t)) = Some y"
    show "sz \<noteq> 0 \<longrightarrow> tr_traversed t = 0 \<longrightarrow>
        (\<exists>t. tr_traversed t = 0 \<and> \<not> (\<exists>t'. traverse_round K st off cb create t = Inr (Traverse_Next t') \<and> tr_traversed t' = 0))"
    proof (intro impI)
      assume nz: "sz \<noteq> 0" "tr_traversed t = 0"
      show "\<exists>t. tr_traversed t = 0 \<and> \<not> (\<exists>t'. traverse_round K st off cb create t = Inr (Traverse_Next t') \<and> tr_traversed t' = 0)"
      proof (rule ccontr)
        assume no: "\<not> ?thesis"
        then obtain t' where t': "traverse_round K st off cb create t = Inr (Traverse_Next t')" "tr_traversed t' = 0"
          using nz by blast
        then have "loop K st off sz cb create t' = Some y" using body nz by (simp add: word_gt_0)
        from ih [OF this] nz t'(2) no show False by blast
      qed
    qed
  qed
  with assms show False by blast
qed

text \<open>Without an inode in memory every transfer faults.\<close>

lemma null_node_read:
  assumes "eb_node st = None" and "eb_block_size st \<noteq> 0" and "sz \<noteq> 0"
  shows "ext2_read_inode_data K (Some st) (Some buf) off sz w = Some (Inl Null_Deref)"
proof -
  have "traverse_loop K st off sz cb create t = Some (Inl Null_Deref)" if "tr_traversed t = 0" for cb create t
    using assms that by (subst traverse_loop.simps) (simp add: traverse_round_def Let_def word_gt_0)
  then show ?thesis using assms(3) by (simp add: ext2_read_inode_data_def ext2_traverse_blocks_def)
qed

context vfs_disk begin

lemma enough_alloc:
  assumes "enough_memory K ok" and "ok w"
  obtains p w' where "k_alloc K n w = (p, w')" "p \<noteq> 0" "ok w'" "disk w' = disk w"
  using alloc_frame [OF assms(2), of n] assms unfolding enough_memory_def
  by (cases "k_alloc K n w") (metis fst_conv snd_conv)

lemma lookup_inode_ok:
  assumes w: "ok w" "disk w = D" and law: "min_law K" and mem: "enough_memory K ok"
    and mnt: "mounted h B root tbl st"
    and st: "eb_partition dir = h" "eb_node dir = Some (np, dm)" "unat (eb_block_size dir) = B"
    and dir: "ext2_directory D B dm bss"
  shows "find (dir_match f) (concat bss) = None \<Longrightarrow>
      \<exists>w'. lookup_inode K st dir f w = Some (Inr (0, None, w')) \<and> ok w' \<and> disk w' = D"
    and "find (dir_match f) (concat bss) = Some e \<Longrightarrow> inode_on_disk D B (es_super st) tbl (unat (d_ino e)) \<Longrightarrow>
      \<exists>p w'. lookup_inode K st dir f w = Some (Inr (ucast (d_ino e),
        Some (p, bytes_at (inode_pos (es_super st) tbl B (unat (d_ino e))) (unat (sb_inode_size (es_super st))) D), w')) \<and>
        ok w' \<and> disk w' = D"
proof -
  from mnt obtain tp where s: "eb_partition (es_basic st) = h" "unat (eb_block_size (es_basic st)) = B" "es_table st = Some (tp, tbl)"
    by (rule mountedE)
  have "fst (k_alloc K (eb_block_size dir) w) \<noteq> 0" using mem w(1) by (simp add: enough_memory_def)
  then obtain w1 where get: "ext2_get_inode_in_dir K (Some dir) (Some f) w =
      Some (Inr (case find (dir_match f) (concat bss) of None \<Rightarrow> 0 | Some e \<Rightarrow> ucast (d_ino e), w1))" "ok w1" "disk w1 = D"
    by (rule get_inode_ok [OF w st law _ dir, where f = f])
  show "\<exists>w'. lookup_inode K st dir f w = Some (Inr (0, None, w')) \<and> ok w' \<and> disk w' = D"
    if "find (dir_match f) (concat bss) = None"
    using get s(3) that by (simp add: lookup_inode_def ext2_read_inode_def)
  show "\<exists>p w'. lookup_inode K st dir f w = Some (Inr (ucast (d_ino e),
        Some (p, bytes_at (inode_pos (es_super st) tbl B (unat (d_ino e))) (unat (sb_inode_size (es_super st))) D), w')) \<and>
        ok w' \<and> disk w' = D"
    if f: "find (dir_match f) (concat bss) = Some e" and on: "inode_on_disk D B (es_super st) tbl (unat (d_ino e))"
  proof -
    have n: "unat (ucast (d_ino e) :: u64) = unat (d_ino e)"
      using unsigned_less [of "d_ino e", where 'a = nat] by (simp add: unsigned_ucast_eq take_bit_nat_eq_self)
    obtain p w2 where a: "k_alloc K (ucast (sb_inode_size (es_super st))) w1 = (p, w2)" "p \<noteq> 0"
      by (rule enough_alloc [OF mem get(2)])
    obtain w3 where "ext2_read_inode K (Some st) (ucast (d_ino e)) w1 =
        Inr (Some (p, bytes_at (inode_pos (es_super st) tbl B (unat (d_ino e))) (unat (sb_inode_size (es_super st))) D), w3)"
      "ok w3" "disk w3 = D"
      by (rule read_inode_ok [OF get(2,3) s _ a, of "ucast (d_ino e)", unfolded n, OF on])
    then show ?thesis using get(1) f by (simp add: lookup_inode_def)
  qed
qed

lemma locate_found:
  assumes w: "ok w" "disk w = D" and law: "min_law K" and mem: "enough_memory K ok" and mnt: "mounted h B root tbl st"
    and dirst: "eb_partition dir = h" "eb_node dir = Some (np, dm)" "unat (eb_block_size dir) = B"
    and dir: "ext2_directory D B dm bss"
    and f: "find (dir_match f) (concat bss) = Some e" and on: "inode_on_disk D B (es_super st) tbl (unat (d_ino e))"
  obtains a w' where "locate_by_name K st dir f w = Some (Inr (Some a, w'))" "ok w'" "disk w' = D"
    "map_option snd (la_node a) =
       Some (bytes_at (inode_pos (es_super st) tbl B (unat (d_ino e))) (unat (sb_inode_size (es_super st))) D)"
    "la_super a = st"
proof -
  obtain p w1 where a: "k_alloc K 24 w = (p, w1)" "p \<noteq> 0" "ok w1" "disk w1 = disk w"
    by (rule enough_alloc [OF mem w(1)])
  have w1: "disk w1 = D" using a w by simp
  from lookup_inode_ok(2) [OF a(3) w1 law mem mnt dirst dir f on] show thesis
    using a by (elim exE conjE) (rule that, auto simp: locate_by_name_def)
qed

lemma locate_missing:
  assumes w: "ok w" "disk w = D" and law: "min_law K" and mem: "enough_memory K ok" and mnt: "mounted h B root tbl st"
    and dirst: "eb_partition dir = h" "eb_node dir = Some (np, dm)" "unat (eb_block_size dir) = B"
    and dir: "ext2_directory D B dm bss" and f: "find (dir_match f) (concat bss) = None"
  obtains a w' where "locate_by_name K st dir f w = Some (Inr (Some a, w'))" "ok w'" "disk w' = D"
    "la_node a = None" "la_super a = st"
proof -
  obtain p w1 where a: "k_alloc K 24 w = (p, w1)" "p \<noteq> 0" "ok w1" "disk w1 = disk w"
    by (rule enough_alloc [OF mem w(1)])
  have w1: "disk w1 = D" using a w by simp
  from lookup_inode_ok(1) [OF a(3) w1 law mem mnt dirst dir f] show thesis
    using a by (elim exE conjE) (rule that, auto simp: locate_by_name_def)
qed

lemma init_node_ok:
  assumes mem: "enough_memory K ok" and op: "opens K h disk ok" and w: "ok (env s)" "disk (env s) = D"
    and path: "es_path (la_super a) \<noteq> None"
  obtains p s' where "p = fst (k_alloc K 48 (env s))" "init_ext2_node K (Some r) (Some a) s =
      Inr (0, Some (r\<lparr>driver_state := Some \<lparr>en_self = p, en_super = la_super a,
        en_basic = \<lparr>eb_partition = h, eb_node = la_node a, eb_attributes = le_at (fresh_bytes K p 48) 24 8,
          eb_block_size = eb_block_size (es_basic (la_super a)), eb_inode = la_inode a\<rparr>\<rparr>\<rparr>), s')"
    "ok (env s')" "disk (env s') = D"
proof -
  obtain p w1 where a: "k_alloc K 48 (env s) = (p, w1)" "p \<noteq> 0" "ok w1" "disk w1 = disk (env s)"
    by (rule enough_alloc [OF mem w(1)])
  obtain pp pth where pth: "es_path (la_super a) = Some (pp, pth)" using path by auto
  obtain w2 where o: "k_vfs_open K pth (le_at (fresh_bytes K p 48) 8 8) w1 = (h, w2)" "ok w2" "disk w2 = disk w1" "h \<noteq> 0"
    by (rule opensE [OF op a(3)])
  show thesis
    by (rule that [of p "s\<lparr>env := k_free K (la_self a) w2\<rparr>"])
      (use a o w pth free_frame [OF o(2), of "la_self a"] in \<open>simp_all add: init_ext2_node_def Let_def\<close>)
qed

end

section \<open>Mounting\<close>

text \<open>The geometry that a superblock describes, in natural numbers.\<close>

definition block_bytes :: "ext2_super_block \<Rightarrow> nat" where
  "block_bytes sb = 1024 * 2 ^ unat (sb_log2_block_size sb)"

definition group_count :: "ext2_super_block \<Rightarrow> nat" where
  "group_count sb = min
     ((unat (sb_total_blocks sb) + unat (sb_blocks_per_group sb) - 1) div unat (sb_blocks_per_group sb))
     ((unat (sb_total_inodes sb) + unat (sb_inodes_per_group sb) - 1) div unat (sb_inodes_per_group sb))"

definition table_pos :: "ext2_super_block \<Rightarrow> nat" where
  "table_pos sb = (1 + unat (sb_superblock sb)) * block_bytes sb"

definition desc_table :: "u8 list \<Rightarrow> ext2_super_block \<Rightarrow> u8 list" where
  "desc_table D sb = bytes_at (table_pos sb) (group_count sb * 32) D"

definition geometry_ok :: "u8 list \<Rightarrow> ext2_super_block \<Rightarrow> bool" where
  "geometry_ok D sb \<longleftrightarrow> unat (sb_log2_block_size sb) \<le> 20 \<and> 0 < unat (sb_blocks_per_group sb) \<and>
     unat (sb_total_blocks sb) + unat (sb_blocks_per_group sb) \<le> 2 ^ 32 \<and>
     unat (sb_total_inodes sb) + unat (sb_inodes_per_group sb) \<le> 2 ^ 32 \<and>
     1 + unat (sb_superblock sb) < 2 ^ 32 \<and> 0 < group_count sb \<and>
     table_pos sb + group_count sb * 32 \<le> length D \<and> inode_on_disk D (block_bytes sb) sb (desc_table D sb) 2"

lemma block_size_of:
  assumes "unat l \<le> 20"
  shows "unat (ext2_block_size_of l) = 1024 * 2 ^ unat l"
proof -
  have "signed_take_bit 31 (int n) = int n" if "n \<le> 20" for n
    using that by (intro signed_take_bit_int_eq_self) simp_all
  from this [OF assms] have s: "nat (sint l) = unat l" by (simp add: sint_uint)
  have pow: "((\<lambda>bs :: u64. push_bit 1 bs) ^^ k) x = push_bit k x" for k x
    by (induction k) (simp_all del: push_bit_Suc add: push_bit_push_bit)
  have le: "(2 :: nat) ^ unat l \<le> 2 ^ 20" using assms by (intro power_increasing) simp_all
  then have "1024 * (2 :: nat) ^ unat l < 2 ^ 64" by simp
  then have "unat (push_bit (unat l) 1024 :: u64) = 1024 * 2 ^ unat l"
    by (simp only: unsigned_push_bit_eq) (simp add: push_bit_eq_mult take_bit_nat_eq_self)
  then show ?thesis unfolding ext2_block_size_of_def s pow .
qed

lemma div_round_up_ok:
  assumes "0 < unat b" and "unat a + unat b \<le> 2 ^ 32"
  obtains z where "div_round_up a b = Inr z" "unat z = (unat a + unat b - 1) div unat b"
proof -
  have "unat (a + b - 1) = unat a + unat b - 1"
  proof (cases "unat a + unat b = 2 ^ 32")
    case True
    then have "a + b = 0" by (simp add: word_unat_eq_iff unat_word_ariths)
    moreover have "unat (- 1 :: u32) = 2 ^ 32 - 1" by (simp add: unsigned_minus_1_eq_mask mask_eq_exp_minus_1)
    ultimately show ?thesis using True by simp
  next
    case False
    then have s: "unat (a + b) = unat a + unat b" using assms(2) by (simp add: unat_word_ariths)
    then have "a + b \<noteq> 0" using assms(1) by auto
    then show ?thesis using s assms(1) by (simp add: unat_minus_one)
  qed
  then show thesis using assms(1) by (intro that [of "(a + b - 1) div b"]) (auto simp: div_round_up_def unat_div)
qed

context vfs_disk begin

lemma mount_groups_ok:
  assumes w: "ok w" "disk w = D" and part: "eb_partition (es_basic st) = h" and law: "min_law K"
    and mem: "enough_memory K ok" and geo: "geometry_ok D (es_super st)"
  defines "B \<equiv> block_bytes (es_super st)" and "tbl \<equiv> desc_table D (es_super st)"
  obtains st' w' where "mount_groups K path st w = Inr (0, st', w')" "ok w'" "disk w' = D"
    "mounted h B (bytes_at (inode_pos (es_super st) tbl B 2) (unat (sb_inode_size (es_super st))) D) tbl st'"
    "es_super st' = es_super st" "eb_attributes (es_basic st') = eb_attributes (es_basic st)"
    "map_option snd (es_path st') = Some path" "es_self st' = es_self st"
proof -
  let ?sb = "es_super st"
  have G: "unat (sb_log2_block_size ?sb) \<le> 20" "0 < unat (sb_blocks_per_group ?sb)"
    "unat (sb_total_blocks ?sb) + unat (sb_blocks_per_group ?sb) \<le> 2 ^ 32"
    "unat (sb_total_inodes ?sb) + unat (sb_inodes_per_group ?sb) \<le> 2 ^ 32"
    "1 + unat (sb_superblock ?sb) < 2 ^ 32" "0 < group_count ?sb" "table_pos ?sb + group_count ?sb * 32 \<le> length D"
    "inode_on_disk D B ?sb tbl 2" "0 < unat (sb_inodes_per_group ?sb)"
    using geo by (simp_all add: geometry_ok_def B_def tbl_def inode_on_disk_def)
  obtain x where x: "div_round_up (sb_total_blocks ?sb) (sb_blocks_per_group ?sb) = Inr x"
    "unat x = (unat (sb_total_blocks ?sb) + unat (sb_blocks_per_group ?sb) - 1) div unat (sb_blocks_per_group ?sb)"
    by (rule div_round_up_ok [OF G(2,3)])
  obtain y where y: "div_round_up (sb_total_inodes ?sb) (sb_inodes_per_group ?sb) = Inr y"
    "unat y = (unat (sb_total_inodes ?sb) + unat (sb_inodes_per_group ?sb) - 1) div unat (sb_inodes_per_group ?sb)"
    by (rule div_round_up_ok [OF G(9,4)])
  define n where "n = k_min K (ucast x) (ucast y)"
  have uu: "unat (ucast x :: u64) = unat x" "unat (ucast y :: u64) = unat y"
    using unsigned_less [of x, where 'a = nat] unsigned_less [of y, where 'a = nat]
    by (simp_all add: unsigned_ucast_eq take_bit_nat_eq_self)
  have n: "unat n = group_count ?sb"
    using law uu by (auto simp: n_def min_law_def min_def word_le_nat_alt group_count_def x(2) y(2))
  have "group_count ?sb < 2 ^ 32"
    using unsigned_less [of x, where 'a = nat] unfolding group_count_def x(2) [symmetric]
    by (simp add: min_less_iff_disj)
  then have n32: "unat (n * 32) = group_count ?sb * 32" by (simp add: unat_word_ariths n)
  define bs where "bs = ext2_block_size_of (sb_log2_block_size ?sb)"
  have bs: "unat bs = B" using block_size_of [OF G(1)] by (simp add: bs_def B_def block_bytes_def)
  obtain p w1 where a: "k_alloc K (n * 32) w = (p, w1)" "p \<noteq> 0" "ok w1" "disk w1 = disk w"
    by (rule enough_alloc [OF mem w(1)])
  define off where "off = ucast (1 + sb_superblock ?sb) * bs"
  have off: "unat off = table_pos ?sb"
  proof -
    have "unat (1 + sb_superblock ?sb) = 1 + unat (sb_superblock ?sb)" using G(5) by (simp add: unat_word_ariths)
    then show ?thesis
      using block_address [of "1 + sb_superblock ?sb" bs 0] disk_size [OF w(1)] G(7) w(2) bs
      by (simp add: off_def table_pos_def B_def)
  qed
  have c: "0 < unat (1 :: u64) * unat (n * 32)" using n32 G(6) by simp
  obtain w3 where r: "k_vfs_read K h 1 (n * 32) (k_vfs_seek K h off w1) = (1 * (n * 32), tbl, w3)" "ok w3" "disk w3 = D"
    using seek_read [OF a(3) c, of off] a(4) w(2) G(7) off n32 by (auto simp: tbl_def desc_table_def)
  have lt: "length tbl = group_count ?sb * 32" using G(7) by (simp add: tbl_def desc_table_def)
  have m: "mem_write (fresh_bytes K p (n * 32)) 0 tbl = Inr tbl" using lt n32 by (simp add: mem_write_ok blit_whole)
  obtain pp w4 where sd: "k_strdup K path w3 = (Some (pp, path), w4)" "ok w4" "disk w4 = D"
  proof -
    obtain q v where q: "k_alloc K (word_of_nat (length path) + 1) w3 = (q, v)" "q \<noteq> 0" "ok v" "disk v = disk w3"
      by (rule enough_alloc [OF mem r(2)])
    then show thesis using r(3) by (intro that [of q v]) (simp_all add: k_strdup_def)
  qed
  let ?st1 = "st\<lparr>es_basic := (es_basic st)\<lparr>eb_block_size := bs\<rparr>, es_count := n, es_table := Some (p, tbl), es_path := Some (pp, path)\<rparr>"
  obtain ip w5 where ai: "k_alloc K (ucast (sb_inode_size ?sb)) w4 = (ip, w5)" "ip \<noteq> 0"
    by (rule enough_alloc [OF mem sd(2)])
  have two: "unat (2 :: u64) = 2" by simp
  obtain w6 where rd: "ext2_read_inode K (Some ?st1) 2 w4 =
      Inr (Some (ip, bytes_at (inode_pos ?sb tbl B 2) (unat (sb_inode_size ?sb)) D), w6)" "ok w6" "disk w6 = D"
    using read_inode_ok [OF sd(2,3), of ?st1 B p tbl 2 ip w5, unfolded two] part bs G(8) ai by auto
  let ?st2 = "?st1\<lparr>es_basic := (es_basic ?st1)\<lparr>eb_node := Some (ip, bytes_at (inode_pos ?sb tbl B 2) (unat (sb_inode_size ?sb)) D), eb_inode := 2\<rparr>\<rparr>"
  have "mount_groups K path st w = Inr (0, ?st2, w6)"
    using x(1) y(1) a(1,2) r(1) m sd(1) rd(1) part
    by (simp add: mount_groups_def Let_def n_def [symmetric] bs_def [symmetric] off_def [symmetric])
  then show thesis
    by (rule that) (use rd part bs in \<open>simp_all add: mounted_def\<close>)
qed

lemma init_super_ok:
  assumes w: "ok (env s)" "disk (env s) = D" and law: "min_law K" and masks: "mask_laws K"
    and mem: "enough_memory K ok" and op: "opens K h disk ok"
    and room: "1024 + super_size \<le> length D"
  defines "sb \<equiv> super_of (bytes_at 1024 super_size D)"
  defines "B \<equiv> block_bytes sb" and "tbl \<equiv> desc_table D sb"
  assumes sig: "sb_sig sb = EXT2_SIG" and clean: "sb_state sb = 1 \<or> sb_err_handle sb \<noteq> 3"
    and features: "\<not> bit (sb_required_features sb) 0" "\<not> bit (sb_required_features sb) 2" "\<not> bit (sb_required_features sb) 3"
    and geo: "geometry_ok D sb"
  obtains st s' where "init_ext2_super K (Some r) (Some path) s = Inr (0, Some (r\<lparr>driver_state := Some st\<rparr>), s')"
    "ok (env s')" "disk (env s') = D" "es_super st = sb" "map_option snd (es_path st) = Some path"
    "mounted h B (bytes_at (inode_pos sb tbl B 2) (unat (sb_inode_size sb)) D) tbl st"
    "bit (eb_attributes (es_basic st)) 1 = ((sb_state sb = 1 \<or> sb_err_handle sb \<noteq> 2) \<and>
       \<not> bit (sb_write_features sb) 0 \<and> \<not> bit (sb_write_features sb) 2)"
proof -
  obtain p w1 where a: "k_alloc K 304 (env s) = (p, w1)" "p \<noteq> 0" "ok w1" "disk w1 = disk (env s)"
    by (rule enough_alloc [OF mem w(1)])
  obtain w2 where o: "k_vfs_open K path 0 w1 = (h, w2)" "ok w2" "disk w2 = disk w1" "h \<noteq> 0"
    by (rule opensE [OF op a(3)])
  let ?n = "word_of_nat super_size :: u64"
  have n: "unat ?n = super_size" by (simp add: super_size_def)
  obtain w4 where r: "k_vfs_read K h 1 ?n (k_vfs_seek K h 1024 w2) = (1 * ?n, bytes_at 1024 super_size D, w4)"
    "ok w4" "disk w4 = D"
    using seek_read [OF o(2), of 1 ?n 1024] room o(3) a(4) w(2) n by (auto simp: super_size_def)
  have m: "mem_write (replicate super_size 0) 0 (bytes_at 1024 super_size D) = Inr (bytes_at 1024 super_size D)"
    using room by (simp add: mem_write_ok blit_whole)
  define st where "st = \<lparr>es_self = p, es_path = None, es_table = None, es_count = 0,
       es_basic = \<lparr>eb_partition = h, eb_node = None, eb_attributes = k_masked_write K 0 1 1 1, eb_block_size = 0, eb_inode = 0\<rparr>,
       es_super = sb\<rparr>"
  have st: "es_super st = sb" "eb_partition (es_basic st) = h" by (simp_all add: st_def)
  have on: "bit (eb_attributes (es_basic st)) 1" using masks by (simp add: st_def mask_lawsD bit_simps)
  obtain ret out where chk: "ext2_check_super K (Some st) = (ret, out)" by fastforce
  have ret: "ret = 0"
    using chk clean features by (auto simp: ext2_check_super_def Let_def feature_bit [OF masks] st split: if_splits)
  have eq: "(if sb_state sb \<noteq> 1 then sb_err_handle sb \<noteq> 2 else bit (eb_attributes (es_basic st)) 1) =
      (sb_state sb = 1 \<or> sb_err_handle sb \<noteq> 2)" using on by auto
  obtain st1 b where st1: "out = Some st1" "attributes_set st b st1"
    "b = ((sb_state sb = 1 \<or> sb_err_handle sb \<noteq> 2) \<and> \<not> bit (sb_write_features sb) 0 \<and> \<not> bit (sb_write_features sb) 2)"
    using check_super_attributes [OF masks chk, unfolded st eq] ret by blast
  have st1': "es_super st1 = sb" "eb_partition (es_basic st1) = h" "bit (eb_attributes (es_basic st1)) 1 = b"
    using st1(2) st by (auto simp: attributes_set_def)
  obtain st2 w5 where mnt: "mount_groups K path st1 w4 = Inr (0, st2, w5)" "ok w5" "disk w5 = D"
    "mounted h B (bytes_at (inode_pos sb tbl B 2) (unat (sb_inode_size sb)) D) tbl st2"
    "es_super st2 = sb" "eb_attributes (es_basic st2) = eb_attributes (es_basic st1)"
    "map_option snd (es_path st2) = Some path"
    using mount_groups_ok [OF r(2,3) st1'(2) law mem, of path, unfolded st1'(1), OF geo] unfolding B_def tbl_def by metis
  have "init_ext2_super K (Some r) (Some path) s = Inr (0, Some (r\<lparr>driver_state := Some st2\<rparr>), s\<lparr>env := w5\<rparr>)"
    unfolding init_ext2_super_def
    using a o r(1) m sig chk ret st1(1) mnt(1) by (simp add: Let_def sb_def [symmetric] st_def [symmetric, unfolded One_nat_def])
  then show thesis
    by (rule that) (use mnt st1' st1(3) in simp_all)
qed

end

section \<open>Allocation while mounting\<close>

text \<open>The VFS calls do not touch the drivers' allocations.\<close>

definition vfs_quiet :: "('w, 'z) kernel_scheme \<Rightarrow> ('w \<Rightarrow> u64 set) \<Rightarrow> bool" where
  "vfs_quiet K live \<longleftrightarrow> (\<forall>path h w. live (snd (k_vfs_open K path h w)) = live w) \<and>
     (\<forall>h w. live (k_vfs_close K h w) = live w) \<and> (\<forall>h off w. live (k_vfs_seek K h off w) = live w) \<and>
     (\<forall>h sz cnt w. live (snd (snd (k_vfs_read K h sz cnt w))) = live w)"

lemma vfs_quietD:
  assumes "vfs_quiet K live"
  shows "k_vfs_open K path h w = (h', w') \<Longrightarrow> live w' = live w" and "live (k_vfs_close K h w) = live w"
    and "live (k_vfs_seek K h off w) = live w" and "k_vfs_read K h sz cnt w = (n, bs, w') \<Longrightarrow> live w' = live w"
  using assms unfolding vfs_quiet_def by (metis snd_conv)+

lemma ext2_check_super_keeps:
  "ext2_check_super K (Some st) = (ret, out) \<Longrightarrow> \<exists>st'. out = Some st' \<and> es_self st' = es_self st"
  by (auto simp: ext2_check_super_def Let_def split: if_splits)

context kernel_heap begin

lemma mount_groups_fails:
  assumes q: "vfs_quiet K live" and self: "es_self st \<in> live w"
    and run: "mount_groups K path st w = Inr (code, st', w')" "code \<noteq> 0"
  shows "live w' = live w - {es_self st}"
proof -
  note Q = vfs_quietD [OF q]
  let ?sb = "es_super st" and ?drive = "eb_partition (es_basic st)"
  obtain x y where xy: "div_round_up (sb_total_blocks ?sb) (sb_blocks_per_group ?sb) = Inr x"
    "div_round_up (sb_total_inodes ?sb) (sb_inodes_per_group ?sb) = Inr y"
    using run(1) by (auto simp: mount_groups_def Let_def res_bind_eq_Inr)
  define n where "n = k_min K (ucast x) (ucast y)"
  obtain p w1 where a: "k_alloc K (n * 32) w = (p, w1)" by fastforce
  show ?thesis
  proof (cases "p = 0")
    case True
    then have "w' = k_free K (es_self st) (k_vfs_close K ?drive w1)"
      using run(1) xy a by (simp add: mount_groups_def Let_def n_def [symmetric])
    moreover have "live w1 = live w" using alloc_failed a True by simp
    ultimately show ?thesis using free_live [of "es_self st" "k_vfs_close K ?drive w1"] self Q(2) by simp
  next
    case False
    note fresh = alloc_fresh [OF a False] and adds = alloc_adds [OF a False]
    define off where "off = ucast (1 + sb_superblock ?sb) * ext2_block_size_of (sb_log2_block_size ?sb)"
    obtain k bs w3 where r: "k_vfs_read K ?drive 1 (n * 32) (k_vfs_seek K ?drive off w1) = (k, bs, w3)"
      using prod_cases3 by blast
    have w3: "live w3 = live w1" using Q(4) [OF r] Q(3) by simp
    obtain tbl where tbl: "mem_write (fresh_bytes K p (n * 32)) 0 bs = Inr tbl"
      using run(1) xy a False r by (auto simp: mount_groups_def Let_def n_def [symmetric] off_def [symmetric] res_bind_eq_Inr)
    have "k \<noteq> n * 32"
      using run xy a False r tbl
      by (auto simp: mount_groups_def Let_def n_def [symmetric] off_def [symmetric] res_bind_eq_Inr split: prod.splits)
    then have w': "w' = k_free K (es_self st) (k_free K p (k_vfs_close K ?drive w3))"
      using run(1) xy a False r tbl by (simp add: mount_groups_def Let_def n_def [symmetric] off_def [symmetric])
    have "live (k_free K p (k_vfs_close K ?drive w3)) = live w"
      using free_live [of p "k_vfs_close K ?drive w3"] Q(2) w3 adds fresh by simp
    then show ?thesis unfolding w' using free_live [of "es_self st" "k_free K p (k_vfs_close K ?drive w3)"] self by simp
  qed
qed

lemma init_super_fails:
  assumes q: "vfs_quiet K live"
    and run: "init_ext2_super K (Some r) (Some path) s = Inr (code, out, s')" and failed: "code \<noteq> 0"
  shows "out = Some r \<and> live (env s') = live (env s) \<and> current_id s' = current_id s"
proof -
  note Q = vfs_quietD [OF q]
  obtain p w1 where a: "k_alloc K 304 (env s) = (p, w1)" by fastforce
  show ?thesis
  proof (cases "p = 0")
    case True
    then show ?thesis using run a alloc_failed by (auto simp: init_ext2_super_def)
  next
    case False
    note fresh = alloc_fresh [OF a False] and adds = alloc_adds [OF a False]
    obtain drive w2 where o: "k_vfs_open K path 0 w1 = (drive, w2)" by fastforce
    have undo: "live (k_free K p w) = live (env s)" if "live w = live w1" for w
      using that fresh adds free_live [of p w] by simp
    show ?thesis
    proof (cases "drive = 0")
      case True
      then show ?thesis using run a False o Q(1) [OF o] Q(2) undo by (auto simp: init_ext2_super_def)
    next
      case dnz: False
      obtain n bs w4 where r: "k_vfs_read K drive 1 (word_of_nat super_size) (k_vfs_seek K drive 1024 w2) = (n, bs, w4)"
        using prod_cases3 by blast
      have w4: "live w4 = live w1" using Q(1) [OF o] Q(3) Q(4) [OF r] by simp
      obtain sbm where sbm: "mem_write (replicate super_size 0) 0 bs = Inr sbm"
        using run a False o dnz r by (auto simp: init_ext2_super_def Let_def res_bind_eq_Inr)
      define st where "st = \<lparr>es_self = p, es_path = None, es_table = None, es_count = 0,
         es_basic = \<lparr>eb_partition = drive, eb_node = None, eb_attributes = k_masked_write K 0 1 1 1, eb_block_size = 0, eb_inode = 0\<rparr>,
         es_super = super_of sbm\<rparr>"
      obtain ret chk where c: "ext2_check_super K (Some st) = (ret, chk)" by fastforce
      obtain st1 where st1: "chk = Some st1" "es_self st1 = p"
        using ext2_check_super_keeps [OF c] by (auto simp: st_def)
      define early where "early = (n \<noteq> word_of_nat super_size \<or> sb_sig (super_of sbm) \<noteq> EXT2_SIG \<or> ret \<noteq> 0)"
      have early: "out = Some r \<and> s' = s\<lparr>env := k_free K p (k_vfs_close K drive w4)\<rparr>" if early
        using run a False o dnz r sbm c that
        by (auto simp: init_ext2_super_def Let_def st_def [symmetric, unfolded One_nat_def] early_def split: if_splits)
      have late: "\<exists>st2. out = Some r \<and> mount_groups K path st1 w4 = Inr (code, st2, env s') \<and> current_id s' = current_id s"
        if "\<not> early"
        using run a False o dnz r sbm c that failed st1(1)
        by (auto simp: init_ext2_super_def Let_def st_def [symmetric, unfolded One_nat_def] early_def res_bind_eq_Inr split: if_splits)
      show ?thesis
      proof (cases early)
        case True
        from early [OF this] show ?thesis using undo Q(2) w4 by simp
      next
        case False
        from late [OF this] obtain st2 where l: "out = Some r" "mount_groups K path st1 w4 = Inr (code, st2, env s')"
          "current_id s' = current_id s" by blast
        have "es_self st1 \<in> live w4" using adds w4 st1(2) by simp
        from mount_groups_fails [OF q this l(2) failed] show ?thesis
          using l fresh adds w4 st1(2) by simp
      qed
    qed
  qed
qed

end

end
