(* ===== verification/Ext2_Mount_Props.thy ===== *)
theory Ext2_Mount_Props
  imports Ext2_Super_Props
begin

text \<open>
  The properties of the ext2 super, directory and file drivers: checking a superblock, mounting, inodes
  by number, and the path from a name to the file's bytes, with witnesses on a 2304-byte partition.
\<close>

section \<open>Checking the superblock\<close>

text \<open>
  C33 (ext2_check_super_outcome): which file systems are refused and with which code, and for the others
  when writing is allowed afterwards: no feature that forbids it, and no recorded error that asks for a
  read-only mount. No other attribute and no other part of the state changes.
\<close>

theorem ext2_check_super_outcome:
  assumes laws: "mask_laws K" and run: "ext2_check_super K (Some st) = (ret, out)"
  defines "sb \<equiv> es_super st" and "before \<equiv> eb_attributes (es_basic st)"
  shows "ret = (if sb_state sb \<noteq> 1 \<and> sb_err_handle sb = 3 then - 2
            else if bit (sb_required_features sb) 0 then - 3
            else if bit (sb_required_features sb) 2 then - 4
            else if bit (sb_required_features sb) 3 then - 5 else 0) \<and>
    (\<exists>attrs. out = Some (st\<lparr>es_basic := (es_basic st)\<lparr>eb_attributes := attrs\<rparr>\<rparr>) \<and>
       (\<forall>n < 64. n \<noteq> 1 \<longrightarrow> bit attrs n = bit before n) \<and>
       (ret = 0 \<longrightarrow> bit attrs 1 = (\<not> bit (sb_write_features sb) 0 \<and> \<not> bit (sb_write_features sb) 2 \<and>
          (if sb_state sb = 1 then bit before 1 else sb_err_handle sb \<noteq> 2))))"
proof (rule conjI)
  show "ret = (if sb_state sb \<noteq> 1 \<and> sb_err_handle sb = 3 then - 2
            else if bit (sb_required_features sb) 0 then - 3
            else if bit (sb_required_features sb) 2 then - 4
            else if bit (sb_required_features sb) 3 then - 5 else 0)"
    using run by (auto simp: ext2_check_super_def Let_def feature_bit [OF laws] sb_def split: if_splits)
  obtain st' w where "out = Some st'" "attributes_set st w st'"
    "ret = 0 \<longrightarrow> w = ((if sb_state sb \<noteq> 1 then sb_err_handle sb \<noteq> 2 else bit before 1) \<and>
      \<not> bit (sb_write_features sb) 0 \<and> \<not> bit (sb_write_features sb) 2)"
    using check_super_attributes [OF laws run] unfolding sb_def before_def by blast
  then show "\<exists>attrs. out = Some (st\<lparr>es_basic := (es_basic st)\<lparr>eb_attributes := attrs\<rparr>\<rparr>) \<and>
       (\<forall>n < 64. n \<noteq> 1 \<longrightarrow> bit attrs n = bit before n) \<and>
       (ret = 0 \<longrightarrow> bit attrs 1 = (\<not> bit (sb_write_features sb) 0 \<and> \<not> bit (sb_write_features sb) 2 \<and>
          (if sb_state sb = 1 then bit before 1 else sb_err_handle sb \<noteq> 2)))"
    by (auto simp: attributes_set_def before_def)
qed

section \<open>The partition for the witnesses\<close>

text \<open>
  Blocks of 1024 bytes: the superblock in block 1, one descriptor in block 2, the inodes in block 3, the
  root directory's entries in block 4 and the only file's bytes in block 5.
\<close>

definition demo_super_bytes :: "u8 list" where
  "demo_super_bytes = le_bytes 4 8 @ le_bytes 4 8 @ replicate 12 0 @ le_bytes 4 1 @ le_bytes 4 0 @ replicate 4 0 @
     le_bytes 4 8 @ replicate 4 0 @ le_bytes 4 8 @ replicate 12 0 @ le_bytes 2 0xEF53 @ le_bytes 2 1 @ le_bytes 2 1 @
     replicate 10 0 @ le_bytes 4 0 @ replicate 12 0 @ le_bytes 2 128 @ replicate 2 0 @ le_bytes 4 0 @ le_bytes 4 2 @
     le_bytes 4 0 @ replicate 132 0"

definition demo_desc :: "u8 list" where
  "demo_desc = replicate 8 0 @ le_bytes 4 3 @ replicate 20 0"

definition demo_inode :: "nat \<Rightarrow> u8 list" where
  "demo_inode b = replicate 40 0 @ le_bytes 4 b @ replicate 84 0"

definition demo_ent :: dirent where
  "demo_ent = \<lparr>d_ino = 3, d_type = 1, d_name = [97], d_pad = replicate 1015 0\<rparr>"

definition demo_file :: "u8 list" where
  "demo_file = [1, 2, 3, 4] @ replicate 1020 7"

definition demo_partition :: "u8 list" where
  "demo_partition = replicate 1024 0 @ demo_super_bytes @ replicate 788 0 @ demo_desc @ replicate 992 0 @
     replicate 128 0 @ demo_inode 4 @ demo_inode 5 @ replicate 640 0 @ dir_bytes [demo_ent] @ demo_file"

lemma demo_part_lengths [simp]:
  "length demo_super_bytes = 236" "length demo_desc = 32" "length (demo_inode b) = 128" "length demo_file = 1024"
  "length (dir_bytes [demo_ent]) = 1024" "length demo_partition = 6144"
  by (simp_all add: demo_super_bytes_def demo_desc_def demo_inode_def demo_file_def demo_partition_def demo_ent_def dirent_size_def)

lemma le_at_entry: "le_at (xs @ le_bytes n v @ ys) (length xs) n = le_word (le_bytes n v)"
  by (simp add: le_at_def bytes_at_after bytes_at_first)

lemma le_word_bytes: "v < 256 ^ n \<Longrightarrow> le_word (le_bytes n v) = word_of_nat v"
  by (simp add: le_word_def le_nat_le_bytes)

lemma demo_super: "super_of demo_super_bytes =
  \<lparr>sb_total_inodes = 8, sb_total_blocks = 8, sb_superblock = 1, sb_log2_block_size = 0, sb_blocks_per_group = 8,
   sb_inodes_per_group = 8, sb_sig = EXT2_SIG, sb_state = 1, sb_err_handle = 1, sb_os_id = 0, sb_inode_size = 128,
   sb_opt_features = 0, sb_required_features = 2, sb_write_features = 0\<rparr>"
  by (simp add: super_of_def demo_super_bytes_def le_at_def bytes_at_after bytes_at_first le_word_bytes EXT2_SIG_def)

lemma demo_part_super: "bytes_at 1024 super_size demo_partition = demo_super_bytes"
  by (simp add: demo_partition_def super_size_def bytes_at_after bytes_at_first)

abbreviation demo_sb :: ext2_super_block where
  "demo_sb \<equiv> super_of demo_super_bytes"

lemma demo_geometry:
  "block_bytes demo_sb = 1024" "group_count demo_sb = 1" "table_pos demo_sb = 2048" "desc_table demo_partition demo_sb = demo_desc"
proof -
  show g: "block_bytes demo_sb = 1024" "group_count demo_sb = 1" "table_pos demo_sb = 2048"
    by (simp_all add: demo_super block_bytes_def group_count_def table_pos_def)
  show "desc_table demo_partition demo_sb = demo_desc"
    by (simp add: desc_table_def g demo_partition_def bytes_at_after bytes_at_first)
qed

lemma demo_inode_pos: "1 \<le> n \<Longrightarrow> n \<le> 8 \<Longrightarrow> inode_pos demo_sb demo_desc 1024 n = 3072 + 128 * (n - 1)"
proof -
  assume n: "1 \<le> n" "n \<le> 8"
  have "ptr_at demo_desc 8 = 3"
    by (simp add: ptr_at_def demo_desc_def le_at_def bytes_at_after bytes_at_first le_word_bytes)
  moreover have "(n - 1) div 8 = 0" "(n - 1) mod 8 = n - 1" using n by simp_all
  ultimately show ?thesis by (simp add: inode_pos_def demo_super)
qed

lemma demo_inode_on_disk: "1 \<le> n \<Longrightarrow> n \<le> 8 \<Longrightarrow> inode_on_disk demo_partition 1024 demo_sb demo_desc n"
  using demo_inode_pos [of n] by (simp add: inode_on_disk_def demo_super)

lemma demo_geometry_ok: "geometry_ok demo_partition demo_sb"
proof -
  have "inode_on_disk demo_partition 1024 demo_sb demo_desc 2" by (rule demo_inode_on_disk) simp_all
  then show ?thesis by (simp add: geometry_ok_def demo_geometry) (simp add: demo_super)
qed

lemma demo_inodes:
  "bytes_at 3200 128 demo_partition = demo_inode 4" "bytes_at 3328 128 demo_partition = demo_inode 5"
  "bytes_at 4096 1024 demo_partition = dir_bytes [demo_ent]" "bytes_at 5120 1024 demo_partition = demo_file"
  using bytes_at_all [of demo_file]
  by (simp_all add: demo_partition_def bytes_at_after bytes_at_first del: dir_bytes_simps bytes_at_all)

lemma roomy_memory: "enough_memory roomy_kernel sim_ok"
  by (simp add: enough_memory_def)

lemma roomy_opens: "opens roomy_kernel 1 sim_disk sim_ok"
  by (simp add: opens_def roomy_kernel_def sim_kernel_def)

definition demo_sys :: "sim_world rsys" where
  "demo_sys = \<lparr>current_id = 0, env = sim_init demo_partition\<rparr>"

lemma demo_sys_ok: "sim_ok (env demo_sys)" "sim_disk (env demo_sys) = demo_partition"
  by (simp_all add: demo_sys_def sim_init_ok)

definition fresh_resource :: "'s resource" where
  "fresh_resource = \<lparr>driver = Some 0, driver_state = None, res_id = 1, dri_index = 0, dri_group = 0\<rparr>"

section \<open>Mounting\<close>

text \<open>
  C2 (ext2_mount_reads_root): on a partition with a valid superblock whose geometry fits, the super
  driver comes up with the superblock, the descriptor table and the root directory's inode (number 2)
  taken from where the format puts them, keeps the path of the partition, allows writing exactly when the
  superblock does, and leaves the partition alone.
\<close>

theorem ext2_mount_reads_root:
  assumes vfs: "vfs_disk K h disk pos ok" and w: "ok (env s)" "disk (env s) = D"
    and laws: "min_law K" "mask_laws K" and mem: "enough_memory K ok" and op: "opens K h disk ok"
    and sb: "1024 + super_size \<le> length D" "super_of (bytes_at 1024 super_size D) = sb"
    and sig: "sb_sig sb = EXT2_SIG" and clean: "sb_state sb = 1 \<or> sb_err_handle sb \<noteq> 3"
    and features: "\<not> bit (sb_required_features sb) 0" "\<not> bit (sb_required_features sb) 2" "\<not> bit (sb_required_features sb) 3"
    and geo: "geometry_ok D sb"
  shows "\<exists>st s'. init_ext2_super K (Some r) (Some path) s = Inr (0, Some (r\<lparr>driver_state := Some st\<rparr>), s') \<and>
    disk (env s') = D \<and> es_super st = sb \<and> map_option snd (es_path st) = Some path \<and>
    mounted h (block_bytes sb)
      (bytes_at (inode_pos sb (desc_table D sb) (block_bytes sb) 2) (unat (sb_inode_size sb)) D) (desc_table D sb) st \<and>
    (bit (eb_attributes (es_basic st)) 1 \<longleftrightarrow> (sb_state sb = 1 \<or> sb_err_handle sb \<noteq> 2) \<and>
       \<not> bit (sb_write_features sb) 0 \<and> \<not> bit (sb_write_features sb) 2)"
  using vfs_disk.init_super_ok [OF vfs w laws mem op sb(1), unfolded sb(2), OF sig clean features geo, of r path]
  by metis

theorem ext2_mount_reads_root_witness:
  "\<exists>st s'. init_ext2_super roomy_kernel (Some fresh_resource) (Some [47]) demo_sys =
      Inr (0, Some (fresh_resource\<lparr>driver_state := Some st\<rparr>), s') \<and>
    mounted 1 1024 (demo_inode 4) demo_desc st \<and> bit (eb_attributes (es_basic st)) 1"
proof -
  have room: "1024 + super_size \<le> length demo_partition" by (simp add: super_size_def)
  have sb: "super_of (bytes_at 1024 super_size demo_partition) = demo_sb" by (simp add: demo_part_super)
  have f: "\<not> bit (sb_required_features demo_sb) 0" "\<not> bit (sb_required_features demo_sb) 2" "\<not> bit (sb_required_features demo_sb) 3"
    by (simp_all add: demo_super)
  have s: "sb_sig demo_sb = EXT2_SIG" "sb_state demo_sb = 1 \<or> sb_err_handle demo_sb \<noteq> 3" by (simp_all add: demo_super)
  obtain st s' where r: "init_ext2_super roomy_kernel (Some fresh_resource) (Some [47]) demo_sys =
      Inr (0, Some (fresh_resource\<lparr>driver_state := Some st\<rparr>), s')"
    "mounted 1 (block_bytes demo_sb) (bytes_at (inode_pos demo_sb (desc_table demo_partition demo_sb) (block_bytes demo_sb) 2)
        (unat (sb_inode_size demo_sb)) demo_partition) (desc_table demo_partition demo_sb) st"
    "bit (eb_attributes (es_basic st)) 1 \<longleftrightarrow> (sb_state demo_sb = 1 \<or> sb_err_handle demo_sb \<noteq> 2) \<and>
       \<not> bit (sb_write_features demo_sb) 0 \<and> \<not> bit (sb_write_features demo_sb) 2"
    using ext2_mount_reads_root [OF roomy_vfs.vfs_disk_axioms demo_sys_ok roomy_laws(1,2) roomy_memory roomy_opens room sb s f
        demo_geometry_ok, of fresh_resource "[47]"] by blast
  have "inode_pos demo_sb demo_desc 1024 2 = 3200" using demo_inode_pos [of 2] by simp
  then have "mounted 1 1024 (demo_inode 4) demo_desc st"
    using r(2) by (simp add: demo_geometry demo_inodes) (simp add: demo_super demo_inodes)
  then show ?thesis using r(1,3) by (auto simp: demo_super)
qed

section \<open>Failing to mount\<close>

text \<open>
  C32 (ext2_mount_failure_restores): a mount that returns an error code leaves no allocation behind,
  frees nothing that was there before, and does not touch the resource.
\<close>

theorem ext2_mount_failure_restores:
  assumes heap: "kernel_heap K live" and quiet: "vfs_quiet K live"
    and run: "init_ext2_super K (Some r) (Some path) s = Inr (code, out, s')" and failed: "code \<noteq> 0"
  shows "out = Some r \<and> live (env s') = live (env s) \<and> current_id s' = current_id s"
  by (rule kernel_heap.init_super_fails [OF heap quiet run failed])

lemma sim_quiet: "vfs_quiet sim_kernel sim_live"
proof -
  have "sw_live (snd (snd (sim_vfs_read h sz cnt w))) = sw_live w" for h sz cnt w
    by (simp add: sim_vfs_read_def split: sum.split option.split prod.split)
  then show ?thesis by (simp add: vfs_quiet_def sim_live_def sim_kernel_def)
qed

text \<open>A partition that ends where the superblock should start.\<close>

definition short_world :: sim_world where
  "short_world = sim_init (replicate 1024 0)"

lemma short_run: "\<exists>s'. init_ext2_super sim_kernel (Some fresh_resource) (Some [47]) \<lparr>current_id = 0, env = short_world\<rparr> =
    Inr (- 4, Some fresh_resource, s')"
proof -
  have a: "k_alloc sim_kernel 304 short_world = (64, snd (sim_alloc 304 short_world))"
    by (simp add: sim_kernel_def sim_alloc_def short_world_def sim_init_def)
  have "\<exists>w'. k_vfs_read sim_kernel 1 1 (word_of_nat super_size) (k_vfs_seek sim_kernel 1 1024 (snd (sim_alloc 304 short_world))) = (0, [], w')"
    by (simp add: sim_kernel_def sim_vfs_read_def sim_alloc_def short_world_def sim_init_def disk_resource_def buffer_read_def super_size_def)
  then obtain w' where r: "k_vfs_read sim_kernel 1 1 (word_of_nat super_size)
      (k_vfs_seek sim_kernel 1 1024 (snd (sim_alloc 304 short_world))) = (0, [], w')" ..
  have o: "k_vfs_open sim_kernel p h w = (1, w)" for p h w by (simp add: sim_kernel_def)
  have "(word_of_nat super_size :: u64) \<noteq> 0" by (simp add: super_size_def)
  then show ?thesis
    by (simp add: init_ext2_super_def a o r mem_write_ok)
qed

theorem ext2_mount_failure_restores_witness:
  "\<exists>out s'. init_ext2_super sim_kernel (Some fresh_resource) (Some [47]) \<lparr>current_id = 0, env = short_world\<rparr> =
      Inr (- 4, out, s') \<and> sim_live (env s') = {}"
proof -
  obtain s' where run: "init_ext2_super sim_kernel (Some fresh_resource) (Some [47]) \<lparr>current_id = 0, env = short_world\<rparr> =
      Inr (- 4, Some fresh_resource, s')" using short_run by blast
  have "sim_live (env s') = sim_live short_world"
    using ext2_mount_failure_restores [OF sim_heap.kernel_heap_axioms sim_quiet run] by simp
  then show ?thesis using run by (simp add: sim_live_def short_world_def sim_init_def)
qed

section \<open>Inodes by number\<close>

text \<open>
  C34 (ext2_inode_by_number): reading an inode that is on the partition allocates a buffer of the inode
  size and fills it with the bytes at the inode's place in the table of its group.
\<close>

theorem ext2_inode_by_number:
  assumes vfs: "vfs_disk K h disk pos ok" and w: "ok w" "disk w = D"
    and st: "mounted h B root tbl st" and on: "inode_on_disk D B (es_super st) tbl (unat n)"
    and a: "k_alloc K (ucast (sb_inode_size (es_super st))) w = (p, w1)" "p \<noteq> 0"
  shows "\<exists>w'. ext2_read_inode K (Some st) n w =
      Inr (Some (p, bytes_at (inode_pos (es_super st) tbl B (unat n)) (unat (sb_inode_size (es_super st))) D), w') \<and>
    disk w' = D"
proof -
  from st obtain tp where "eb_partition (es_basic st) = h" "unat (eb_block_size (es_basic st)) = B" "es_table st = Some (tp, tbl)"
    by (rule mountedE)
  from vfs_disk.read_inode_ok [OF vfs w this on a] show ?thesis by blast
qed

definition demo_mounted :: ext2_super where
  "demo_mounted = \<lparr>es_self = 4096, es_path = Some (4096, [47]), es_table = Some (4096, demo_desc), es_count = 1,
     es_basic = \<lparr>eb_partition = 1, eb_node = Some (4096, demo_inode 4), eb_attributes = 0, eb_block_size = 1024, eb_inode = 2\<rparr>,
     es_super = demo_sb\<rparr>"

lemma demo_mounted_ok: "mounted 1 1024 (demo_inode 4) demo_desc demo_mounted" "es_super demo_mounted = demo_sb"
  by (simp_all add: mounted_def demo_mounted_def)

theorem ext2_inode_by_number_witness:
  "\<exists>w'. ext2_read_inode roomy_kernel (Some demo_mounted) 3 (env demo_sys) = Inr (Some (4096, demo_inode 5), w')"
proof -
  have p: "inode_pos demo_sb demo_desc 1024 3 = 3328" using demo_inode_pos [of 3] by simp
  have on: "inode_on_disk demo_partition 1024 (es_super demo_mounted) demo_desc (unat (3 :: u64))"
    using demo_inode_on_disk [of 3] by (simp add: demo_mounted_ok)
  have i: "unat (sb_inode_size demo_sb) = 128" by (simp add: demo_super)
  have a: "k_alloc roomy_kernel n w = (4096, w)" for n w by (simp add: roomy_kernel_def)
  show ?thesis
    using ext2_inode_by_number [OF roomy_vfs.vfs_disk_axioms demo_sys_ok demo_mounted_ok(1) on a]
    by (auto simp: demo_mounted_ok p i demo_inodes)
qed

theorem ext2_check_super_outcome_witness:
  fixes st defines "st \<equiv> demo_mounted\<lparr>es_basic := (es_basic demo_mounted)\<lparr>eb_attributes := 2\<rparr>,
      es_super := demo_sb\<lparr>sb_state := 2, sb_err_handle := 2\<rparr>\<rparr>"
  shows "\<exists>attrs. ext2_check_super sim_kernel (Some st) = (0, Some (st\<lparr>es_basic := (es_basic st)\<lparr>eb_attributes := attrs\<rparr>\<rparr>)) \<and>
    \<not> bit attrs 1"
proof -
  obtain ret out where run: "ext2_check_super sim_kernel (Some st) = (ret, out)" by fastforce
  have sb: "es_super st = demo_sb\<lparr>sb_state := 2, sb_err_handle := 2\<rparr>" by (simp add: st_def)
  show ?thesis
    using ext2_check_super_outcome [OF sim_laws(1) run] run unfolding sb by (auto simp: demo_super)
qed

section \<open>From a name to the bytes\<close>

text \<open>
  C1 (ext2_open_by_name): on a mounted partition, locating a name in the root directory, opening the
  located inode with the file driver and reading from it delivers the bytes of the first entry that the
  name matches, as the format lays them out.
\<close>

theorem ext2_open_by_name:
  assumes vfs: "vfs_disk K h disk pos ok" and w: "ok (env s)" "disk (env s) = D"
    and law: "min_law K" and mem: "enough_memory K ok" and op: "opens K h disk ok"
    and super: "driver_state r = Some st" "mounted h B root tbl st" "ext2_directory D B root bss"
    and name: "find (\<lambda>e. prefix (d_name e) f) (concat bss) = Some e"
    and inode: "inode_on_disk D B (es_super st) tbl (unat (d_ino e))"
      "bytes_at (inode_pos (es_super st) tbl B (unat (d_ino e))) (unat (sb_inode_size (es_super st))) D = m"
    and mapped: "mapped_upto D B m n" "n \<le> 12 + B div 4"
    and range: "sz \<noteq> 0" "cnt \<noteq> 0" "unat off + unat (sz * cnt) \<le> n * B" "unat off + unat (sz * cnt) < 2 ^ 64"
      "unat (sz * cnt) \<le> length buf"
  shows "\<exists>a w1 fr s2 w3. locate_ext2_super K (Some r) (Some f) (env s) = Some (Inr (Some a, w1)) \<and>
    init_ext2_file K (Some r0) (Some a) (s\<lparr>env := w1\<rparr>) = Inr (0, Some fr, s2) \<and>
    read_ext2_file K (Some buf) sz cnt (Some off) (Some fr) (env s2) =
      Some (Inr (sz * cnt, Some (blit buf 0 (ext2_data D B m (unat off) (unat (sz * cnt)))), w3))"
proof -
  obtain np where b: "eb_partition (es_basic st) = h" "eb_node (es_basic st) = Some (np, root)"
    "unat (eb_block_size (es_basic st)) = B" "es_path st \<noteq> None"
    using super(2) by (rule mountedE) auto
  have f: "find (dir_match f) (concat bss) = Some e" using name by (simp add: dir_match_def [abs_def])
  obtain a w1 where a: "locate_ext2_super K (Some r) (Some f) (env s) = Some (Inr (Some a, w1))" "ok w1" "disk w1 = D"
    "map_option snd (la_node a) = Some m" "la_super a = st"
    using vfs_disk.locate_found [OF vfs w law mem super(2) b(1-3) super(3) f inode(1)] super(1) inode(2)
    by (auto simp: locate_ext2_super_def)
  have w1: "ok (env (s\<lparr>env := w1\<rparr>))" "disk (env (s\<lparr>env := w1\<rparr>)) = D" using a by simp_all
  have path: "es_path (la_super a) \<noteq> None" using a(5) b(4) by simp
  obtain p s2 where i: "init_ext2_node K (Some r0) (Some a) (s\<lparr>env := w1\<rparr>) =
      Inr (0, Some (r0\<lparr>driver_state := Some \<lparr>en_self = p, en_super = la_super a,
        en_basic = \<lparr>eb_partition = h, eb_node = la_node a, eb_attributes = le_at (fresh_bytes K p 48) 24 8,
          eb_block_size = eb_block_size (es_basic (la_super a)), eb_inode = la_inode a\<rparr>\<rparr>\<rparr>), s2)"
    "ok (env s2)" "disk (env s2) = D"
    by (rule vfs_disk.init_node_ok [OF vfs mem op w1 path])
  let ?fb = "\<lparr>eb_partition = h, eb_node = la_node a, eb_attributes = le_at (fresh_bytes K p 48) 24 8,
          eb_block_size = eb_block_size (es_basic (la_super a)), eb_inode = la_inode a\<rparr>"
  obtain mp where node: "la_node a = Some (mp, m)" using a(4) by auto
  have fb: "eb_partition ?fb = h" "eb_node ?fb = Some (mp, m)" "unat (eb_block_size ?fb) = B"
    using node a(5) b(3) by simp_all
  have enough: "fst (k_alloc K q v) \<noteq> 0" if "ok v" for q v using mem that by (simp add: enough_memory_def)
  obtain k w3 where rd: "ext2_read_inode_data K (Some ?fb) (Some buf) off (sz * cnt) (env s2) =
      Some (Inr (k, Some (blit buf 0 (inode_data D B m (unat off) (unat k))), w3))" "k = sz * cnt"
    using vfs_disk.read_inode_data_ok [OF vfs i(2,3) fb law mapped(1) range(3-5)] enough by metis
  have "n * B \<le> (12 + B div 4) * B" using mapped(2) by (rule mult_le_mono1)
  then have "inode_data D B m (unat off) (unat (sz * cnt)) = ext2_data D B m (unat off) (unat (sz * cnt))"
    using range(3) by (intro inode_data_is_ext2) linarith
  then show ?thesis using a(1) i(1) rd range(1,2) by (auto simp: init_ext2_file_def read_ext2_file_def)
qed

text \<open>The root directory of the partition for the witnesses.\<close>

lemma demo_root:
  "ptr_at (demo_inode b) 40 = word_of_nat b" "ptr_at (demo_inode b) 44 = 0" "ptr_at (demo_inode b) 88 = 0"
proof -
  have "bytes_at 40 4 (demo_inode b) = le_bytes 4 b" "bytes_at 44 4 (demo_inode b) = replicate 4 0"
    "bytes_at 88 4 (demo_inode b) = replicate 4 0"
    by (simp_all only: demo_inode_def) (simp_all add: bytes_at_after bytes_at_first, simp_all add: bytes_at_def)
  moreover have "le_nat (replicate 4 0) = 0" by (rule le_nat_zeros)
  ultimately show "ptr_at (demo_inode b) 40 = word_of_nat b" "ptr_at (demo_inode b) 44 = 0" "ptr_at (demo_inode b) 88 = 0"
    by (simp_all add: ptr_at_def le_at_def le_word_def le_nat_le_bytes unsigned_of_nat word_unat_eq_iff take_bit_nat_def)
qed

lemma demo_one_block:
  assumes "0 < b" and "b < 6"
  shows "inode_block demo_partition 1024 (demo_inode b) 0 = word_of_nat b"
    and "mapped_upto demo_partition 1024 (demo_inode b) 1"
    and "ext2_data demo_partition 1024 (demo_inode b) 0 1024 = bytes_at (b * 1024) 1024 demo_partition"
proof -
  show i: "inode_block demo_partition 1024 (demo_inode b) 0 = word_of_nat b"
    using demo_root(1) [of b] by (simp add: inode_block_def)
  have u: "unat (word_of_nat b :: u32) = b" using assms by (simp add: unat_of_nat)
  have nz: "(word_of_nat b :: u32) \<noteq> 0" using u assms(1) by (metis less_irrefl unat_0)
  show "mapped_upto demo_partition 1024 (demo_inode b) 1"
    using i u nz assms by (simp add: mapped_upto_def block_on_disk_def)
  show "ext2_data demo_partition 1024 (demo_inode b) 0 1024 = bytes_at (b * 1024) 1024 demo_partition"
    using inode_data_is_ext2 [of 0 1024 1024 demo_partition "demo_inode b"]
      inode_data_in_block [of 0 1024 1024 demo_partition "demo_inode b"] i u assms by simp
qed

lemma demo_directory: "ext2_directory demo_partition 1024 (demo_inode 4) [[demo_ent]]"
  using demo_one_block(2,3) [of 4] demo_root(2) [of 4] demo_inodes(3)
  by (simp add: ext2_directory_def dirent_ok_def is_cstr_def demo_ent_def dirent_size_def del: dir_bytes_simps)

theorem ext2_open_by_name_witness:
  fixes r defines "r \<equiv> fresh_resource\<lparr>driver_state := Some demo_mounted\<rparr>"
  shows "\<exists>a w1 fr s2 w3. locate_ext2_super roomy_kernel (Some r) (Some [97]) (env demo_sys) = Some (Inr (Some a, w1)) \<and>
    init_ext2_file roomy_kernel (Some fresh_resource) (Some a) (demo_sys\<lparr>env := w1\<rparr>) = Inr (0, Some fr, s2) \<and>
    read_ext2_file roomy_kernel (Some [0, 0, 0]) 1 3 (Some 1) (Some fr) (env s2) = Some (Inr (3, Some [2, 3, 4], w3))"
proof -
  have st: "driver_state r = Some demo_mounted" by (simp add: r_def)
  have p: "inode_pos demo_sb demo_desc 1024 3 = 3328" using demo_inode_pos [of 3] by simp
  have ino: "unat (d_ino demo_ent) = 3" by (simp add: demo_ent_def)
  have on: "inode_on_disk demo_partition 1024 (es_super demo_mounted) demo_desc (unat (d_ino demo_ent))"
    unfolding ino demo_mounted_ok(2) by (rule demo_inode_on_disk) simp_all
  have i: "unat (sb_inode_size demo_sb) = 128" by (simp add: demo_super)
  have node: "bytes_at (inode_pos (es_super demo_mounted) demo_desc 1024 (unat (d_ino demo_ent)))
      (unat (sb_inode_size (es_super demo_mounted))) demo_partition = demo_inode 5"
    unfolding ino demo_mounted_ok(2) p i by (rule demo_inodes(2))
  have name: "find (\<lambda>e. prefix (d_name e) [97]) (concat [[demo_ent]]) = Some demo_ent" by (simp add: demo_ent_def)
  have "inode_data demo_partition 1024 (demo_inode 5) 1 3 = bytes_at 5121 3 demo_partition"
    using inode_data_in_block [of 1 1024 3 demo_partition "demo_inode 5"] demo_one_block(1) [of 5] by simp
  also have "\<dots> = [2, 3, 4]"
    by (simp add: demo_partition_def bytes_at_after del: dir_bytes_simps) (simp add: demo_file_def bytes_at_def)
  finally have data: "ext2_data demo_partition 1024 (demo_inode 5) 1 3 = [2, 3, 4]"
    using inode_data_is_ext2 [of 1 3 1024 demo_partition "demo_inode 5"] by simp
  show ?thesis
    using ext2_open_by_name [OF roomy_vfs.vfs_disk_axioms demo_sys_ok roomy_laws(1) roomy_memory roomy_opens st
        demo_mounted_ok(1) demo_directory name on node demo_one_block(2) [of 5], of 1 3 1 "[0, 0, 0]" fresh_resource] data
    by (simp add: blit_def)
qed

text \<open>
  C39 (ext2_missing_name_opens): locating a name that no entry matches does not fail. It yields arguments
  with a null inode, with which the file driver comes up; asking the new file for its status or reading
  from it then dereferences the null inode.
\<close>

theorem ext2_missing_name_opens:
  assumes vfs: "vfs_disk K h disk pos ok" and w: "ok (env s)" "disk (env s) = D"
    and law: "min_law K" and mem: "enough_memory K ok" and op: "opens K h disk ok"
    and super: "driver_state r = Some st" "mounted h B root tbl st" "ext2_directory D B root bss"
    and name: "\<forall>e \<in> set (concat bss). \<not> prefix (d_name e) f" and sz: "sz * cnt \<noteq> 0"
  shows "\<exists>a w1 fr s2. locate_ext2_super K (Some r) (Some f) (env s) = Some (Inr (Some a, w1)) \<and>
    init_ext2_file K (Some r0) (Some a) (s\<lparr>env := w1\<rparr>) = Inr (0, Some fr, s2) \<and>
    stat_ext2_file (Some fr) (Some f) (Some sb) = Inl Null_Deref \<and>
    read_ext2_file K (Some buf) sz cnt (Some off) (Some fr) (env s2) = Some (Inl Null_Deref)"
proof -
  obtain np where b: "eb_partition (es_basic st) = h" "eb_node (es_basic st) = Some (np, root)"
    "unat (eb_block_size (es_basic st)) = B" "es_path st \<noteq> None"
    using super(2) by (rule mountedE) auto
  have f: "find (dir_match f) (concat bss) = None" using name by (auto simp: find_None_iff dir_match_def)
  obtain a w1 where a: "locate_ext2_super K (Some r) (Some f) (env s) = Some (Inr (Some a, w1))" "ok w1" "disk w1 = D"
    "la_node a = None" "la_super a = st"
    using vfs_disk.locate_missing [OF vfs w law mem super(2) b(1-3) super(3) f] super(1)
    by (auto simp: locate_ext2_super_def)
  have w1: "ok (env (s\<lparr>env := w1\<rparr>))" "disk (env (s\<lparr>env := w1\<rparr>)) = D" using a by simp_all
  have path: "es_path (la_super a) \<noteq> None" using a(5) b(4) by simp
  obtain p s2 where i: "init_ext2_node K (Some r0) (Some a) (s\<lparr>env := w1\<rparr>) =
      Inr (0, Some (r0\<lparr>driver_state := Some \<lparr>en_self = p, en_super = la_super a,
        en_basic = \<lparr>eb_partition = h, eb_node = la_node a, eb_attributes = le_at (fresh_bytes K p 48) 24 8,
          eb_block_size = eb_block_size (es_basic (la_super a)), eb_inode = la_inode a\<rparr>\<rparr>\<rparr>), s2)"
    by (rule vfs_disk.init_node_ok [OF vfs mem op w1 path])
  have "4 \<le> B" using super(3) by (simp add: ext2_directory_def mapped_upto_def)
  then have bs: "eb_block_size (es_basic st) \<noteq> 0" using b(3) by auto
  have nz: "sz \<noteq> 0" "cnt \<noteq> 0" using sz by auto
  show ?thesis
    using a(1) i bs nz sz
    by (auto simp: init_ext2_file_def stat_ext2_file_def read_ext2_file_def a(4,5) null_node_read)
qed

theorem ext2_missing_name_opens_witness:
  fixes r defines "r \<equiv> fresh_resource\<lparr>driver_state := Some demo_mounted\<rparr>"
  shows "\<exists>a w1 fr s2. locate_ext2_super roomy_kernel (Some r) (Some [98]) (env demo_sys) = Some (Inr (Some a, w1)) \<and>
    init_ext2_file roomy_kernel (Some fresh_resource) (Some a) (demo_sys\<lparr>env := w1\<rparr>) = Inr (0, Some fr, s2) \<and>
    read_ext2_file roomy_kernel (Some [0, 0, 0]) 1 3 (Some 1) (Some fr) (env s2) = Some (Inl Null_Deref)"
proof -
  have st: "driver_state r = Some demo_mounted" by (simp add: r_def)
  have "\<forall>e \<in> set (concat [[demo_ent]]). \<not> prefix (d_name e) [98]" by (simp add: demo_ent_def)
  from ext2_missing_name_opens [OF roomy_vfs.vfs_disk_axioms demo_sys_ok roomy_laws(1) roomy_memory roomy_opens st
        demo_mounted_ok(1) demo_directory this, of 1 3 fresh_resource undefined "[0, 0, 0]" 1]
  show ?thesis by auto
qed

text \<open>
  C40 (ext2_write_protection_lost): the file driver does not clear its state, so whether writing is
  enabled is what the memory happened to hold. With bit 1 of that memory set, a file of a partition
  mounted read-only is written to.
\<close>

theorem ext2_write_protection_lost:
  assumes vfs: "vfs_disk K h disk pos ok" and w: "ok (env s)" "disk (env s) = D"
    and laws: "min_law K" "mask_laws K" and mem: "enough_memory K ok" and op: "opens K h disk ok"
    and super: "mounted h B root tbl (la_super a)" "\<not> bit (eb_attributes (es_basic (la_super a))) 1"
    and node: "la_node a = Some (np, m)"
    and junk: "k_alloc K 48 (env s) = (p, w1)" "bit (le_at (fresh_bytes K p 48) 24 8 :: u64) 1"
    and mapped: "mapped_upto D B m n" "n \<le> 12 + B div 4" "blocks_apart D B m n"
    and range: "sz \<noteq> 0" "cnt \<noteq> 0" "unat off + unat (sz * cnt) \<le> n * B" "unat off + unat (sz * cnt) < 2 ^ 64"
      "length src = unat (sz * cnt)"
  shows "\<exists>fr s2 w3. init_ext2_file K (Some r) (Some a) s = Inr (0, Some fr, s2) \<and>
    write_ext2_file K (Some src) sz cnt (Some off) (Some fr) (env s2) = Some (Inr (sz * cnt, w3)) \<and>
    ext2_data (disk w3) B m (unat off) (unat (sz * cnt)) = src"
proof -
  have path: "es_path (la_super a) \<noteq> None" and B: "unat (eb_block_size (es_basic (la_super a))) = B"
    using super(1) by (auto simp: mounted_def)
  let ?fb = "\<lparr>eb_partition = h, eb_node = la_node a, eb_attributes = le_at (fresh_bytes K p 48) 24 8,
          eb_block_size = eb_block_size (es_basic (la_super a)), eb_inode = la_inode a\<rparr>"
  obtain q s2 where "q = fst (k_alloc K 48 (env s))" "init_ext2_node K (Some r) (Some a) s =
      Inr (0, Some (r\<lparr>driver_state := Some \<lparr>en_self = q, en_super = la_super a,
        en_basic = \<lparr>eb_partition = h, eb_node = la_node a, eb_attributes = le_at (fresh_bytes K q 48) 24 8,
          eb_block_size = eb_block_size (es_basic (la_super a)), eb_inode = la_inode a\<rparr>\<rparr>\<rparr>), s2)"
    "ok (env s2)" "disk (env s2) = D"
    by (rule vfs_disk.init_node_ok [OF vfs mem op w path])
  then have i: "init_ext2_node K (Some r) (Some a) s =
      Inr (0, Some (r\<lparr>driver_state := Some \<lparr>en_self = p, en_super = la_super a, en_basic = ?fb\<rparr>\<rparr>), s2)"
    "ok (env s2)" "disk (env s2) = D" using junk(1) by simp_all
  have fb: "eb_partition ?fb = h" "eb_node ?fb = Some (np, m)" "unat (eb_block_size ?fb) = B"
    using node B by simp_all
  have en: "k_masked_read K (eb_attributes ?fb) 1 1 \<noteq> 0"
    using junk(2) by (simp add: mask_lawsD [OF laws(2)] and_1_eq_0 bit_simps)
  have room: "unat (sz * cnt) \<le> length src" using range(5) by simp
  have enough: "fst (k_alloc K q v) \<noteq> 0" if "ok v" for q v using mem that by (simp add: enough_memory_def)
  obtain k w3 where wr: "ext2_write_inode_data K (Some (Some (la_super a), ?fb)) (Some src) off (sz * cnt) (env s2) = Some (Inr (k, w3))"
    "file_written B m n src (unat off) (unat k) D (disk w3)" "k = sz * cnt"
    using vfs_disk.write_inode_data_ok [OF vfs i(2,3) fb laws(1) en mapped(1,3) range(3,4) room] enough by metis
  have nB: "n * B \<le> (12 + B div 4) * B" using mapped(2) by (rule mult_le_mono1)
  have "inode_data (disk w3) B m (unat off) (unat (sz * cnt)) = src"
    using written_data(1) [OF wr(2)] wr(3) range by simp
  moreover have "inode_data (disk w3) B m (unat off) (unat (sz * cnt)) = ext2_data (disk w3) B m (unat off) (unat (sz * cnt))"
    using range(3) nB by (intro inode_data_is_ext2) linarith
  ultimately show ?thesis using i(1) wr range(1,2) by (auto simp: init_ext2_file_def write_ext2_file_def)
qed

lemma demo_fresh: "bit (le_at (fresh_bytes roomy_kernel 4096 48) 24 8 :: u64) 1"
proof -
  have "fresh_bytes roomy_kernel 4096 48 = replicate 48 0xAA"
    by (simp add: fresh_bytes_def roomy_kernel_def sim_kernel_def map_replicate_const)
  then have "bytes_at 24 8 (fresh_bytes roomy_kernel 4096 48) = replicate 8 0xAA" by (simp add: bytes_at_def)
  moreover have "replicate 8 (0xAA :: u8) = 0xAA # replicate 7 0xAA" by (simp add: numeral_eq_Suc)
  moreover have "bit (word_of_nat (170 + 256 * k) :: u64) 1" for k
    unfolding bit_of_nat_iff by (simp add: bit_iff_odd del: of_nat_add)
  ultimately show ?thesis by (simp add: le_at_def le_word_def del: of_nat_add)
qed

definition demo_args :: ext2_locate_args where
  "demo_args = \<lparr>la_self = 4096, la_node = Some (4096, demo_inode 5), la_super = demo_mounted, la_inode = 3\<rparr>"

theorem ext2_write_protection_lost_witness:
  "\<exists>fr s2 w3. init_ext2_file roomy_kernel (Some fresh_resource) (Some demo_args) demo_sys = Inr (0, Some fr, s2) \<and>
    write_ext2_file roomy_kernel (Some [9, 9]) 1 2 (Some 0) (Some fr) (env s2) = Some (Inr (2, w3)) \<and>
    ext2_data (sim_disk w3) 1024 (demo_inode 5) 0 2 = [9, 9]"
proof -
  have m: "mounted 1 1024 (demo_inode 4) demo_desc (la_super demo_args)" "\<not> bit (eb_attributes (es_basic (la_super demo_args))) 1"
    using demo_mounted_ok(1) by (simp_all add: demo_args_def) (simp add: demo_mounted_def)
  have n: "la_node demo_args = Some (4096, demo_inode 5)" by (simp add: demo_args_def)
  have a: "k_alloc roomy_kernel 48 (env demo_sys) = (4096, env demo_sys)" by (simp add: roomy_kernel_def)
  have ap: "blocks_apart demo_partition 1024 (demo_inode 5) 1"
    using demo_one_block(1) [of 5] by (simp add: blocks_apart_def demo_root(3) lessThan_Suc)
  show ?thesis
    using ext2_write_protection_lost [OF roomy_vfs.vfs_disk_axioms demo_sys_ok roomy_laws(1,2) roomy_memory roomy_opens m n a
        demo_fresh demo_one_block(2) [of 5] _ ap, of 1 2 0 "[9, 9]" fresh_resource]
    by simp
qed

section \<open>A walk that never ends\<close>

text \<open>
  C38 (ext2_walk_never_returns): a direct block from which the partition delivers no byte (one past its
  end, say) makes a read of the inode run forever: the walk goes on from what was transferred, which is
  nothing.
\<close>

theorem ext2_walk_never_returns:
  assumes st: "eb_node st = Some (np, m)" "128 \<le> length m" "eb_block_size st \<noteq> 0" and law: "min_law K"
    and i: "unat off div unat (eb_block_size st) < 12"
    and blk: "ptr_at m (40 + 4 * (unat off div unat (eb_block_size st))) = b" "b \<noteq> 0" and sz: "sz \<noteq> 0"
    and dry: "\<And>w. \<exists>w'. k_vfs_read K (eb_partition st) 1 (min (eb_block_size st - off mod eb_block_size st) sz)
      (k_vfs_seek K (eb_partition st) (ucast b * eb_block_size st + off mod eb_block_size st) w) = (0, [], w')"
  shows "ext2_read_inode_data K (Some st) (Some buf) off sz w = None"
proof -
  let ?cb = "ext2_read_callback K st sz"
  have "\<exists>t'. traverse_round K st off ?cb None t = Inr (Traverse_Next t') \<and> tr_traversed t' = 0"
    if t: "tr_traversed t = 0" for t
  proof -
    have base: "unat (off div eb_block_size st) = unat off div unat (eb_block_size st)" by (simp add: unat_div)
    then have "off div eb_block_size st < 12" using i by (simp add: word_less_nat_alt)
    moreover have "off - off div eb_block_size st * eb_block_size st = off mod eb_block_size st"
      by (simp add: minus_div_mult_eq_mod)
    moreover obtain w' where "k_vfs_read K (eb_partition st) 1 (min (eb_block_size st - off mod eb_block_size st) sz)
      (k_vfs_seek K (eb_partition st) (ucast b * eb_block_size st + off mod eb_block_size st) (tr_world t)) = (0, [], w')"
      using dry by blast
    ultimately show ?thesis
      using t st base blk node_fields(1) [OF st(2) i] law
      by (simp add: traverse_round_def Let_def traverse_do_def ext2_load_block_def ext2_read_callback_def min_law_def mem_write_def blit_def)
  qed
  from traverse_loop_stuck [OF this _ sz] show ?thesis
    using sz by (simp add: ext2_read_inode_data_def ext2_traverse_blocks_def)
qed

theorem ext2_walk_never_returns_witness:
  "ext2_read_inode_data sim_kernel (Some (demo_basic\<lparr>eb_partition := 2\<rparr>)) (Some [0]) 0 1 (sim_init demo_disk) = None"
proof -
  have len: "128 \<le> length demo_node" by (simp add: demo_node_def length_table)
  have p: "ptr_at demo_node 40 = 1" using demo_ptr [of 0] by simp
  have n: "\<exists>w'. k_vfs_read sim_kernel 2 sz c w = (0, [], w')" for sz c w by (simp add: sim_kernel_def sim_vfs_read_def)
  show ?thesis
    using p len n by (intro ext2_walk_never_returns [where np = 64 and m = demo_node and b = 1]) simp_all
qed

end
