(* ===== verification/Nvme_Defs.thy ===== *)
theory Nvme_Defs
  imports Drv_Iface
begin

text \<open>
  \<open>include/drivers/sysdev/nvme/nvme.h\<close>: the structures the NVMe drivers share with each other and with
  the controller, and the further kernel services the drivers call (\<open>lib/ringbuffer.h\<close>,
  \<open>mm/pmm.h\<close>, the pager, the interrupt flag), added to the kernel record. Memory that the controller
  reads and writes belongs to the world and is reached by address.
\<close>

section \<open>Kernel services\<close>

text \<open>
  \<open>n_load p n\<close> and \<open>n_store p bs\<close> access memory and device registers; \<open>n_spin\<close> is what the
  controller does to the world between two reads of a polling loop. A ring buffer is a handle (0 is
  \<open>NULL\<close>) with the fields \<open>base\<close>, \<open>objs\<close> and \<open>idx\<close>. \<open>n_vfs_create\<close> is \<open>vfs_create\<close> of a
  directory with the standard permissions.
\<close>

record 'w nvme_kernel = "'w kernel" +
  n_load :: "u64 \<Rightarrow> nat \<Rightarrow> 'w \<Rightarrow> u8 list"
  n_store :: "u64 \<Rightarrow> u8 list \<Rightarrow> 'w \<Rightarrow> 'w"
  n_spin :: "'w \<Rightarrow> 'w"
  n_irq_enabled :: "'w \<Rightarrow> bool"
  n_irq_set :: "bool \<Rightarrow> 'w \<Rightarrow> 'w"
  n_pmm_alloc :: "u64 \<Rightarrow> 'w \<Rightarrow> u64 \<times> 'w"
  n_pmm_free :: "u64 \<Rightarrow> 'w \<Rightarrow> 'w"
  n_page_alloc :: "'w \<Rightarrow> u64 \<times> 'w"
  n_page_free :: "u64 \<Rightarrow> 'w \<Rightarrow> 'w"
  n_page_size :: u64
  n_to_phys :: "u64 \<Rightarrow> u64"
  n_align_down :: "u64 \<Rightarrow> u64 \<Rightarrow> u64"
  n_rb_init :: "u64 \<Rightarrow> u64 \<Rightarrow> u64 \<Rightarrow> 'w \<Rightarrow> u64 \<times> 'w"
  n_rb_base :: "u64 \<Rightarrow> 'w \<Rightarrow> u64"
  n_rb_objs :: "u64 \<Rightarrow> 'w \<Rightarrow> u64"
  n_rb_idx :: "u64 \<Rightarrow> 'w \<Rightarrow> u64"
  n_rb_alloc :: "u64 \<Rightarrow> u64 \<Rightarrow> 'w \<Rightarrow> u64 \<times> 'w"
  n_rb_write :: "u64 \<Rightarrow> u64 \<Rightarrow> u8 list \<Rightarrow> 'w \<Rightarrow> 'w"
  n_rb_free :: "u64 \<Rightarrow> u64 \<Rightarrow> 'w \<Rightarrow> 'w"
  n_hdr_device :: u8
  n_bar_is_io :: "u32 \<Rightarrow> bool"
  n_pager_attrs :: u32
  n_pager_map :: "u64 \<Rightarrow> u64 \<Rightarrow> u64 \<Rightarrow> u32 \<Rightarrow> 'w \<Rightarrow> int \<times> 'w"
  n_processors :: u32
  n_processor_id :: "'w \<Rightarrow> nat"
  n_vfs_create :: "u8 list \<Rightarrow> 'w \<Rightarrow> 'w"

section \<open>Queue entries\<close>

text \<open>The two-bit fields of the first dword are kept as bytes below 4.\<close>

record qs_entry =
  qs_opcode :: u8
  qs_fuse :: u8
  qs_psdt :: u8
  qs_cid :: u16
  qs_nsid :: u32
  qs_cdw2 :: u32
  qs_cdw3 :: u32
  qs_mptr :: u64
  qs_prp1 :: u64
  qs_prp2 :: u64
  qs_cdw10 :: u32
  qs_cdw11 :: u32
  qs_cdw12 :: u32
  qs_cdw13 :: u32
  qs_cdw14 :: u32
  qs_cdw15 :: u32

text \<open>An initialiser that names no field.\<close>

definition qs_zero :: qs_entry where
  "qs_zero = \<lparr>qs_opcode = 0, qs_fuse = 0, qs_psdt = 0, qs_cid = 0, qs_nsid = 0, qs_cdw2 = 0, qs_cdw3 = 0,
     qs_mptr = 0, qs_prp1 = 0, qs_prp2 = 0, qs_cdw10 = 0, qs_cdw11 = 0, qs_cdw12 = 0, qs_cdw13 = 0,
     qs_cdw14 = 0, qs_cdw15 = 0\<rparr>"

definition qs_bytes :: "qs_entry \<Rightarrow> u8 list" where
  "qs_bytes c =
     [qs_opcode c, (qs_fuse c AND 3) OR push_bit 6 (qs_psdt c AND 3)] @ le_bytes 2 (unat (qs_cid c)) @
     le_bytes 4 (unat (qs_nsid c)) @ le_bytes 4 (unat (qs_cdw2 c)) @ le_bytes 4 (unat (qs_cdw3 c)) @
     le_bytes 8 (unat (qs_mptr c)) @ le_bytes 8 (unat (qs_prp1 c)) @ le_bytes 8 (unat (qs_prp2 c)) @
     le_bytes 4 (unat (qs_cdw10 c)) @ le_bytes 4 (unat (qs_cdw11 c)) @ le_bytes 4 (unat (qs_cdw12 c)) @
     le_bytes 4 (unat (qs_cdw13 c)) @ le_bytes 4 (unat (qs_cdw14 c)) @ le_bytes 4 (unat (qs_cdw15 c))"

definition qs_of :: "u8 list \<Rightarrow> qs_entry" where
  "qs_of m = \<lparr>qs_opcode = le_at m 0 1, qs_fuse = le_at m 1 1 AND 3, qs_psdt = drop_bit 6 (le_at m 1 1),
     qs_cid = le_at m 2 2, qs_nsid = le_at m 4 4, qs_cdw2 = le_at m 8 4, qs_cdw3 = le_at m 12 4,
     qs_mptr = le_at m 16 8, qs_prp1 = le_at m 24 8, qs_prp2 = le_at m 32 8, qs_cdw10 = le_at m 40 4,
     qs_cdw11 = le_at m 44 4, qs_cdw12 = le_at m 48 4, qs_cdw13 = le_at m 52 4, qs_cdw14 = le_at m 56 4,
     qs_cdw15 = le_at m 60 4\<rparr>"

record qc_entry =
  qc_dw0 :: u32
  qc_dw1 :: u32
  qc_sq_head :: u16
  qc_sq_ident :: u16
  qc_cid :: u16
  qc_phase :: u8
  qc_status :: u16

text \<open>The last halfword holds the phase in bit 0 and the status above it.\<close>

definition qc_of :: "u8 list \<Rightarrow> qc_entry" where
  "qc_of m = (let last = le_at m 14 2 :: u16 in
     \<lparr>qc_dw0 = le_at m 0 4, qc_dw1 = le_at m 4 4, qc_sq_head = le_at m 8 2, qc_sq_ident = le_at m 10 2,
      qc_cid = le_at m 12 2, qc_phase = ucast (last AND 1), qc_status = drop_bit 1 last\<rparr>)"

definition qc_bytes :: "qc_entry \<Rightarrow> u8 list" where
  "qc_bytes e = le_bytes 4 (unat (qc_dw0 e)) @ le_bytes 4 (unat (qc_dw1 e)) @ le_bytes 2 (unat (qc_sq_head e)) @
     le_bytes 2 (unat (qc_sq_ident e)) @ le_bytes 2 (unat (qc_cid e)) @
     le_bytes 2 (unat (push_bit 1 (qc_status e) OR ucast (qc_phase e AND 1)))"

definition qc_zero :: qc_entry where
  "qc_zero = \<lparr>qc_dw0 = 0, qc_dw1 = 0, qc_sq_head = 0, qc_sq_ident = 0, qc_cid = 0, qc_phase = 0, qc_status = 0\<rparr>"

section \<open>Queue pairs and driver states\<close>

record nvme_qpair =
  qp_subq :: u64
  qp_cmpq :: u64
  qp_id :: int
  qp_phase :: int

text \<open>A pointer to a queue pair: the administrator pair or an element of the array of I/O pairs.\<close>

datatype qp_ref = Admin_Pair | Io_Pair nat

text \<open>What \<open>submit\<close> returns; \<open>None\<close> is \<open>NULL\<close>.\<close>

record qs_wrap =
  qw_qpair :: "qp_ref option"
  qw_cmd :: "qs_entry option"

text \<open>The state of the PCI transport (\<open>pci.c\<close>) and of the controller driver (\<open>nvme.c\<close>).\<close>

record pci_state =
  pci_props :: u64
  pci_exposed :: int
  pci_adminq :: nvme_qpair

record nvme_driver_state =
  nd_self :: u64
  nd_transport :: u64
  nd_max_transfer :: u64
  nd_id :: u16
  nd_version :: u32
  nd_type :: u32
  nd_ctratt :: u32
  nd_requested :: u64
  nd_granted :: u64
  nd_init :: u64
  nd_qs :: "nvme_qpair list"

text \<open>Both are shared by pointer between the drivers of a controller, so they travel with the world.\<close>

record 'w nvme_sys =
  nv_pci :: pci_state
  nv_core :: nvme_driver_state
  nv_env :: 'w

definition get_pair :: "'w nvme_sys \<Rightarrow> qp_ref \<Rightarrow> nvme_qpair res" where
  "get_pair s ref = (case ref of Admin_Pair \<Rightarrow> Inr (pci_adminq (nv_pci s))
     | Io_Pair i \<Rightarrow> if i < length (nd_qs (nv_core s)) then Inr (nd_qs (nv_core s) ! i) else Inl Out_Of_Bounds)"

definition set_pair :: "qp_ref \<Rightarrow> nvme_qpair \<Rightarrow> 'w nvme_sys \<Rightarrow> 'w nvme_sys" where
  "set_pair ref q s = (case ref of Admin_Pair \<Rightarrow> s\<lparr>nv_pci := (nv_pci s)\<lparr>pci_adminq := q\<rparr>\<rparr>
     | Io_Pair i \<Rightarrow> s\<lparr>nv_core := (nv_core s)\<lparr>nd_qs := (nd_qs (nv_core s))[i := q]\<rparr>\<rparr>)"

text \<open>
  \<open>nvme_transport_iden_t\<close>: the functions of a transport. Polling may not end; its entry is \<open>None\<close> when
  none was copied to the caller. A null function pointer is \<open>None\<close>.
\<close>

type_synonym 'w nvme_submit = "u64 \<Rightarrow> qp_ref option \<Rightarrow> qs_entry option \<Rightarrow> 'w nvme_sys \<Rightarrow> (qs_wrap \<times> 'w nvme_sys) res"

type_synonym 'w nvme_poll = "u64 \<Rightarrow> qs_wrap \<Rightarrow> 'w nvme_sys \<Rightarrow> (int \<times> qc_entry option \<times> 'w nvme_sys) res option"

record 'w nvme_transport_iden =
  ti_type :: u8
  ti_submit :: "'w nvme_submit option"
  ti_poll :: "'w nvme_poll option"

text \<open>Control packets to a transport, whose data is such a structure.\<close>

record 'w nvme_instruction =
  ni_command :: u32
  ni_data :: "'w nvme_transport_iden option"

record 'w nvme_response =
  nr_type :: u32
  nr_size :: u64
  nr_data :: "'w nvme_transport_iden option"

definition nvme_no_response :: "'w nvme_response" where
  "nvme_no_response = \<lparr>nr_type = 0, nr_size = 0, nr_data = None\<rparr>"

text \<open>The operations of a transport's driver that the controller driver uses.\<close>

record 'w nvme_transport =
  nt_control :: "(u64 \<Rightarrow> 'w nvme_instruction option \<Rightarrow> 'w nvme_sys \<Rightarrow> 'w nvme_response \<times> 'w nvme_sys) option"
  nt_read :: "u8 list option \<Rightarrow> u64 \<Rightarrow> u64 \<Rightarrow> u64 option \<Rightarrow> u64 \<Rightarrow> 'w nvme_sys \<Rightarrow> (u64 \<times> u8 list option) res"

text \<open>Submitting a command and waiting for it, which \<open>nvme.c\<close> and \<open>namespace.c\<close> always do together.\<close>

definition nvme_run ::
  "'w nvme_transport_iden \<Rightarrow> qp_ref option \<Rightarrow> qs_entry \<Rightarrow> 'w nvme_sys \<Rightarrow>
   (int \<times> qc_entry option \<times> 'w nvme_sys) res option" where
  "nvme_run T qpair cmd s =
     (case ti_submit T of None \<Rightarrow> Some (Inl Null_Deref)
      | Some submit \<Rightarrow>
        run_bind (Some (submit (nd_transport (nv_core s)) qpair (Some cmd) s)) (\<lambda>(wrap, s1).
          case ti_poll T of None \<Rightarrow> Some (Inl Null_Deref)
          | Some poll \<Rightarrow> poll (nd_transport (nv_core s1)) wrap s1))"

section \<open>Encodings\<close>

lemma le_word_entry8 [simp]: "(le_word (le_bytes 8 (unat (w :: u64))) :: u64) = w"
  using unsigned_less [of w, where 'a = nat] by (simp add: le_word_def le_nat_le_bytes)

lemma length_qs_bytes [simp]: "length (qs_bytes c) = 64"
  by (simp add: qs_bytes_def)

lemma length_qc_bytes [simp]: "length (qc_bytes e) = 16"
  by (simp add: qc_bytes_def)

end
