(* ===== verification/Nvme_Pci.thy ===== *)
theory Nvme_Pci
  imports Nvme_Defs
begin

text \<open>
  \<open>src/c/sysdev/nvme/pci.c\<close>: the PCI transport. Commands go into a ring buffer shared with the
  controller and are announced through doorbell registers; completions are polled for. Loops that
  wait for the controller are \<open>partial_function\<close>s.
\<close>

section \<open>Controller registers\<close>

text \<open>Offsets in \<open>ctrl_props_t\<close>; the doorbells follow at 0x1000.\<close>

definition reg32 :: "('w, 'z) nvme_kernel_scheme \<Rightarrow> u64 \<Rightarrow> u64 \<Rightarrow> 'w \<Rightarrow> u32" where
  "reg32 K props off w = le_word (n_load K (props + off) 4 w)"

definition reg64 :: "('w, 'z) nvme_kernel_scheme \<Rightarrow> u64 \<Rightarrow> u64 \<Rightarrow> 'w \<Rightarrow> u64" where
  "reg64 K props off w = le_word (n_load K (props + off) 8 w)"

text \<open>\<open>MASKED_WRITE\<close> on a 32-bit register.\<close>

definition reg32_field ::
  "('w, 'z) nvme_kernel_scheme \<Rightarrow> u64 \<Rightarrow> u64 \<Rightarrow> u64 \<Rightarrow> nat \<Rightarrow> u64 \<Rightarrow> 'w \<Rightarrow> 'w" where
  "reg32_field K props off v shift field w =
     n_store K (props + off) (le_bytes 4 (unat (ucast (k_masked_write K (ucast (reg32 K props off w)) v shift field) :: u32))) w"

definition CAP :: u64 where "CAP = 0"
definition CC :: u64 where "CC = 20"
definition CSTS :: u64 where "CSTS = 28"
definition AQA :: u64 where "AQA = 36"
definition ASQ :: u64 where "ASQ = 40"
definition ACQ :: u64 where "ACQ = 48"

text \<open>The structure itself, as names and sizes, and where a field of a packed structure starts.\<close>

definition ctrl_props_fields :: "(string \<times> nat) list" where
  "ctrl_props_fields =
     [(''cap'', 8), (''vs'', 4), (''intms'', 4), (''intmc'', 4), (''cc'', 4), (''resv0'', 4), (''csts'', 4), (''nssr'', 4),
      (''aqa'', 4), (''asq'', 8), (''acq'', 8), (''cmbloc'', 4), (''cmbsz'', 4), (''bpinfo'', 4), (''bprsel'', 4),
      (''bpmbl'', 8), (''cmbmsc'', 8), (''cmbsts'', 4), (''cmbebs'', 4), (''cmbswtp'', 4), (''nssd'', 4), (''crto'', 4),
      (''resv1'', 0xD94), (''pmrcap'', 4), (''pmrctl'', 4), (''pmrsts'', 4), (''pmrebs'', 4), (''pmrswtp'', 4),
      (''pmrmscl'', 4), (''pmrmscu'', 4), (''resv2'', 0x1E4)]"

definition field_offset :: "(string \<times> nat) list \<Rightarrow> string \<Rightarrow> nat" where
  "field_offset layout f = sum_list (map snd (takeWhile (\<lambda>(n, k). n \<noteq> f) layout))"

lemma ctrl_props_layout:
  "sum_list (map snd ctrl_props_fields) = 0x1000"
  "CAP = word_of_nat (field_offset ctrl_props_fields ''cap'')" "CC = word_of_nat (field_offset ctrl_props_fields ''cc'')"
  "CSTS = word_of_nat (field_offset ctrl_props_fields ''csts'')" "AQA = word_of_nat (field_offset ctrl_props_fields ''aqa'')"
  "ASQ = word_of_nat (field_offset ctrl_props_fields ''asq'')" "ACQ = word_of_nat (field_offset ctrl_props_fields ''acq'')"
  by (simp_all add: ctrl_props_fields_def field_offset_def CAP_def CC_def CSTS_def AQA_def ASQ_def ACQ_def)

definition doorbell_stride :: "('w, 'z) nvme_kernel_scheme \<Rightarrow> u64 \<Rightarrow> 'w \<Rightarrow> u64" where
  "doorbell_stride K props w = push_bit (unat (k_masked_read K (reg64 K props CAP w) 32 15)) 4"

definition SQnTDBL :: "('w, 'z) nvme_kernel_scheme \<Rightarrow> u64 \<Rightarrow> int \<Rightarrow> 'w \<Rightarrow> u64" where
  "SQnTDBL K props n w = props + 4096 + word_of_int (2 * n) * doorbell_stride K props w"

definition CQnHDBL :: "('w, 'z) nvme_kernel_scheme \<Rightarrow> u64 \<Rightarrow> int \<Rightarrow> 'w \<Rightarrow> u64" where
  "CQnHDBL K props n w = props + 4096 + word_of_int (2 * n + 1) * doorbell_stride K props w"

section \<open>Submitting\<close>

definition admin_cid :: "u64 \<Rightarrow> u16" where
  "admin_cid ptr = push_bit 15 1 OR ucast (ptr AND 0xFF)"

definition io_cid :: "int \<Rightarrow> u64 \<Rightarrow> u16" where
  "io_cid ident ptr = (word_of_int ident AND 0x3F) OR push_bit 6 (ucast (ptr AND 0xFF))"

text \<open>The doorbell value: the slot after \<open>ptr\<close> on the ring.\<close>

definition next_slot :: "u64 \<Rightarrow> u64 \<Rightarrow> u32 res" where
  "next_slot ptr objs = (if objs = 0 then Inl Div_By_Zero else Inr (ucast (ucast (ucast ptr + 1 :: u32) mod objs)))"

definition nvme_pci_submit_command ::
  "('w, 'z) nvme_kernel_scheme \<Rightarrow> u64 \<Rightarrow> qp_ref option \<Rightarrow> qs_entry option \<Rightarrow> 'w nvme_sys \<Rightarrow>
   (qs_wrap \<times> 'w nvme_sys) res" where
  "nvme_pci_submit_command K transport qpair cmd s =
     (case cmd of None \<Rightarrow> Inr (\<lparr>qw_qpair = None, qw_cmd = None\<rparr>, s)
      | Some c \<Rightarrow>
        if transport = 0 then Inr (\<lparr>qw_qpair = None, qw_cmd = None\<rparr>, s)
        else
          let I = n_irq_enabled K (nv_env s); w1 = n_irq_set K False (nv_env s);
              admin = (qpair = None); ref = (case qpair of None \<Rightarrow> Admin_Pair | Some r \<Rightarrow> r);
              props = pci_props (nv_pci s)
          in res_bind (get_pair s ref) (\<lambda>q.
               case n_rb_alloc K (qp_subq q) 1 w1 of (ptr, w2) \<Rightarrow>
                 let c' = c\<lparr>qs_cid := if admin then admin_cid ptr else io_cid (qp_id q) ptr\<rparr>;
                     w3 = n_rb_write K (qp_subq q) ptr (qs_bytes c') w2
                 in res_bind (next_slot ptr (n_rb_objs K (qp_subq q) w3)) (\<lambda>tail.
                      let w4 = n_store K (SQnTDBL K props (qp_id q) w3) (le_bytes 4 (unat tail)) w3;
                          w5 = (if I then n_irq_set K True w4 else w4)
                      in Inr (\<lparr>qw_qpair = Some ref, qw_cmd = Some c'\<rparr>, s\<lparr>nv_env := w5\<rparr>))))"

section \<open>Polling\<close>

definition cq_entry :: "('w, 'z) nvme_kernel_scheme \<Rightarrow> u64 \<Rightarrow> u64 \<Rightarrow> 'w \<Rightarrow> qc_entry" where
  "cq_entry K rb i w = qc_of (n_load K (n_rb_base K rb w + 16 * i) 16 w)"

text \<open>The test that ends the loop: the phase is the expected one and the command is ours.\<close>

definition cq_accepts :: "int \<Rightarrow> u16 \<Rightarrow> qc_entry \<Rightarrow> bool" where
  "cq_accepts phase cid e \<longleftrightarrow> uint (qc_phase e) = phase \<and> qc_cid e = cid"

partial_function (option) poll_wait ::
  "('w, 'z) nvme_kernel_scheme \<Rightarrow> u64 \<Rightarrow> int \<Rightarrow> u16 \<Rightarrow> 'w \<Rightarrow> 'w option" where
  "poll_wait K cmpq phase cid w =
     (if cq_accepts phase cid (cq_entry K cmpq (n_rb_idx K cmpq w) w) then Some w
      else poll_wait K cmpq phase cid (n_spin K w))"

text \<open>\<open>!phase\<close>, and the two places where the code flips it.\<close>

definition flip :: "int \<Rightarrow> int" where
  "flip p = (if p = 0 then 1 else 0)"

definition phase_after :: "u64 \<Rightarrow> u64 \<Rightarrow> int \<Rightarrow> int" where
  "phase_after idx objs phase =
     (let phase1 = (if idx = objs - 1 then flip phase else phase)
      in if idx + 1 \<ge> objs then flip phase1 else phase1)"

text \<open>The index of the command's slot, as the code computes it back from the identifier.\<close>

definition slot_of_cid :: "int \<Rightarrow> u16 \<Rightarrow> u64" where
  "slot_of_cid ident cid = (if ident \<noteq> 0 then ucast (drop_bit 6 cid AND 0xFF) else ucast cid)"

text \<open>
  The transport argument is tested, the wrap's pair is not: a wrap without a pair has no command either.
\<close>

definition nvme_pci_poll_completion ::
  "('w, 'z) nvme_kernel_scheme \<Rightarrow> u64 \<Rightarrow> qs_wrap \<Rightarrow> 'w nvme_sys \<Rightarrow>
   (int \<times> qc_entry option \<times> 'w nvme_sys) res option" where
  "nvme_pci_poll_completion K transport wrap s =
     (case qw_cmd wrap of None \<Rightarrow> Some (Inr (- 1, None, s))
      | Some cmd \<Rightarrow>
        if transport = 0 then Some (Inr (- 1, None, s))
        else case qw_qpair wrap of None \<Rightarrow> Some (Inl Null_Deref)
          | Some ref \<Rightarrow>
            run_bind (Some (get_pair s ref)) (\<lambda>q.
              let I = n_irq_enabled K (nv_env s); cmpq = qp_cmpq q
              in case poll_wait K cmpq (qp_phase q) (qs_cid cmd) (nv_env s) of None \<Rightarrow> None
                 | Some w \<Rightarrow>
                   let w1 = (if I then w else n_irq_set K False w);
                       e = cq_entry K cmpq (n_rb_idx K cmpq w) w
                   in case n_rb_alloc K cmpq 1 w1 of (idx, w2) \<Rightarrow>
                     let objs = n_rb_objs K cmpq w2;
                         q' = q\<lparr>qp_phase := phase_after idx objs (qp_phase q)\<rparr>
                     in run_bind (Some (next_slot idx objs)) (\<lambda>head.
                          let w3 = n_store K (CQnHDBL K (pci_props (nv_pci s)) (qp_id q) w2) (le_bytes 4 (unat head)) w2;
                              w4 = n_rb_free K (qp_subq q) (slot_of_cid (qp_id q) (qs_cid cmd)) w3
                          in Some (Inr (uint (qc_status e), Some e, (set_pair ref q' s)\<lparr>nv_env := w4\<rparr>)))))"

section \<open>Bringing the controller up\<close>

definition NVME_ADMIN_QUEUE_SUB_LEN :: u64 where "NVME_ADMIN_QUEUE_SUB_LEN = 64"
definition NVME_ADMIN_QUEUE_COMP_LEN :: u64 where "NVME_ADMIN_QUEUE_COMP_LEN = 256"

definition store64 :: "('w, 'z) nvme_kernel_scheme \<Rightarrow> u64 \<Rightarrow> u64 \<Rightarrow> 'w \<Rightarrow> 'w" where
  "store64 K p v w = n_store K p (le_bytes 8 (unat v)) w"

definition create_admin_qpair ::
  "('w, 'z) nvme_kernel_scheme \<Rightarrow> u64 \<Rightarrow> pci_state \<Rightarrow> 'w \<Rightarrow> int \<times> pci_state \<times> 'w" where
  "create_admin_qpair K qsize st w =
     (case n_pmm_alloc K (qsize * 2) w of (queues, w1) \<Rightarrow>
        if queues = 0 then (- 1, st, w1)
        else let w2 = n_store K queues (replicate (unat (qsize * 2)) 0) w1
          in case n_rb_init K queues NVME_ADMIN_QUEUE_SUB_LEN 64 w2 of (sub, w3) \<Rightarrow>
            if sub = 0 then (- 2, st, w3)
            else case n_rb_init K (queues + qsize) NVME_ADMIN_QUEUE_COMP_LEN 16 w3 of (cmp, w4) \<Rightarrow>
              if cmp = 0 then (- 3, st, w4)
              else let props = pci_props st;
                       w5 = store64 K (props + ASQ) (n_to_phys K queues) w4;
                       w6 = store64 K (props + ACQ) (n_to_phys K queues + qsize) w5;
                       w7 = reg32_field K props AQA (NVME_ADMIN_QUEUE_SUB_LEN - 1) 0 0xFFF w6;
                       w8 = reg32_field K props AQA (NVME_ADMIN_QUEUE_COMP_LEN - 1) 16 0xFFF w7
                   in (0, st\<lparr>pci_adminq := \<lparr>qp_subq = sub, qp_cmpq = cmp, qp_id = 0, qp_phase = 1\<rparr>\<rparr>, w8))"

text \<open>Waiting for \<open>CSTS.RDY\<close> to be \<open>want\<close>.\<close>

partial_function (option) wait_ready ::
  "('w, 'z) nvme_kernel_scheme \<Rightarrow> u64 \<Rightarrow> bool \<Rightarrow> 'w \<Rightarrow> 'w option" where
  "wait_ready K props want w =
     (if (k_masked_read K (ucast (reg32 K props CSTS w)) 0 1 \<noteq> 0) = want then Some w
      else wait_ready K props want (n_spin K w))"

definition set_css :: "('w, 'z) nvme_kernel_scheme \<Rightarrow> u64 \<Rightarrow> 'w \<Rightarrow> 'w" where
  "set_css K props w =
     (let cap_css = k_masked_read K (reg64 K props CAP w) 37 0xFF;
          w1 = (if bit cap_css 7 then reg32_field K props CC 7 4 7 w else w);
          w2 = (if bit cap_css 6 then reg32_field K props CC 6 4 7 w1 else w1)
      in if \<not> bit cap_css 6 \<and> bit cap_css 0 then reg32_field K props CC 0 4 7 w2 else w2)"

definition reset_controller ::
  "('w, 'z) nvme_kernel_scheme \<Rightarrow> pci_state option \<Rightarrow> 'w \<Rightarrow> (int \<times> pci_state option \<times> 'w) option" where
  "reset_controller K state w =
     (case state of None \<Rightarrow> Some (- 1, None, w)
      | Some st \<Rightarrow>
        let props = pci_props st
        in case wait_ready K props False (reg32_field K props CC 0 0 1 w) of None \<Rightarrow> None
           | Some w1 \<Rightarrow>
             (case create_admin_qpair K (n_page_size K) st w1 of (ret, st1, w2) \<Rightarrow>
                if ret \<noteq> 0 then Some (- 2, Some st1, w2)
                else let w3 = set_css K props w2;
                         w4 = reg32_field K props CC 0 7 15 w3;
                         w5 = reg32_field K props CC 0 11 7 w4;
                         w6 = reg32_field K props CC 1 0 1 w5
                     in map_option (\<lambda>w7. (0, Some st1, w7)) (wait_ready K props True w6)))"

text \<open>The fields of the PCI header that the driver reads.\<close>

record pci_header =
  ph_type :: u8
  ph_bar0 :: u32
  ph_bar1 :: u32
  ph_bar2 :: u32

text \<open>
  \<open>spawn\<close> is the call of \<open>init_resource\<close> that starts the controller driver on this transport; it tells
  whether a resource came back. The state structure (40 bytes) is not cleared, so the register base
  stays whatever the memory held when the controller sits in I/O space. \<open>transport\<close> is the address of
  the resource. The result says whether the resource now has the state.
\<close>

definition init_nvme_pci ::
  "('w, 'z) nvme_kernel_scheme \<Rightarrow> ('w nvme_sys \<Rightarrow> (bool \<times> 'w nvme_sys) res option) \<Rightarrow> pci_header \<Rightarrow>
   'w nvme_sys \<Rightarrow> (int \<times> bool \<times> 'w nvme_sys) res option" where
  "init_nvme_pci K spawn hdr s =
     (case k_alloc K 40 (nv_env s) of (p, w1) \<Rightarrow>
        if p = 0 then Some (Inr (- 1, False, s\<lparr>nv_env := w1\<rparr>))
        else let m = fresh_bytes K p 40;
                 junk = \<lparr>qp_subq = le_at m 16 8, qp_cmpq = le_at m 24 8, qp_id = sint (le_at m 32 4 :: u32),
                         qp_phase = sint (le_at m 36 4 :: u32)\<rparr>;
                 st = \<lparr>pci_props = le_at m 0 8, pci_exposed = sint (le_at m 8 4 :: u32), pci_adminq = junk\<rparr>
             in if ph_type hdr \<noteq> n_hdr_device K then Some (Inr (- 3, False, s\<lparr>nv_env := k_free K p w1\<rparr>))
                else
                  let base = (ucast (ph_bar0 hdr) AND NOT 0x3FFF) OR push_bit 32 (ucast (ph_bar1 hdr));
                      mapped = (if n_bar_is_io K (ph_bar2 hdr) then (0, w1)
                                else n_pager_map K base base 0x2000 (n_pager_attrs K) w1);
                      st1 = (if n_bar_is_io K (ph_bar2 hdr) then st else st\<lparr>pci_props := base\<rparr>)
                  in if fst mapped \<noteq> 0 then Some (Inr (- 2, False, s\<lparr>nv_env := k_free K p (snd mapped)\<rparr>))
                     else case reset_controller K (Some st1) (snd mapped) of None \<Rightarrow> None
                       | Some (ret, st2, w2) \<Rightarrow>
                         if ret \<noteq> 0 then Some (Inr (- 4, False, s\<lparr>nv_env := k_free K p w2\<rparr>))
                         else case st2 of None \<Rightarrow> Some (Inl Null_Deref)
                           | Some st3 \<Rightarrow>
                             let w3 = reg32_field K (pci_props st3) CC 6 16 15 w2;
                                 w4 = reg32_field K (pci_props st3) CC 4 20 15 w3
                             in run_bind (spawn (s\<lparr>nv_pci := st3, nv_env := w4\<rparr>)) (\<lambda>(created, s1).
                                  if created then Some (Inr (0, True, s1)) else Some (Inr (- 2, True, s1))))"

definition uninit_nvme_pci :: int where
  "uninit_nvme_pci = 0"

section \<open>The driver's other operations\<close>

definition NVME_TRANSPORT_CTRL_IDEN :: u32 where "NVME_TRANSPORT_CTRL_IDEN = 0"
definition NVME_TRANSPORT_CTRL_TO_PROPS :: u32 where "NVME_TRANSPORT_CTRL_TO_PROPS = 1"

text \<open>
  The whole register page is copied, whatever the size asked for. \<open>exposed\<close> says whether reads and
  writes go to the registers.
\<close>

definition read_nvme_pci ::
  "('w, 'z) nvme_kernel_scheme \<Rightarrow> u8 list option \<Rightarrow> u64 \<Rightarrow> u64 \<Rightarrow> u64 option \<Rightarrow> u64 \<Rightarrow> 'w nvme_sys \<Rightarrow>
   (u64 \<times> u8 list option) res" where
  "read_nvme_pci K buffer sz cnt file res s =
     (case buffer of None \<Rightarrow> Inr (0, buffer)
      | Some buf \<Rightarrow>
        if sz = 0 \<or> cnt = 0 \<or> file = None \<or> res = 0 then Inr (0, buffer)
        else if pci_exposed (nv_pci s) = uint NVME_TRANSPORT_CTRL_TO_PROPS
        then res_bind (mem_write buf 0 (n_load K (pci_props (nv_pci s)) 4096 (nv_env s))) (\<lambda>buf'. Inr (sz, Some buf'))
        else Inr (0, buffer))"

definition write_nvme_pci ::
  "('w, 'z) nvme_kernel_scheme \<Rightarrow> u8 list option \<Rightarrow> u64 \<Rightarrow> u64 \<Rightarrow> u64 option \<Rightarrow> u64 \<Rightarrow> 'w nvme_sys \<Rightarrow>
   (u64 \<times> 'w nvme_sys) res" where
  "write_nvme_pci K buffer sz cnt file res s =
     (case buffer of None \<Rightarrow> Inr (0, s)
      | Some buf \<Rightarrow>
        if sz = 0 \<or> cnt = 0 \<or> file = None \<or> res = 0 then Inr (0, s)
        else if pci_exposed (nv_pci s) = uint NVME_TRANSPORT_CTRL_TO_PROPS
        then res_bind (mem_read buf 0 4096) (\<lambda>bs.
               Inr (sz, s\<lparr>nv_env := n_store K (pci_props (nv_pci s)) bs (nv_env s)\<rparr>))
        else Inr (0, s))"

definition stat_nvme_pci :: int where
  "stat_nvme_pci = 0"

text \<open>Identification fills the caller's structure with the two functions and the type 0.\<close>

definition nvme_pci_iden :: "('w, 'z) nvme_kernel_scheme \<Rightarrow> 'w nvme_transport_iden" where
  "nvme_pci_iden K = \<lparr>ti_type = 0, ti_submit = Some (nvme_pci_submit_command K), ti_poll = Some (nvme_pci_poll_completion K)\<rparr>"

definition control_nvme_pci ::
  "('w, 'z) nvme_kernel_scheme \<Rightarrow> u64 \<Rightarrow> 'w nvme_instruction option \<Rightarrow> 'w nvme_sys \<Rightarrow> 'w nvme_response \<times> 'w nvme_sys" where
  "control_nvme_pci K res inst s =
     (case inst of None \<Rightarrow> (nvme_no_response, s)
      | Some i \<Rightarrow>
        if res = 0 then (nvme_no_response, s)
        else if ni_command i = NVME_TRANSPORT_CTRL_IDEN
        then (case ni_data i of None \<Rightarrow> (nvme_no_response, s)
              | Some old \<Rightarrow> (\<lparr>nr_type = ni_command i, nr_size = 24, nr_data = Some (nvme_pci_iden K)\<rparr>, s))
        else if ni_command i = NVME_TRANSPORT_CTRL_TO_PROPS
        then (nvme_no_response, s\<lparr>nv_pci := (nv_pci s)\<lparr>pci_exposed := uint NVME_TRANSPORT_CTRL_TO_PROPS\<rparr>\<rparr>)
        else (nvme_no_response, s))"

text \<open>The transport's driver, as the controller driver sees it.\<close>

definition nvme_pci_driver :: "('w, 'z) nvme_kernel_scheme \<Rightarrow> 'w nvme_transport" where
  "nvme_pci_driver K = \<lparr>nt_control = Some (control_nvme_pci K), nt_read = read_nvme_pci K\<rparr>"

definition nvme_pci_codes :: "u64 \<Rightarrow> u64 list" where
  "nvme_pci_codes terminator = [0x1b360010, terminator]"

end
