(* ===== verification/Nvme_Core.thy ===== *)
theory Nvme_Core
  imports Nvme_Pci
begin

text \<open>
  \<open>src/c/sysdev/nvme/nvme.c\<close>: the controller driver over a transport. It identifies the controller,
  chooses command sets, lists the namespaces, asks for I/O queues, creates them and starts one namespace
  driver for each namespace. The transport's functions are arguments (\<open>T\<close> as identified, \<open>D\<close> its driver).
\<close>

section \<open>Identifying the controller\<close>

definition load_word :: "('w, 'z) nvme_kernel_scheme \<Rightarrow> u64 \<Rightarrow> nat \<Rightarrow> 'w \<Rightarrow> 'a::len word" where
  "load_word K p n w = le_word (n_load K p n w)"

definition nvme_identify_controller ::
  "('w, 'z) nvme_kernel_scheme \<Rightarrow> 'w nvme_transport_iden \<Rightarrow> 'w nvme_sys \<Rightarrow> (int \<times> 'w nvme_sys) res option" where
  "nvme_identify_controller K T s =
     (case n_page_alloc K (nv_env s) of (data, w1) \<Rightarrow>
        let cmd = qs_zero\<lparr>qs_opcode := 6, qs_prp1 := n_to_phys K data, qs_cdw10 := 1\<rparr>
        in run_bind (nvme_run T None cmd (s\<lparr>nv_env := w1\<rparr>)) (\<lambda>(st, e, s1).
             let w2 = nv_env s1;
                 s2 = s1\<lparr>nv_core := (nv_core s1)\<lparr>
                        nd_max_transfer := ucast (load_word K (data + 77) 1 w2 :: u8), nd_id := load_word K (data + 78) 2 w2,
                        nd_version := load_word K (data + 80) 4 w2, nd_ctratt := load_word K (data + 96) 4 w2,
                        nd_type := ucast (load_word K (data + 111) 1 w2 :: u8)\<rparr>\<rparr>
             in run_bind (nvme_run T None (cmd\<lparr>qs_cdw10 := 2\<rparr>) s2) (\<lambda>(st', e', s3).
                  Some (Inr (0, s3\<lparr>nv_env := n_page_free K data (nv_env s3)\<rparr>)))))"

section \<open>I/O queues\<close>

text \<open>The result is a 16-bit count; the subtractions are on 32 bits.\<close>

definition nvme_request_io_queues ::
  "('w, 'z) nvme_kernel_scheme \<Rightarrow> 'w nvme_transport_iden \<Rightarrow> u16 \<Rightarrow> 'w nvme_sys \<Rightarrow> (u16 \<times> 'w nvme_sys) res option" where
  "nvme_request_io_queues K T qcount s =
     (let q = ucast qcount - 1 :: u32;
          cmd = qs_zero\<lparr>qs_opcode := 9, qs_cdw10 := 7, qs_cdw11 := q OR push_bit 16 q\<rparr>
      in run_bind (nvme_run T None cmd s) (\<lambda>(st, e, s1).
           let dw0 = ucast (qc_dw0 (case e of None \<Rightarrow> qc_zero | Some x \<Rightarrow> x)) :: u64
           in Some (Inr (ucast (k_min K (k_masked_read K dw0 0 0xFFFF) (k_masked_read K dw0 16 0xFFFF)) + 1, s1))))"

text \<open>An element of the array as the allocator left it (24 bytes each).\<close>

definition junk_pair :: "u8 list \<Rightarrow> nat \<Rightarrow> nvme_qpair" where
  "junk_pair m i = \<lparr>qp_subq = le_at m (24 * i) 8, qp_cmpq = le_at m (24 * i + 8) 8,
     qp_id = sint (le_at m (24 * i + 16) 4 :: u32), qp_phase = sint (le_at m (24 * i + 20) 4 :: u32)\<rparr>"

text \<open>The loop, with \<open>n\<close> pairs left to make; it stops early when something cannot be allocated.\<close>

fun create_io_loop ::
  "('w, 'z) nvme_kernel_scheme \<Rightarrow> u64 \<Rightarrow> nat \<Rightarrow> nat \<Rightarrow> nvme_qpair list \<Rightarrow> 'w \<Rightarrow> nat \<times> nvme_qpair list \<times> 'w" where
  "create_io_loop K qsize i 0 qs w = (i, qs, w)"
| "create_io_loop K qsize i (Suc n) qs w =
     (case n_pmm_alloc K (qsize * 2) w of (base, w1) \<Rightarrow>
        if base = 0 then (i, qs, w1)
        else let w2 = n_store K base (replicate (unat (qsize * 2)) 0) w1
          in case n_rb_init K base (qsize div 64) 64 w2 of (sub, w3) \<Rightarrow>
            if sub = 0 then (i, qs, w3)
            else case n_rb_init K (base + qsize) (qsize div 16) 16 w3 of (cmp, w4) \<Rightarrow>
              if cmp = 0 then (i, qs, w4)
              else create_io_loop K qsize (Suc i) n
                     (qs[i := \<lparr>qp_subq = sub, qp_cmpq = cmp, qp_id = int i + 1, qp_phase = 1\<rparr>]) w4)"

text \<open>Giving the memory of pairs \<open>i\<close> down to 0 back.\<close>

fun free_io_pairs :: "('w, 'z) nvme_kernel_scheme \<Rightarrow> nvme_qpair list \<Rightarrow> nat \<Rightarrow> 'w \<Rightarrow> 'w" where
  "free_io_pairs K qs 0 w = n_pmm_free K (n_rb_base K (qp_subq (qs ! 0)) w) w"
| "free_io_pairs K qs (Suc i) w = free_io_pairs K qs i (n_pmm_free K (n_rb_base K (qp_subq (qs ! Suc i)) w) w)"

definition nvme_create_io_qpairs ::
  "('w, 'z) nvme_kernel_scheme \<Rightarrow> u16 \<Rightarrow> u64 \<Rightarrow> 'w nvme_sys \<Rightarrow> int \<times> 'w nvme_sys" where
  "nvme_create_io_qpairs K cnt qsize s =
     (case k_alloc K (24 * ucast cnt) (nv_env s) of (p, w1) \<Rightarrow>
        if p = 0 then (- 1, s\<lparr>nv_env := k_free K (nd_self (nv_core s)) w1\<rparr>)
        else let m = fresh_bytes K p (24 * ucast cnt); n = unat cnt
          in case create_io_loop K qsize 0 n (map (junk_pair m) [0..<n]) w1 of (i, qs, w2) \<Rightarrow>
            if i \<noteq> n then (- 1, s\<lparr>nv_env := k_free K p (free_io_pairs K qs i w2)\<rparr>)
            else (0, s\<lparr>nv_core := (nv_core s)\<lparr>nd_qs := qs\<rparr>, nv_env := w2\<rparr>))"

section \<open>Command sets\<close>

text \<open>The first nonzero entry of the page, and its index (512 if there is none).\<close>

fun first_set :: "u64 list \<Rightarrow> nat \<Rightarrow> nat \<times> u64" where
  "first_set [] i = (i, 0)"
| "first_set (x # xs) i = (if x \<noteq> 0 then (i, x) else first_set xs (Suc i))"

definition page_words :: "('w, 'z) nvme_kernel_scheme \<Rightarrow> u64 \<Rightarrow> nat \<Rightarrow> nat \<Rightarrow> 'w \<Rightarrow> 'a::len word list" where
  "page_words K p sz n w = map (\<lambda>i. le_at (n_load K p (sz * n) w) (sz * i) sz) [0..<n]"

definition nvme_set_command_sets ::
  "('w, 'z) nvme_kernel_scheme \<Rightarrow> 'w nvme_transport \<Rightarrow> 'w nvme_transport_iden \<Rightarrow> 'w nvme_sys \<Rightarrow>
   (u64 \<times> 'w nvme_sys) res option" where
  "nvme_set_command_sets K D T s =
     (let transport = nd_transport (nv_core s)
      in case nt_control D of None \<Rightarrow> Some (Inl Null_Deref)
         | Some ctl \<Rightarrow>
           let s0 = snd (ctl transport (Some \<lparr>ni_command = NVME_TRANSPORT_CTRL_TO_PROPS, ni_data = None\<rparr>) s)
           in case k_alloc K 4096 (nv_env s0) of (p, w1) \<Rightarrow>
             if p = 0 then Some (Inr (- 1, s0\<lparr>nv_env := w1\<rparr>))
             else run_bind (Some (nt_read D (Some (fresh_bytes K p 4096)) 4096 1 None transport (s0\<lparr>nv_env := w1\<rparr>))) (\<lambda>(k, buf).
               let props = (case buf of None \<Rightarrow> [] | Some b \<Rightarrow> b);
                   cap = le_at props 0 8 :: u64; cc = ucast (le_at props 20 4 :: u32) :: u64;
                   s1 = s0\<lparr>nv_env := k_free K p w1\<rparr>
               in if k_masked_read K cap 43 1 = 1
                  then case n_page_alloc K (nv_env s1) of (iocs, w2) \<Rightarrow>
                    run_bind (nvme_run T None
                      (qs_zero\<lparr>qs_opcode := 6, qs_prp1 := n_to_phys K iocs,
                         qs_cdw10 := 0x1C OR push_bit 16 (ucast (nd_id (nv_core s1)))\<rparr>) (s1\<lparr>nv_env := w2\<rparr>)) (\<lambda>(st, e, s2).
                      case first_set (page_words K iocs 8 512 (nv_env s2)) 0 of (i, enabled) \<Rightarrow>
                        let s3 = s2\<lparr>nv_env := n_page_free K iocs (nv_env s2)\<rparr>
                        in run_bind (nvme_run T None
                             (qs_zero\<lparr>qs_opcode := 9, qs_cdw10 := 0x19, qs_cdw11 := word_of_nat i AND 0xFF\<rparr>) s3) (\<lambda>(st', e', s4).
                             Some (Inr (enabled, s4))))
                  else if k_masked_read K cc 1 7 = 0 then Some (Inr (1, s1))
                  else Some (Inr (0, s1))))"

section \<open>Namespaces\<close>

record nvme_namespace_args =
  na_namespace :: int
  na_command_set :: int

text \<open>
  Going through one page of identifiers. \<open>acc\<close> is the list the driver builds, newest first; \<open>t\<close> is the
  last identifier looked at.
\<close>

fun ns_scan ::
  "('w, 'z) nvme_kernel_scheme \<Rightarrow> int \<Rightarrow> u32 list \<Rightarrow> u32 \<Rightarrow> nvme_namespace_args list \<Rightarrow> 'w \<Rightarrow>
   u32 \<times> nvme_namespace_args list \<times> 'w" where
  "ns_scan K idx [] t acc w = (t, acc, w)"
| "ns_scan K idx (n # ns) t acc w =
     (if n = 0 then (n, acc, w)
      else case k_alloc K 24 w of (p, w1) \<Rightarrow>
        if p = 0 then (n, acc, w1)
        else ns_scan K idx ns n (\<lparr>na_namespace = sint n, na_command_set = idx\<rparr> # acc) w1)"

partial_function (option) ns_pages ::
  "('w, 'z) nvme_kernel_scheme \<Rightarrow> 'w nvme_transport_iden \<Rightarrow> int \<Rightarrow> u64 \<Rightarrow> qs_entry \<Rightarrow> u32 \<Rightarrow> nvme_namespace_args list \<Rightarrow>
   'w nvme_sys \<Rightarrow> (nvme_namespace_args list \<times> 'w nvme_sys) res option" where
  "ns_pages K T idx page cmd t acc s =
     (let s0 = s\<lparr>nv_env := n_store K page (replicate (unat (n_page_size K)) 0) (nv_env s)\<rparr>
      in case nvme_run T None (cmd\<lparr>qs_nsid := t\<rparr>) s0 of
           None \<Rightarrow> None
         | Some (Inl e) \<Rightarrow> Some (Inl e)
         | Some (Inr (st, e, s1)) \<Rightarrow>
             if qc_status (case e of None \<Rightarrow> qc_zero | Some x \<Rightarrow> x) \<noteq> 0 then Some (Inr (acc, s1))
             else (case ns_scan K idx (page_words K page 4 1024 (nv_env s1)) t acc (nv_env s1) of (t', acc', w') \<Rightarrow>
                     if t' = 0 then Some (Inr (acc', s1\<lparr>nv_env := w'\<rparr>))
                     else ns_pages K T idx page cmd t' acc' (s1\<lparr>nv_env := w'\<rparr>)))"

text \<open>\<open>__builtin_ffs\<close> takes an \<open>int\<close>.\<close>

definition ffs_int :: "u64 \<Rightarrow> int" where
  "ffs_int v = (case find (\<lambda>i. bit (ucast v :: u32) i) [0..<32] of None \<Rightarrow> 0 | Some i \<Rightarrow> int i + 1)"

text \<open>\<open>sets &= ~(1 << idx)\<close> for an \<open>int\<close> 1.\<close>

definition clear_set :: "u64 \<Rightarrow> nat \<Rightarrow> u64" where
  "clear_set sets idx = sets AND scast (NOT (push_bit idx 1 :: u32))"

partial_function (option) list_sets ::
  "('w, 'z) nvme_kernel_scheme \<Rightarrow> 'w nvme_transport_iden \<Rightarrow> u64 \<Rightarrow> nvme_namespace_args list \<Rightarrow>
   'w nvme_sys \<Rightarrow> (nvme_namespace_args list \<times> 'w nvme_sys) res option" where
  "list_sets K T sets acc s =
     (if sets = 0 then Some (Inr (acc, s))
      else let idx = ffs_int sets - 1
        in case n_page_alloc K (nv_env s) of (page, w1) \<Rightarrow>
          (case ns_pages K T idx page
             (qs_zero\<lparr>qs_opcode := 6, qs_prp1 := n_to_phys K page,
                qs_cdw10 := 7 OR push_bit 16 (ucast (nd_id (nv_core s))),
                qs_cdw11 := push_bit 24 (word_of_int idx AND 0xFF)\<rparr>) 0 acc (s\<lparr>nv_env := w1\<rparr>) of
             None \<Rightarrow> None
           | Some (Inl e) \<Rightarrow> Some (Inl e)
           | Some (Inr (acc', s1)) \<Rightarrow>
               if idx < 0 then Some (Inl Bad_Shift)
               else list_sets K T (clear_set sets (nat idx)) acc' (s1\<lparr>nv_env := n_page_free K page (nv_env s1)\<rparr>)))"

text \<open>The count is the length of the list built.\<close>

definition nvme_list_namespaces ::
  "('w, 'z) nvme_kernel_scheme \<Rightarrow> 'w nvme_transport_iden \<Rightarrow> u64 \<Rightarrow> 'w nvme_sys \<Rightarrow>
   (int \<times> nvme_namespace_args list \<times> 'w nvme_sys) res option" where
  "nvme_list_namespaces K T sets s =
     run_bind (list_sets K T sets [] s) (\<lambda>(acc, s1). Some (Inr (int (length acc), acc, s1)))"

section \<open>The driver\<close>

definition blank_driver :: "u64 \<Rightarrow> u64 \<Rightarrow> nvme_driver_state" where
  "blank_driver p transport = \<lparr>nd_self = p, nd_transport = transport, nd_max_transfer = 0, nd_id = 0, nd_version = 0,
     nd_type = 0, nd_ctratt = 0, nd_requested = 0, nd_granted = 0, nd_init = 0, nd_qs = []\<rparr>"

text \<open>\<open>spawn\<close> is the call of \<open>init_resource\<close> for one namespace, whose result is ignored.\<close>

fun start_namespaces ::
  "(nvme_namespace_args \<Rightarrow> 'w nvme_sys \<Rightarrow> 'w nvme_sys res option) \<Rightarrow> nvme_namespace_args list \<Rightarrow> 'w nvme_sys \<Rightarrow> 'w nvme_sys res option" where
  "start_namespaces spawn [] s = Some (Inr s)"
| "start_namespaces spawn (a # as) s = run_bind (spawn a s) (\<lambda>s1. start_namespaces spawn as s1)"

text \<open>After the transport is identified.\<close>

definition nvme_bring_up ::
  "('w, 'z) nvme_kernel_scheme \<Rightarrow> 'w nvme_transport \<Rightarrow> 'w nvme_transport_iden \<Rightarrow>
   (nvme_namespace_args \<Rightarrow> 'w nvme_sys \<Rightarrow> 'w nvme_sys res option) \<Rightarrow> 'w nvme_sys \<Rightarrow> (int \<times> bool \<times> 'w nvme_sys) res option" where
  "nvme_bring_up K D T spawn s =
     run_bind (nvme_identify_controller K T s) (\<lambda>(r, s1).
     run_bind (nvme_set_command_sets K D T s1) (\<lambda>(sets, s2).
     run_bind (nvme_list_namespaces K T (scast (ucast sets :: u32)) s2) (\<lambda>(ns_count, namespaces, s3).
       let requested = ucast ((word_of_int ns_count AND 0xFFFF) * n_processors K) :: u16
       in run_bind (nvme_request_io_queues K T requested s3) (\<lambda>(granted, s4).
            let fail = (\<lambda>code s'. Some (Inr (code, False, s'\<lparr>nv_env := k_free K (nd_self (nv_core s')) (nv_env s')\<rparr>)))
            in if granted = 0 then fail (- 6) s4
               else case nvme_create_io_qpairs K (ucast (k_min K (ucast requested) (ucast granted))) 0x1000 s4 of (ret, s5) \<Rightarrow>
                 if ret \<noteq> 0 then fail (- 7) s5
                 else let s6 = s5\<lparr>nv_core := (nv_core s5)\<lparr>nd_requested := ucast requested, nd_granted := ucast granted\<rparr>\<rparr>
                   in run_bind (start_namespaces spawn namespaces s6) (\<lambda>s7. Some (Inr (0, True, s7)))))))"

text \<open>\<open>arg\<close> is the transport's resource; the result says whether the resource got the state.\<close>

definition init_nvme ::
  "('w, 'z) nvme_kernel_scheme \<Rightarrow> 'w nvme_transport \<Rightarrow>
   (nvme_namespace_args \<Rightarrow> 'w nvme_sys \<Rightarrow> 'w nvme_sys res option) \<Rightarrow> u64 \<Rightarrow> 'w nvme_sys \<Rightarrow> (int \<times> bool \<times> 'w nvme_sys) res option" where
  "init_nvme K D spawn arg s =
     (if arg = 0 then Some (Inr (- 1, False, s))
      else case k_alloc K 80 (nv_env s) of (p, w1) \<Rightarrow>
        if p = 0 then Some (Inr (- 2, False, s\<lparr>nv_env := w1\<rparr>))
        else let s1 = s\<lparr>nv_core := blank_driver p arg, nv_env := w1\<rparr>
          in case nt_control D of
               None \<Rightarrow> Some (Inr (- 4, False, s1\<lparr>nv_env := k_free K p w1\<rparr>))
             | Some ctl \<Rightarrow>
               (case ctl arg (Some \<lparr>ni_command = NVME_TRANSPORT_CTRL_IDEN,
                                    ni_data = Some \<lparr>ti_type = 0, ti_submit = None, ti_poll = None\<rparr>\<rparr>) s1 of (resp, s2) \<Rightarrow>
                  case nr_data resp of
                    None \<Rightarrow> Some (Inr (- 5, False, s2\<lparr>nv_env := k_free K p (nv_env s2)\<rparr>))
                  | Some ident \<Rightarrow> nvme_bring_up K D ident spawn s2))"

definition uninit_nvme :: int where
  "uninit_nvme = 0"

definition read_nvme :: "u8 list option \<Rightarrow> u64 \<Rightarrow> u64 \<Rightarrow> u64 option \<Rightarrow> u64 \<Rightarrow> u64" where
  "read_nvme buffer sz cnt file res = (if buffer = None \<or> sz = 0 \<or> cnt = 0 \<or> file = None \<or> res = 0 then 0 else 0)"

definition write_nvme :: "u8 list option \<Rightarrow> u64 \<Rightarrow> u64 \<Rightarrow> u64 option \<Rightarrow> u64 \<Rightarrow> u64" where
  "write_nvme buffer sz cnt file res = (if buffer = None \<or> sz = 0 \<or> cnt = 0 \<or> file = None \<or> res = 0 then 0 else 0)"

definition stat_nvme :: int where
  "stat_nvme = 0"

end
