(* ===== verification/Nvme_Namespace.thy ===== *)
theory Nvme_Namespace
  imports Nvme_Core
begin

text \<open>
  \<open>src/c/sysdev/nvme/namespace.c\<close>: the driver of one namespace. It registers its share of the I/O queues
  with the controller, learns the block format, and serves reads and writes at byte offsets through
  page-sized transfers of whole blocks.
\<close>

section \<open>State\<close>

record ns_state =
  nss_block_size :: u64
  nss_lba_size :: u64
  nss_meta_follows :: bool
  nss_meta_size :: u64
  nss_nsze :: u64
  nss_ncap :: u64
  nss_namespace :: int
  nss_nvm_set :: int
  nss_command_set :: int
  nss_qpair_base :: int
  nss_qpair_count :: int

section \<open>Registering queues\<close>

definition status_error :: "int \<Rightarrow> int \<Rightarrow> int" where
  "status_error status n = status OR push_bit 16 n"

text \<open>The array element at an \<open>int\<close> index.\<close>

definition io_pair_ref :: "int \<Rightarrow> qp_ref res" where
  "io_pair_ref i = (if i < 0 then Inl Out_Of_Bounds else Inr (Io_Pair (nat i)))"

definition nvme_register_io_qpair ::
  "('w, 'z) nvme_kernel_scheme \<Rightarrow> 'w nvme_transport_iden \<Rightarrow> nvme_qpair \<Rightarrow> u8 \<Rightarrow> int \<Rightarrow> 'w nvme_sys \<Rightarrow>
   (int \<times> 'w nvme_sys) res option" where
  "nvme_register_io_qpair K T q nvm_set irq s =
     (if qp_cmpq q = 0 \<or> qp_subq q = 0 then Some (Inr (- 1, s))
      else
        let w = nv_env s;
            cmd = qs_zero\<lparr>qs_opcode := 5, qs_prp1 := n_to_phys K (n_rb_base K (qp_cmpq q) w),
                    qs_cdw10 := word_of_int (qp_id q) OR push_bit 16 (ucast (n_rb_objs K (qp_cmpq q) w - 1)),
                    qs_cdw11 := 1 OR (if irq > 31 then 2 else 0) OR push_bit 16 (word_of_int irq AND 0xFFFF),
                    qs_cdw12 := ucast nvm_set\<rparr>
        in run_bind (nvme_run T None cmd s) (\<lambda>(status, e, s1).
             if status \<noteq> 0 then Some (Inr (status_error status 1, s1))
             else
               let w1 = nv_env s1;
                   cmd1 = cmd\<lparr>qs_opcode := 1, qs_prp1 := n_to_phys K (n_rb_base K (qp_subq q) w1),
                       qs_cdw10 := word_of_int (qp_id q) OR push_bit 16 (ucast (n_rb_objs K (qp_subq q) w1 - 1)),
                       qs_cdw11 := 1 OR push_bit 16 (word_of_int (qp_id q))\<rparr>
               in run_bind (nvme_run T None cmd1 s1) (\<lambda>(status', e', s2).
                    if status' \<noteq> 0 then Some (Inr (status_error status' 2, s2)) else Some (Inr (0, s2)))))"

section \<open>The block format\<close>

text \<open>
  Bits of byte 26 of the identification page, and the format entry. The entry is read at byte
  \<open>128 + format_idx\<close>, and its exponent shifts an \<open>int\<close>.
\<close>

definition format_index :: "u8 \<Rightarrow> u8" where
  "format_index b = (b AND 0xF) OR push_bit 4 (drop_bit 5 b AND 3)"

definition lba_size_of :: "u32 \<Rightarrow> u64 res" where
  "lba_size_of lbaf =
     (let e = unat (drop_bit 16 lbaf AND 0xFF)
      in if e \<ge> 32 then Inl Bad_Shift else Inr (scast (push_bit e 1 :: u32)))"

definition take_format :: "('w, 'z) nvme_kernel_scheme \<Rightarrow> u64 \<Rightarrow> 'w \<Rightarrow> ns_state \<Rightarrow> ns_state res" where
  "take_format K data w st =
     (let b = load_word K (data + 26) 1 w :: u8;
          lbaf = load_word K (data + 128 + ucast (format_index b)) 4 w :: u32
      in res_bind (lba_size_of lbaf) (\<lambda>lba_size.
           Inr (st\<lparr>nss_meta_follows := bit b 4, nss_lba_size := lba_size, nss_meta_size := ucast (lbaf AND 0xFFFF),
                 nss_nvm_set := uint (load_word K (data + 100) 1 w :: u8), nss_nsze := load_word K data 8 w,
                 nss_ncap := load_word K (data + 8) 8 w\<rparr>)))"

definition namespace_get_info ::
  "('w, 'z) nvme_kernel_scheme \<Rightarrow> 'w nvme_transport_iden \<Rightarrow> ns_state \<Rightarrow> 'w nvme_sys \<Rightarrow>
   (int \<times> ns_state \<times> 'w nvme_sys) res option" where
  "namespace_get_info K T st s =
     (case n_page_alloc K (nv_env s) of (data, w1) \<Rightarrow>
        let s0 = s\<lparr>nv_env := w1\<rparr>
        in if data = 0 then Some (Inr (- 1, st, s0))
           else
             let cmd = qs_zero\<lparr>qs_opcode := 6, qs_prp1 := n_to_phys K data,
                         qs_cdw11 := push_bit 24 (word_of_int (nss_command_set st) AND 0xFF),
                         qs_nsid := word_of_int (nss_namespace st)\<rparr>
             in run_bind (nvme_run T None cmd s0) (\<lambda>(r1, e1, s1).
                  if r1 \<noteq> 0 then Some (Inr (status_error r1 1, st, s1))
                  else run_bind (Some (take_format K data (nv_env s1) st)) (\<lambda>st1.
                    run_bind (nvme_run T None (cmd\<lparr>qs_cdw10 := 5\<rparr>) s1) (\<lambda>(r2, e2, s2).
                      if r2 \<noteq> 0 then Some (Inr (status_error r2 2, st1, s2))
                      else run_bind (nvme_run T None (cmd\<lparr>qs_cdw10 := 6\<rparr>) s2) (\<lambda>(r3, e3, s3).
                        if r3 \<noteq> 0 then Some (Inr (status_error r3 3, st1, s3))
                        else run_bind (nvme_run T None (cmd\<lparr>qs_cdw10 := 8, qs_cdw11 := 0\<rparr>) s3) (\<lambda>(r4, e4, s4).
                          if r4 \<noteq> 0 then Some (Inr (status_error r4 4, st1, s4))
                          else Some (Inr (0, st1, s4))))))))"

section \<open>Starting and stopping\<close>

text \<open>Registering the pairs \<open>i\<close>, \<open>i + 1\<close>, \<dots>; a failure is only reported.\<close>

fun register_pairs ::
  "('w, 'z) nvme_kernel_scheme \<Rightarrow> 'w nvme_transport_iden \<Rightarrow> u8 \<Rightarrow> int \<Rightarrow> nat \<Rightarrow> 'w nvme_sys \<Rightarrow> 'w nvme_sys res option" where
  "register_pairs K T nvm_set i 0 s = Some (Inr s)"
| "register_pairs K T nvm_set i (Suc n) s =
     run_bind (Some (res_bind (io_pair_ref i) (get_pair s))) (\<lambda>q.
     run_bind (nvme_register_io_qpair K T q nvm_set 0 s) (\<lambda>(r, s1).
       register_pairs K T nvm_set (i + 1) n s1))"

definition namespace_path :: "u16 \<Rightarrow> int \<Rightarrow> u8 list" where
  "namespace_path ident n =
     [47, 100, 101, 118, 47, 110, 118, 109, 101] @ dec_int (ucast ident) @ [110] @ dec_int (word_of_int n)"

text \<open>The result is the state the resource gets, if any.\<close>

definition init_nvme_namespace ::
  "('w, 'z) nvme_kernel_scheme \<Rightarrow> 'w nvme_transport_iden \<Rightarrow> nvme_namespace_args \<Rightarrow> 'w nvme_sys \<Rightarrow>
   (int \<times> ns_state option \<times> 'w nvme_sys) res option" where
  "init_nvme_namespace K T arg s =
     (case k_alloc K 80 (nv_env s) of (p, w1) \<Rightarrow>
        if p = 0 then Some (Inr (- 1, None, s\<lparr>nv_env := w1\<rparr>))
        else
          let m = fresh_bytes K p 80; core = nv_core s;
              base = sint (ucast (nd_init core) :: u32);
              q_count = sint (ucast (k_min K (ucast (n_processors K)) (nd_granted core)) :: u32);
              st = \<lparr>nss_block_size = n_page_size K, nss_lba_size = le_at m 16 8, nss_meta_follows = bit (le_at m 24 1 :: u8) 0,
                    nss_meta_size = le_at m 32 8, nss_nsze = le_at m 40 8, nss_ncap = le_at m 48 8,
                    nss_namespace = na_namespace arg, nss_nvm_set = sint (le_at m 60 4 :: u32),
                    nss_command_set = na_command_set arg, nss_qpair_base = base, nss_qpair_count = q_count\<rparr>;
              s1 = s\<lparr>nv_core := core\<lparr>nd_init := nd_init core + word_of_int q_count\<rparr>, nv_env := w1\<rparr>
          in run_bind (namespace_get_info K T st s1) (\<lambda>(r, st1, s2).
               if r \<noteq> 0 then Some (Inr (- 2, None, s2))
               else run_bind (register_pairs K T (word_of_int (nss_nvm_set st1)) base (nat q_count) s2) (\<lambda>s3.
                 Some (Inr (0, Some st1,
                   s3\<lparr>nv_env := n_vfs_create K (namespace_path (nd_id (nv_core s3)) (nss_namespace st1)) (nv_env s3)\<rparr>)))))"

definition uninit_nvme_namespace :: int where
  "uninit_nvme_namespace = 0"

section \<open>Transfers\<close>

text \<open>One page; the page buffer is allocated on first use. The result is the status and the buffer.\<close>

definition namespace_rw_page ::
  "('w, 'z) nvme_kernel_scheme \<Rightarrow> 'w nvme_transport_iden \<Rightarrow> bool \<Rightarrow> ns_state \<Rightarrow> u64 \<Rightarrow> u64 \<Rightarrow> 'w nvme_sys \<Rightarrow>
   (int \<times> u64 \<times> 'w nvme_sys) res option" where
  "namespace_rw_page K T writing st bstart page s =
     run_bind (Some (if page = 0
                     then (case n_pmm_alloc K (nss_block_size st) (nv_env s) of (p, w1) \<Rightarrow>
                             if p = 0 then Inl Null_Deref
                             else Inr (p, n_store K p (replicate (unat (n_page_size K)) 0) w1))
                     else Inr (page, nv_env s))) (\<lambda>(p, w1).
       case n_page_alloc K w1 of (meta, w2) \<Rightarrow>
         if nss_lba_size st = 0 then Some (Inl Div_By_Zero)
         else
           let cmd = qs_zero\<lparr>qs_opcode := if writing then 1 else 2, qs_prp1 := n_to_phys K p, qs_mptr := n_to_phys K meta,
                       qs_cdw12 := ucast (n_page_size K div nss_lba_size st - 1), qs_cdw10 := ucast bstart,
                       qs_cdw11 := ucast (drop_bit 32 bstart), qs_nsid := word_of_int (nss_namespace st)\<rparr>
           in run_bind (Some (io_pair_ref (int (n_processor_id K w2) + nss_qpair_base st))) (\<lambda>ref.
              run_bind (nvme_run T (Some ref) cmd (s\<lparr>nv_env := w2\<rparr>)) (\<lambda>(status, e, s1).
                Some (Inr (status, p, s1\<lparr>nv_env := n_page_free K meta (nv_env s1)\<rparr>)))))"

text \<open>
  Where the next piece of a transfer of \<open>whole\<close> bytes at \<open>off\<close> goes when \<open>traversed\<close> bytes are through: the
  block number (an \<open>int\<close>, extended), the offset in the page, and the length.
\<close>

definition piece ::
  "('w, 'z) nvme_kernel_scheme \<Rightarrow> ns_state \<Rightarrow> u64 \<Rightarrow> u64 \<Rightarrow> u64 \<Rightarrow> (u64 \<times> u64 \<times> u64) res" where
  "piece K st off whole traversed =
     (let start = n_align_down K (off + traversed) (nss_lba_size st);
          page_offset = traversed + off - start;
          len = (if page_offset > 0 then k_min K (nss_block_size st - (off - start)) whole
                 else k_min K (nss_block_size st) (whole - traversed))
      in if nss_lba_size st = 0 then Inl Div_By_Zero
         else Inr (scast (ucast (start div nss_lba_size st) :: u32), page_offset, len))"

text \<open>The page buffer has \<open>block_size\<close> bytes.\<close>

definition page_get ::
  "('w, 'z) nvme_kernel_scheme \<Rightarrow> ns_state \<Rightarrow> u64 \<Rightarrow> u64 \<Rightarrow> u64 \<Rightarrow> 'w \<Rightarrow> u8 list res" where
  "page_get K st page off n w =
     (if n = 0 then Inr []
      else if page = 0 then Inl Null_Deref
      else if unat off + unat n \<le> unat (nss_block_size st) then Inr (n_load K (page + off) (unat n) w)
      else Inl Out_Of_Bounds)"

definition page_put ::
  "('w, 'z) nvme_kernel_scheme \<Rightarrow> ns_state \<Rightarrow> u64 \<Rightarrow> u64 \<Rightarrow> u8 list \<Rightarrow> 'w \<Rightarrow> 'w res" where
  "page_put K st page off bs w =
     (if bs = [] then Inr w
      else if page = 0 then Inl Null_Deref
      else if unat off + length bs \<le> unat (nss_block_size st) then Inr (n_store K (page + off) bs w)
      else Inl Out_Of_Bounds)"

partial_function (option) read_loop ::
  "('w, 'z) nvme_kernel_scheme \<Rightarrow> 'w nvme_transport_iden \<Rightarrow> ns_state \<Rightarrow> u64 \<Rightarrow> u64 \<Rightarrow> u64 \<Rightarrow> u64 \<Rightarrow> u8 list \<Rightarrow>
   'w nvme_sys \<Rightarrow> (u64 \<times> u64 \<times> u8 list \<times> 'w nvme_sys) res option" where
  "read_loop K T st off whole traversed page buf s =
     (if traversed < whole
      then (case piece K st off whole traversed of
              Inl e \<Rightarrow> Some (Inl e)
            | Inr (lba, page_offset, len) \<Rightarrow>
              (case namespace_rw_page K T False st lba page s of
                 None \<Rightarrow> None
               | Some (Inl e) \<Rightarrow> Some (Inl e)
               | Some (Inr (status, page', s1)) \<Rightarrow>
                 if status \<noteq> 0 then Some (Inr (traversed, page', buf, s1))
                 else (case res_bind (page_get K st page' page_offset len (nv_env s1)) (mem_write buf (unat traversed)) of
                         Inl e \<Rightarrow> Some (Inl e)
                       | Inr buf' \<Rightarrow> read_loop K T st off whole (traversed + len) page' buf' s1)))
      else Some (Inr (traversed, page, buf, s)))"

definition read_nvme_namespace ::
  "('w, 'z) nvme_kernel_scheme \<Rightarrow> 'w nvme_transport_iden \<Rightarrow> u8 list \<Rightarrow> u64 \<Rightarrow> u64 \<Rightarrow> u64 \<Rightarrow> ns_state option \<Rightarrow>
   'w nvme_sys \<Rightarrow> (u64 \<times> u8 list \<times> 'w nvme_sys) res option" where
  "read_nvme_namespace K T buffer sz cnt offset state s =
     (case state of
        None \<Rightarrow> if sz * cnt = 0 then Some (Inr (0, buffer, s\<lparr>nv_env := n_pmm_free K 0 (nv_env s)\<rparr>)) else Some (Inl Null_Deref)
      | Some st \<Rightarrow>
        run_bind (read_loop K T st offset (sz * cnt) 0 0 buffer s) (\<lambda>(n, page, buf, s1).
          Some (Inr (n, buf, s1\<lparr>nv_env := n_pmm_free K page (nv_env s1)\<rparr>))))"

text \<open>A piece shorter than a page is read first, so that the rest of the page is written back unchanged.\<close>

partial_function (option) write_loop ::
  "('w, 'z) nvme_kernel_scheme \<Rightarrow> 'w nvme_transport_iden \<Rightarrow> ns_state \<Rightarrow> u64 \<Rightarrow> u64 \<Rightarrow> u64 \<Rightarrow> u64 \<Rightarrow> u8 list \<Rightarrow>
   'w nvme_sys \<Rightarrow> (u64 \<times> u64 \<times> 'w nvme_sys) res option" where
  "write_loop K T st off whole traversed page buf s =
     (if traversed < whole
      then (case piece K st off whole traversed of
              Inl e \<Rightarrow> Some (Inl e)
            | Inr (lba, page_offset, len) \<Rightarrow>
              (case (if len < n_page_size K then namespace_rw_page K T False st lba page s else Some (Inr (0, page, s))) of
                 None \<Rightarrow> None
               | Some (Inl e) \<Rightarrow> Some (Inl e)
               | Some (Inr (status, page', s1)) \<Rightarrow>
                 if status \<noteq> 0 then Some (Inr (traversed, page', s1))
                 else (case res_bind (mem_read buf (unat traversed) (unat len)) (\<lambda>bs. page_put K st page' page_offset bs (nv_env s1)) of
                         Inl e \<Rightarrow> Some (Inl e)
                       | Inr w2 \<Rightarrow>
                         (case namespace_rw_page K T True st lba page' (s1\<lparr>nv_env := w2\<rparr>) of
                            None \<Rightarrow> None
                          | Some (Inl e) \<Rightarrow> Some (Inl e)
                          | Some (Inr (status2, page2, s2)) \<Rightarrow>
                            if status2 \<noteq> 0 then Some (Inr (traversed, page2, s2))
                            else write_loop K T st off whole (traversed + len) page2 buf s2))))
      else Some (Inr (traversed, page, s)))"

definition write_nvme_namespace ::
  "('w, 'z) nvme_kernel_scheme \<Rightarrow> 'w nvme_transport_iden \<Rightarrow> u8 list \<Rightarrow> u64 \<Rightarrow> u64 \<Rightarrow> u64 \<Rightarrow> ns_state option \<Rightarrow>
   'w nvme_sys \<Rightarrow> (u64 \<times> 'w nvme_sys) res option" where
  "write_nvme_namespace K T buffer sz cnt offset state s =
     (case state of
        None \<Rightarrow> if sz * cnt = 0 then Some (Inr (0, s\<lparr>nv_env := n_pmm_free K 0 (nv_env s)\<rparr>)) else Some (Inl Null_Deref)
      | Some st \<Rightarrow>
        run_bind (write_loop K T st offset (sz * cnt) 0 0 buffer s) (\<lambda>(n, page, s1).
          Some (Inr (n, s1\<lparr>nv_env := n_pmm_free K page (nv_env s1)\<rparr>))))"

definition stat_nvme_namespace :: "ns_state resource option \<Rightarrow> stat_buf option \<Rightarrow> (int \<times> stat_buf option) res" where
  "stat_nvme_namespace res stat =
     (case (res, stat) of
        (Some r, Some sb) \<Rightarrow>
          (case driver_state r of None \<Rightarrow> Inl Null_Deref
           | Some st \<Rightarrow> Inr (0, Some (sb\<lparr>st_blksize := nss_lba_size st, st_size := nss_nsze st\<rparr>)))
      | _ \<Rightarrow> Inr (- 1, stat))"

end
