(* ===== verification/Nvme_Media.thy ===== *)
theory Nvme_Media
  imports Nvme_Namespace
begin

text \<open>
  The interface between the namespace driver and what is below it (transport, queues and controller): a
  page-sized read or write command on the driver's queue transfers between a page of memory and the
  namespace. Transfers at byte offsets are proved correct over it.
\<close>

lemma int32_of_u64:
  fixes v :: u64
  assumes "unat v < 2 ^ 31"
  shows "sint (ucast v :: u32) = int (unat v)"
proof -
  have n: "unat (ucast v :: u32) = unat v" using assms by (simp add: unsigned_ucast_eq take_bit_nat_eq_self)
  have u: "uint (ucast v :: u32) = int (unat v)" unfolding n [symmetric] by simp
  have "signed_take_bit 31 (int n) = int n" if "n < 2 ^ 31" for n
    using that by (intro signed_take_bit_int_eq_self) simp_all
  from this [OF assms] show ?thesis by (simp add: sint_uint u)
qed

lemma int_extend: "unat (v :: u64) < 2 ^ 31 \<Longrightarrow> scast (ucast v :: u32) = v"
  by (simp add: scast_eq int32_of_u64)

text \<open>Filling the front of a buffer piece by piece.\<close>

lemma blit_extend:
  assumes "t + n \<le> length xs" and "o' + t + n \<le> length D"
  shows "blit (blit xs 0 (bytes_at o' t D)) t (bytes_at (o' + t) n D) = blit xs 0 (bytes_at o' (t + n) D)"
  using assms by (intro nth_equalityI) (auto simp: nth_blit nth_bytes_at)

section \<open>The interface\<close>

text \<open>
  \<open>content\<close> is the namespace's bytes, \<open>buf p\<close> says that \<open>p\<close> is a page the driver may use, and \<open>left\<close> is
  the number of commands until the completion ring is used up (the driver does not survive that, see
  the queue protocol).
\<close>

definition page_command ::
  "('w, 'z) nvme_kernel_scheme \<Rightarrow> ns_state \<Rightarrow> u8 \<Rightarrow> u64 \<Rightarrow> nat \<Rightarrow> qs_entry \<Rightarrow> bool" where
  "page_command K st opcode p lba cmd \<longleftrightarrow>
     qs_opcode cmd = opcode \<and> qs_fuse cmd = 0 \<and> qs_psdt cmd = 0 \<and> qs_prp1 cmd = n_to_phys K p \<and>
     qs_nsid cmd = word_of_int (nss_namespace st) \<and> unat (qs_cdw10 cmd) + 2 ^ 32 * unat (qs_cdw11 cmd) = lba \<and>
     unat (qs_cdw12 cmd) + 1 = unat (n_page_size K) div unat (nss_lba_size st)"

text \<open>
  Number of pages of \<open>p\<close> bytes from byte \<open>x\<close> on for \<open>n\<close> bytes, the first one starting at \<open>x\<close>'s
  block of \<open>l\<close> bytes.
\<close>

definition page_count :: "nat \<Rightarrow> nat \<Rightarrow> nat \<Rightarrow> nat \<Rightarrow> nat" where
  "page_count p l x n = (x mod l + n + p - 1) div p"

locale nvme_media =
  fixes K :: "('w, 'z) nvme_kernel_scheme"
    and T :: "'w nvme_transport_iden"
    and st :: ns_state
    and content :: "'w nvme_sys \<Rightarrow> u8 list"
    and ok :: "'w nvme_sys \<Rightarrow> bool"
    and left :: "'w nvme_sys \<Rightarrow> nat"
    and buf :: "u64 \<Rightarrow> bool"
  assumes sizes: "nss_block_size st = n_page_size K" "0 < unat (nss_lba_size st)"
      "unat (nss_lba_size st) dvd unat (n_page_size K)" "0 < unat (n_page_size K)" "unat (n_page_size K) < 2 ^ 31"
    and align: "n_align_down K x a = x - x mod a"
    and minimum: "k_min K = min"
    and queue: "ok s \<Longrightarrow> \<exists>ref. io_pair_ref (int (n_processor_id K (nv_env s)) + nss_qpair_base st) = Inr ref"
    and read_law: "ok s \<Longrightarrow> 0 < left s \<Longrightarrow> buf p \<Longrightarrow>
      io_pair_ref (int (n_processor_id K (nv_env s)) + nss_qpair_base st) = Inr ref \<Longrightarrow>
      page_command K st 2 p lba cmd \<Longrightarrow>
      lba * unat (nss_lba_size st) + unat (n_page_size K) \<le> length (content s) \<Longrightarrow>
      \<exists>e s'. nvme_run T (Some ref) cmd s = Some (Inr (0, e, s')) \<and> ok s' \<and> left s' = left s - 1 \<and> content s' = content s \<and>
        n_load K p (unat (n_page_size K)) (nv_env s') = bytes_at (lba * unat (nss_lba_size st)) (unat (n_page_size K)) (content s)"
    and write_law: "ok s \<Longrightarrow> 0 < left s \<Longrightarrow> buf p \<Longrightarrow>
      io_pair_ref (int (n_processor_id K (nv_env s)) + nss_qpair_base st) = Inr ref \<Longrightarrow>
      page_command K st 1 p lba cmd \<Longrightarrow>
      lba * unat (nss_lba_size st) + unat (n_page_size K) \<le> length (content s) \<Longrightarrow>
      \<exists>e s'. nvme_run T (Some ref) cmd s = Some (Inr (0, e, s')) \<and> ok s' \<and> left s' = left s - 1 \<and>
        content s' = blit (content s) (lba * unat (nss_lba_size st)) (n_load K p (unat (n_page_size K)) (nv_env s))"
    and pmm_law: "ok s \<Longrightarrow> \<exists>p w'. n_pmm_alloc K (n_page_size K) (nv_env s) = (p, w') \<and> p \<noteq> 0 \<and> buf p \<and>
      ok (s\<lparr>nv_env := w'\<rparr>) \<and> left (s\<lparr>nv_env := w'\<rparr>) = left s \<and> content (s\<lparr>nv_env := w'\<rparr>) = content s"
    and pmm_free_law: "ok s \<Longrightarrow> ok (s\<lparr>nv_env := n_pmm_free K p (nv_env s)\<rparr>) \<and>
      left (s\<lparr>nv_env := n_pmm_free K p (nv_env s)\<rparr>) = left s \<and> content (s\<lparr>nv_env := n_pmm_free K p (nv_env s)\<rparr>) = content s"
    and page_law: "ok s \<Longrightarrow> n_page_alloc K (nv_env s) = (m, w') \<Longrightarrow>
      ok (s\<lparr>nv_env := w'\<rparr>) \<and> left (s\<lparr>nv_env := w'\<rparr>) = left s \<and> content (s\<lparr>nv_env := w'\<rparr>) = content s \<and>
      n_load K p (unat (n_page_size K)) w' = n_load K p (unat (n_page_size K)) (nv_env s)"
    and page_free_law: "ok s \<Longrightarrow> ok (s\<lparr>nv_env := n_page_free K m (nv_env s)\<rparr>) \<and>
      left (s\<lparr>nv_env := n_page_free K m (nv_env s)\<rparr>) = left s \<and> content (s\<lparr>nv_env := n_page_free K m (nv_env s)\<rparr>) = content s \<and>
      n_load K p (unat (n_page_size K)) (n_page_free K m (nv_env s)) = n_load K p (unat (n_page_size K)) (nv_env s)"
    and store_law: "ok s \<Longrightarrow> buf p \<Longrightarrow> k + length bs \<le> unat (n_page_size K) \<Longrightarrow>
      ok (s\<lparr>nv_env := n_store K (p + word_of_nat k) bs (nv_env s)\<rparr>) \<and>
      left (s\<lparr>nv_env := n_store K (p + word_of_nat k) bs (nv_env s)\<rparr>) = left s \<and>
      content (s\<lparr>nv_env := n_store K (p + word_of_nat k) bs (nv_env s)\<rparr>) = content s \<and>
      n_load K p (unat (n_page_size K)) (n_store K (p + word_of_nat k) bs (nv_env s)) =
        blit (n_load K p (unat (n_page_size K)) (nv_env s)) k bs"
    and load_slice: "buf p \<Longrightarrow> k + n \<le> unat (n_page_size K) \<Longrightarrow>
      n_load K (p + word_of_nat k) n w = bytes_at k n (n_load K p (unat (n_page_size K)) w)"
    and load_length: "length (n_load K p n w) = n"
    and buf_nonzero: "buf p \<Longrightarrow> p \<noteq> 0"
begin

abbreviation "P \<equiv> unat (n_page_size K)"
abbreviation "L \<equiv> unat (nss_lba_size st)"

section \<open>One page\<close>

lemma page_ready:
  assumes "ok s" and "page = 0 \<or> buf page"
  obtains p w where "(if page = 0
        then (case n_pmm_alloc K (nss_block_size st) (nv_env s) of (p, w1) \<Rightarrow>
                if p = 0 then Inl Null_Deref else Inr (p, n_store K p (replicate P 0) w1))
        else Inr (page, nv_env s)) = Inr (p, w)"
    "buf p" "p \<noteq> 0" "ok (s\<lparr>nv_env := w\<rparr>)" "left (s\<lparr>nv_env := w\<rparr>) = left s" "content (s\<lparr>nv_env := w\<rparr>) = content s"
    "page \<noteq> 0 \<Longrightarrow> p = page \<and> w = nv_env s"
proof (cases "page = 0")
  case True
  obtain p w1 where p: "n_pmm_alloc K (n_page_size K) (nv_env s) = (p, w1)" "p \<noteq> 0" "buf p" "ok (s\<lparr>nv_env := w1\<rparr>)"
    "left (s\<lparr>nv_env := w1\<rparr>) = left s" "content (s\<lparr>nv_env := w1\<rparr>) = content s"
    using pmm_law [OF assms(1)] by blast
  from store_law [OF p(4,3), of 0 "replicate P 0"] show thesis
    using True p sizes(1) by (intro that [of p "n_store K p (replicate P 0) w1"]) simp_all
next
  case False
  then show thesis using assms buf_nonzero by (intro that [of page "nv_env s"]) simp_all
qed

lemma command_ok:
  assumes "b = (word_of_nat lba :: u64)" and "lba < 2 ^ 63"
  shows "page_command K st oc p lba (qs_zero\<lparr>qs_opcode := oc, qs_prp1 := n_to_phys K p, qs_mptr := x,
     qs_cdw12 := ucast (n_page_size K div nss_lba_size st - 1), qs_cdw10 := ucast b,
     qs_cdw11 := ucast (drop_bit 32 b), qs_nsid := word_of_int (nss_namespace st)\<rparr>)"
proof -
  have b: "unat (b :: u64) = lba" using assms by (simp add: unat_of_nat)
  have lo: "unat (ucast b :: u32) = lba mod 2 ^ 32" by (simp add: unsigned_ucast_eq b take_bit_nat_def)
  have "unat (drop_bit 32 b) = lba div 2 ^ 32" by (simp add: drop_bit_eq_div unat_div b)
  moreover have "lba div 2 ^ 32 < 2 ^ 32" using assms(2) by (simp add: less_mult_imp_div_less)
  ultimately have hi: "unat (ucast (drop_bit 32 b) :: u32) = lba div 2 ^ 32"
    by (simp add: unsigned_ucast_eq take_bit_nat_eq_self)
  have q: "unat (n_page_size K div nss_lba_size st) = P div L" by (simp add: unat_div)
  have "0 < P div L" using sizes by (meson div_greater_zero_iff dvd_imp_le)
  then have "unat (n_page_size K div nss_lba_size st - 1) = P div L - 1"
    using q by (simp add: unat_minus_one unat_gt_0 [symmetric] del: unat_gt_0)
  moreover have "P div L - 1 < 2 ^ 32"
  proof -
    have "P div L - 1 \<le> P" by (rule order_trans [OF diff_le_self div_le_dividend])
    also have "\<dots> < 2 ^ 32" using sizes(5) by simp
    finally show ?thesis .
  qed
  ultimately have n: "unat (ucast (n_page_size K div nss_lba_size st - 1) :: u32) + 1 = P div L"
    using \<open>0 < P div L\<close> by (simp add: unsigned_ucast_eq take_bit_nat_eq_self)
  have "lba mod 2 ^ 32 + 2 ^ 32 * (lba div 2 ^ 32) = lba" by simp
  then show ?thesis using lo hi n by (simp add: page_command_def qs_zero_def)
qed

lemma rw_page_read:
  assumes "ok s" "0 < left s" "page = 0 \<or> buf page" "b = word_of_nat lba" "lba < 2 ^ 63" "lba * L + P \<le> length (content s)"
  obtains p s' where "namespace_rw_page K T False st b page s = Some (Inr (0, p, s'))" "buf p" "ok s'" "left s' = left s - 1"
    "content s' = content s" "n_load K p P (nv_env s') = bytes_at (lba * L) P (content s)"
proof -
  obtain p w where p: "(if page = 0
        then (case n_pmm_alloc K (nss_block_size st) (nv_env s) of (p, w1) \<Rightarrow>
                if p = 0 then Inl Null_Deref else Inr (p, n_store K p (replicate P 0) w1))
        else Inr (page, nv_env s)) = Inr (p, w)"
    "buf p" "ok (s\<lparr>nv_env := w\<rparr>)" "left (s\<lparr>nv_env := w\<rparr>) = left s" "content (s\<lparr>nv_env := w\<rparr>) = content s"
    using page_ready [OF assms(1,3)] by blast
  obtain meta w2 where m: "n_page_alloc K w = (meta, w2)" by fastforce
  have g: "ok (s\<lparr>nv_env := w2\<rparr>)" "left (s\<lparr>nv_env := w2\<rparr>) = left s" "content (s\<lparr>nv_env := w2\<rparr>) = content s"
    using page_law [OF p(3), of meta w2] m p(4,5) by simp_all
  obtain ref where ref: "io_pair_ref (int (n_processor_id K w2) + nss_qpair_base st) = Inr ref"
    using queue [OF g(1)] by auto
  have nz: "nss_lba_size st \<noteq> 0" using sizes(2) by auto
  let ?cmd = "qs_zero\<lparr>qs_opcode := 2, qs_prp1 := n_to_phys K p, qs_mptr := n_to_phys K meta,
     qs_cdw12 := ucast (n_page_size K div nss_lba_size st - 1), qs_cdw10 := ucast b,
     qs_cdw11 := ucast (drop_bit 32 b), qs_nsid := word_of_int (nss_namespace st)\<rparr>"
  obtain e s1 where run: "nvme_run T (Some ref) ?cmd (s\<lparr>nv_env := w2\<rparr>) = Some (Inr (0, e, s1))" "ok s1"
    "left s1 = left s - 1" "content s1 = content s" "n_load K p P (nv_env s1) = bytes_at (lba * L) P (content s)"
    using read_law [OF g(1) _ p(2) _ command_ok [OF assms(4,5), where x = "n_to_phys K meta"], of ref] ref assms(2,6) g(2,3) by auto
  show thesis
    by (rule that [of p "s1\<lparr>nv_env := n_page_free K meta (nv_env s1)\<rparr>"])
      (use p m nz ref run page_free_law [OF run(2), of meta p] in \<open>simp_all add: namespace_rw_page_def\<close>)
qed

lemma rw_page_write:
  assumes "ok s" "0 < left s" "buf page" "b = word_of_nat lba" "lba < 2 ^ 63" "lba * L + P \<le> length (content s)"
  obtains s' where "namespace_rw_page K T True st b page s = Some (Inr (0, page, s'))" "ok s'" "left s' = left s - 1"
    "content s' = blit (content s) (lba * L) (n_load K page P (nv_env s))"
proof -
  have pz: "page \<noteq> 0" using assms(3) buf_nonzero by simp
  obtain meta w2 where m: "n_page_alloc K (nv_env s) = (meta, w2)" by fastforce
  have g: "ok (s\<lparr>nv_env := w2\<rparr>)" "left (s\<lparr>nv_env := w2\<rparr>) = left s" "content (s\<lparr>nv_env := w2\<rparr>) = content s"
    "n_load K page P w2 = n_load K page P (nv_env s)"
    using page_law [OF assms(1) m, of page] by simp_all
  obtain ref where ref: "io_pair_ref (int (n_processor_id K w2) + nss_qpair_base st) = Inr ref"
    using queue [OF g(1)] by auto
  have nz: "nss_lba_size st \<noteq> 0" using sizes(2) by auto
  let ?cmd = "qs_zero\<lparr>qs_opcode := 1, qs_prp1 := n_to_phys K page, qs_mptr := n_to_phys K meta,
     qs_cdw12 := ucast (n_page_size K div nss_lba_size st - 1), qs_cdw10 := ucast b,
     qs_cdw11 := ucast (drop_bit 32 b), qs_nsid := word_of_int (nss_namespace st)\<rparr>"
  obtain e s1 where run: "nvme_run T (Some ref) ?cmd (s\<lparr>nv_env := w2\<rparr>) = Some (Inr (0, e, s1))" "ok s1"
    "left s1 = left s - 1" "content s1 = blit (content s) (lba * L) (n_load K page P (nv_env s))"
    using write_law [OF g(1) _ assms(3) _ command_ok [OF assms(4,5), where x = "n_to_phys K meta"], of ref] ref assms(2,6) g by auto
  show thesis
    by (rule that [of "s1\<lparr>nv_env := n_page_free K meta (nv_env s1)\<rparr>"])
      (use pz m nz ref run page_free_law [OF run(2), of meta page] in \<open>simp_all add: namespace_rw_page_def\<close>)
qed

section \<open>Pieces of a transfer\<close>

abbreviation "pages \<equiv> page_count P L"

lemma L_le_P: "L \<le> P"
  using sizes(3,4) by (simp add: dvd_imp_le)

lemma pages_pos: "0 < n \<Longrightarrow> 1 \<le> pages x n"
  using sizes(4) by (simp add: page_count_def Suc_le_eq div_greater_zero_iff)

lemma pages_next:
  assumes "P - x mod L < n"
  shows "pages (x - x mod L + P) (n - (P - x mod L)) + 1 = pages x n" and "(x - x mod L + P) mod L = 0"
proof -
  have lt: "x mod L < L" using sizes(2) by simp
  show z: "(x - x mod L + P) mod L = 0"
    using sizes(3) by (metis add_0 dvd_imp_mod_0 minus_mod_eq_div_mult mod_add_left_eq mod_mult_self2_is_0)
  have e: "x mod L + n + P - 1 = (n - (P - x mod L) + P - 1) + P" using assms lt L_le_P by simp
  have "pages x n = (n - (P - x mod L) + P - 1) div P + 1"
    unfolding page_count_def e using sizes(4) by (intro div_add_self2) simp
  moreover have "pages (x - x mod L + P) (n - (P - x mod L)) = (n - (P - x mod L) + P - 1) div P"
    unfolding page_count_def z by simp
  ultimately show "pages (x - x mod L + P) (n - (P - x mod L)) + 1 = pages x n" by (simp only:)
qed

lemma piece_ok:
  assumes t: "unat tr < unat whole" and range: "unat off + unat whole < 2 ^ 63"
    and aligned: "tr = 0 \<or> (unat off + unat tr) mod L = 0" and small: "(unat off + unat tr) div L < 2 ^ 31"
  defines "x \<equiv> unat off + unat tr"
  shows "piece K st off whole tr =
    Inr (word_of_nat (x div L), word_of_nat (x mod L), word_of_nat (min (P - x mod L) (unat whole - unat tr)))"
proof -
  have nz: "nss_lba_size st \<noteq> 0" using sizes(2) by auto
  have x: "unat (off + tr) = x" using t range by (simp add: x_def unat_word_ariths)
  have lt: "x mod L < L" using sizes(2) by simp
  define start where "start = n_align_down K (off + tr) (nss_lba_size st)"
  have start: "unat start = x - x mod L"
    by (simp add: start_def align unat_sub_if_size unat_mod x)
  have po: "unat (tr + off - start) = x mod L"
    using x start by (simp add: unat_sub_if_size add.commute)
  have lba: "unat (start div nss_lba_size st) = x div L"
    by (simp add: unat_div start minus_mod_eq_div_mult)
  then have lba': "start div nss_lba_size st = word_of_nat (x div L)"
    using small by (simp add: word_unat_eq_iff unat_of_nat x_def)
  have ext: "scast (ucast (word_of_nat (x div L) :: u64) :: u32) = (word_of_nat (x div L) :: u64)"
    by (rule int_extend) (use small in \<open>simp add: x_def unat_of_nat\<close>)
  have "unat (if tr + off - start > 0 then min (nss_block_size st - (off - start)) whole
              else min (nss_block_size st) (whole - tr)) = min (P - x mod L) (unat whole - unat tr)"
  proof (cases "x mod L = 0")
    case True
    then have "tr + off - start = 0" using po by (simp add: word_unat_eq_iff)
    moreover have "unat (whole - tr) = unat whole - unat tr" using t by (simp add: unat_sub_if_size)
    ultimately show ?thesis using True sizes(1) by (simp add: min_def word_le_nat_alt)
  next
    case False
    then have t0: "tr = 0" using aligned by (auto simp: x_def)
    have "unat (off - start) = x mod L" using start t0 by (simp add: unat_sub_if_size x_def)
    then have "unat (n_page_size K - (off - start)) = P - x mod L"
      using lt L_le_P by (simp add: unat_sub_if_size)
    moreover have "tr + off - start > 0" using po False by (simp add: word_gt_0 word_unat_eq_iff)
    ultimately show ?thesis using t0 sizes(1) by (simp add: min_def word_le_nat_alt)
  qed
  moreover have "unat whole < 2 ^ 64" using unsigned_less [of whole, where 'a = nat] by simp
  ultimately have len: "(if tr + off - start > 0 then min (nss_block_size st - (off - start)) whole
              else min (nss_block_size st) (whole - tr)) = word_of_nat (min (P - x mod L) (unat whole - unat tr))"
    by (simp add: word_unat_eq_iff unat_of_nat)
  have po': "tr + off - start = word_of_nat (x mod L)"
    using po unsigned_less [of "tr + off - start", where 'a = nat] by (simp add: word_unat_eq_iff unat_of_nat)
  show ?thesis
    unfolding piece_def Let_def start_def [symmetric] minimum
    unfolding len unfolding po' lba' ext using nz by simp
qed

lemma piece_inside:
  assumes n: "0 < n" and inside: "x - x mod L + pages x n * P \<le> m" and len: "m \<le> 2 ^ 31 * L"
  shows "x div L * L + P \<le> m" and "x div L < 2 ^ 31"
proof -
  have p: "P \<le> pages x n * P" using pages_pos [OF n, of x] by (cases "pages x n") simp_all
  have e: "x - x mod L = x div L * L" by (rule minus_mod_eq_div_mult)
  show i: "x div L * L + P \<le> m" using inside p unfolding e by linarith
  have "x div L * L < 2 ^ 31 * L" using i len sizes(4) by linarith
  then show "x div L < 2 ^ 31" using sizes(2) by simp
qed

lemma rest_inside:
  assumes "P - x mod L < n" and "x - x mod L + pages x n * P \<le> m"
  shows "(x - x mod L + P) - (x - x mod L + P) mod L + pages (x - x mod L + P) (n - (P - x mod L)) * P \<le> m"
proof -
  have "pages x n * P = pages (x - x mod L + P) (n - (P - x mod L)) * P + P"
    unfolding pages_next(1) [OF assms(1), symmetric] by (simp only: distrib_right mult_1)
  then show ?thesis using assms(2) pages_next(2) [OF assms(1)] by linarith
qed

text \<open>What holds of the piece that follows \<open>tr\<close> bytes.\<close>

lemma next_piece:
  assumes range: "unat off + unat whole < 2 ^ 63" and len: "m \<le> 2 ^ 31 * L"
    and t: "tr < whole" and aligned: "tr = 0 \<or> (unat off + unat tr) mod L = 0"
    and fit: "unat off + unat tr - (unat off + unat tr) mod L + pages (unat off + unat tr) (unat whole - unat tr) * P \<le> m"
  defines "x \<equiv> unat off + unat tr" and "n \<equiv> unat whole - unat tr"
  obtains c where "piece K st off whole tr = Inr (word_of_nat (x div L), word_of_nat (x mod L), word_of_nat c)"
    "0 < c" "x mod L + c \<le> P" "unat tr + c \<le> unat whole" "x div L * L + P \<le> m" "x div L < 2 ^ 63"
    "unat (word_of_nat c :: u64) = c" "unat (word_of_nat (x mod L) :: u64) = x mod L"
    "unat (tr + word_of_nat c) = unat tr + c" "1 \<le> pages x n" "c = P - x mod L \<or> unat tr + c = unat whole"
    "c < n \<longrightarrow> (x + c) mod L = 0 \<and> x + c - (x + c) mod L + pages (x + c) (n - c) * P \<le> m \<and> pages (x + c) (n - c) + 1 = pages x n"
proof -
  have t': "unat tr < unat whole" using t by (simp add: word_less_nat_alt)
  then have n: "0 < n" by (simp add: n_def)
  define c where "c = min (P - x mod L) n"
  note ins = piece_inside [OF n fit [folded x_def n_def] len]
  note pc = piece_ok [OF t' range aligned ins(2) [unfolded x_def], folded x_def n_def, folded c_def]
  have lt: "x mod L < L" using sizes(2) by simp
  have c: "0 < c" "x mod L + c \<le> P" "c \<le> n" using n lt L_le_P by (auto simp: c_def)
  have big: "x div L < 2 ^ 63" "c < 2 ^ 64" "x mod L < 2 ^ 64"
    using ins(2) sizes(5) c(2) by auto
  have uc: "unat (word_of_nat c :: u64) = c" and uo: "unat (word_of_nat (x mod L) :: u64) = x mod L"
    using big by (simp_all add: unat_of_nat)
  have le: "unat tr + c \<le> unat whole" using c(3) t' by (simp add: n_def)
  have utr: "unat (tr + word_of_nat c) = unat tr + c"
    using uc le range by (simp add: unat_word_ariths)
  have last: "c = P - x mod L \<or> unat tr + c = unat whole" using t' by (auto simp: c_def n_def)
  have more: "(x + c) mod L = 0 \<and> x + c - (x + c) mod L + pages (x + c) (n - c) * P \<le> m \<and> pages (x + c) (n - c) + 1 = pages x n"
    if "c < n"
  proof -
    have c': "c = P - x mod L" and more: "P - x mod L < n" using that by (simp_all add: c_def)
    have x': "x + c = x - x mod L + P" unfolding c' using lt L_le_P mod_less_eq_dividend [of x L] by linarith
    show ?thesis
      unfolding x' unfolding c' using pages_next [OF more] rest_inside [OF more fit [folded x_def n_def]] by blast
  qed
  show thesis
    by (rule that [OF pc c(1,2) le ins(1) big(1) uc uo utr pages_pos [OF n, of x] last])
      (use more in blast)
qed

section \<open>Reading\<close>

lemma read_loop_ok:
  assumes range: "unat off + unat whole < 2 ^ 63" and len: "length D \<le> 2 ^ 31 * L" and room: "unat whole \<le> length buf0"
    and inside: "unat off + unat whole \<le> length D"
    and "ok s" "content s = D" "page = 0 \<or> buf page" "unat tr \<le> unat whole" "tr = 0 \<or> (unat off + unat tr) mod L = 0"
    and "unat off + unat tr - (unat off + unat tr) mod L + pages (unat off + unat tr) (unat whole - unat tr) * P \<le> length D"
    and "pages (unat off + unat tr) (unat whole - unat tr) \<le> left s"
    and "bf = blit buf0 0 (bytes_at (unat off) (unat tr) D)"
  shows "\<exists>page' s'. read_loop K T st off whole tr page bf s =
      Some (Inr (whole, page', blit buf0 0 (bytes_at (unat off) (unat whole) D), s')) \<and> ok s' \<and> content s' = D"
  using assms(5-)
proof (induction "unat whole - unat tr" arbitrary: tr page bf s rule: less_induct)
  case less
  show ?case
  proof (cases "tr < whole")
    case False
    then have "tr = whole" using less.prems(4) by (simp add: word_less_nat_alt word_unat_eq_iff)
    then show ?thesis using less.prems by (subst read_loop.simps) simp
  next
    case True
    let ?x = "unat off + unat tr" and ?n = "unat whole - unat tr"
    obtain c where pc: "piece K st off whole tr = Inr (word_of_nat (?x div L), word_of_nat (?x mod L), word_of_nat c)"
      and c: "0 < c" "?x mod L + c \<le> P" "unat tr + c \<le> unat whole" and ins: "?x div L * L + P \<le> length D"
      and big: "?x div L < 2 ^ 63" and uc: "unat (word_of_nat c :: u64) = c"
      and uo: "unat (word_of_nat (?x mod L) :: u64) = ?x mod L" and utr: "unat (tr + word_of_nat c) = unat tr + c"
      and pos: "1 \<le> pages ?x ?n" and "c = P - ?x mod L \<or> unat tr + c = unat whole"
      and more: "c < ?n \<longrightarrow> (?x + c) mod L = 0 \<and> ?x + c - (?x + c) mod L + pages (?x + c) (?n - c) * P \<le> length D \<and>
        pages (?x + c) (?n - c) + 1 = pages ?x ?n"
      by (rule next_piece [OF range len True less.prems(5,6)])
    have left: "0 < left s" using pos less.prems(7) by linarith
    obtain p s1 where rw: "namespace_rw_page K T False st (word_of_nat (?x div L)) page s = Some (Inr (0, p, s1))"
      "buf p" "ok s1" "left s1 = left s - 1" "content s1 = D" "n_load K p P (nv_env s1) = bytes_at (?x div L * L) P D"
      by (rule rw_page_read [OF less.prems(1) left less.prems(3) refl big, unfolded less.prems(2), OF ins])
    have slice: "n_load K (p + word_of_nat (?x mod L)) c (nv_env s1) = bytes_at ?x c D"
      unfolding load_slice [OF rw(2) c(2)] rw(6) using c(2)
      by (subst bytes_at_bytes_at) (simp_all only: div_mult_mod_eq)
    have pz: "p \<noteq> 0" using rw(2) buf_nonzero by simp
    have "(word_of_nat c :: u64) \<noteq> 0" using uc c(1) by (metis less_irrefl unat_0)
    then have get: "page_get K st p (word_of_nat (?x mod L)) (word_of_nat c) (nv_env s1) = Inr (bytes_at ?x c D)"
      unfolding page_get_def uc uo slice using pz c(2) sizes(1) by simp
    have lenb: "length bf = length buf0" using less.prems(8) inside less.prems(4) room by simp
    have lbs: "length (bytes_at ?x c D) = c" using inside c(3) by simp
    have fits: "unat tr + c \<le> length buf0" "unat off + unat tr + c \<le> length D" using c(3) room inside by linarith+
    have put: "mem_write bf (unat tr) (bytes_at ?x c D) = Inr (blit buf0 0 (bytes_at (unat off) (unat tr + c) D))"
      using mem_write_ok [of "unat tr" "bytes_at ?x c D" bf, unfolded lenb lbs, OF fits(1)]
      unfolding less.prems(8) blit_extend [OF fits] by simp
    let ?tr = "tr + word_of_nat c"
    have step: "read_loop K T st off whole tr page bf s =
        read_loop K T st off whole ?tr p (blit buf0 0 (bytes_at (unat off) (unat ?tr) D)) s1"
      unfolding utr using True pc rw(1) get put by (subst read_loop.simps) simp
    show ?thesis
    proof (cases "c < ?n")
      case True
      have a: "unat off + unat ?tr = ?x + c" "unat whole - unat ?tr = ?n - c" unfolding utr by simp_all
      note m = more [THEN mp, OF True, folded a]
      have r: "unat whole - unat ?tr < ?n" "buf p \<Longrightarrow> p = 0 \<or> buf p" "unat ?tr \<le> unat whole"
        "?tr = 0 \<or> (unat off + unat ?tr) mod L = 0"
        "pages (unat off + unat ?tr) (unat whole - unat ?tr) \<le> left s1"
        using c(1,3) True m less.prems(7) rw(4) unfolding utr by linarith+
      show ?thesis
        unfolding step by (rule less.hyps [OF r(1) rw(3,5) r(2) [OF rw(2)] r(3,4) _ r(5) refl]) (use m in blast)
    next
      case False
      then have "unat ?tr = unat whole" unfolding utr using c(3) by simp
      then have "?tr = whole" by (simp only: word_unat_eq_iff)
      then show ?thesis unfolding step using rw(3,5) by (subst read_loop.simps) simp
    qed
  qed
qed

lemma read_ok:
  assumes "ok s" and "content s = D" and range: "unat off + unat (sz * cnt) < 2 ^ 63" "unat (sz * cnt) \<le> length buf0"
    and len: "length D \<le> 2 ^ 31 * L" "unat off + unat (sz * cnt) \<le> length D"
    and fit: "unat off - unat off mod L + pages (unat off) (unat (sz * cnt)) * P \<le> length D"
    and "pages (unat off) (unat (sz * cnt)) \<le> left s"
  obtains s' where "read_nvme_namespace K T buf0 sz cnt off (Some st) s =
      Some (Inr (sz * cnt, blit buf0 0 (bytes_at (unat off) (unat (sz * cnt)) D), s'))" "ok s'" "content s' = D"
proof -
  obtain page' s' where l: "read_loop K T st off (sz * cnt) 0 0 buf0 s =
      Some (Inr (sz * cnt, page', blit buf0 0 (bytes_at (unat off) (unat (sz * cnt)) D), s'))" "ok s'" "content s' = D"
    using read_loop_ok [OF range(1) len(1) range(2) len(2) assms(1,2), of 0 0 buf0] fit assms(8) by auto
  from pmm_free_law [OF l(2), of page'] show thesis
    using l by (intro that [of "s'\<lparr>nv_env := n_pmm_free K page' (nv_env s')\<rparr>"]) (simp_all add: read_nvme_namespace_def)
qed

section \<open>Writing\<close>

lemma blit_page:
  assumes "k + n \<le> length D" and "i + length bs \<le> n"
  shows "blit D k (blit (bytes_at k n D) i bs) = blit D (k + i) bs"
  using assms by (intro nth_equalityI) (auto simp: nth_blit nth_bytes_at)

lemma blit_join:
  assumes "k + t + n \<le> length D" and "t + n \<le> length src"
  shows "blit (blit D k (bytes_at 0 t src)) (k + t) (bytes_at t n src) = blit D k (bytes_at 0 (t + n) src)"
  using assms by (intro nth_equalityI) (auto simp: nth_blit nth_bytes_at)

lemma write_piece:
  assumes "ok s" "content s = D" "page = 0 \<or> buf page" and need: "c < P \<or> page \<noteq> 0" and left: "2 \<le> left s"
    and c: "0 < c" "x mod L + c \<le> P" "x div L * L + P \<le> length D" and big: "x div L < 2 ^ 63"
    and uc: "unat (word_of_nat c :: u64) = c" and uo: "unat (word_of_nat (x mod L) :: u64) = x mod L"
    and bs: "length bs = c"
  obtains p s1 w2 s2 where
    "(if word_of_nat c < n_page_size K then namespace_rw_page K T False st (word_of_nat (x div L)) page s
      else Some (Inr (0, page, s))) = Some (Inr (0, p, s1))"
    "page_put K st p (word_of_nat (x mod L)) bs (nv_env s1) = Inr w2"
    "namespace_rw_page K T True st (word_of_nat (x div L)) p (s1\<lparr>nv_env := w2\<rparr>) = Some (Inr (0, p, s2))"
    "buf p" "ok s2" "left s \<le> left s2 + 2" "content s2 = blit D x bs"
proof -
  have small: "word_of_nat c < n_page_size K \<longleftrightarrow> c < P" by (simp add: word_less_nat_alt uc)
  obtain p s1 where r: "(if word_of_nat c < n_page_size K then namespace_rw_page K T False st (word_of_nat (x div L)) page s
      else Some (Inr (0, page, s))) = Some (Inr (0, p, s1))" "buf p" "ok s1" "1 \<le> left s1" "left s \<le> left s1 + 1" "content s1 = D"
    "c < P \<Longrightarrow> n_load K p P (nv_env s1) = bytes_at (x div L * L) P D"
  proof (cases "c < P")
    case True
    have "0 < left s" using left by simp
    then obtain p s1 where "namespace_rw_page K T False st (word_of_nat (x div L)) page s = Some (Inr (0, p, s1))"
      "buf p" "ok s1" "left s1 = left s - 1" "content s1 = D" "n_load K p P (nv_env s1) = bytes_at (x div L * L) P D"
      by (rule rw_page_read [OF assms(1) _ assms(3) refl big, unfolded assms(2), OF _ c(3)])
    then show thesis using True left by (intro that [of p s1]) (simp_all add: small)
  next
    case False
    then show thesis using assms(1-3) need left by (intro that [of page s]) (auto simp: small)
  qed
  have bs0: "bs \<noteq> []" using bs c(1) by auto
  have pz: "p \<noteq> 0" using r(2) buf_nonzero by simp
  define w2 where "w2 = n_store K (p + word_of_nat (x mod L)) bs (nv_env s1)"
  have put: "page_put K st p (word_of_nat (x mod L)) bs (nv_env s1) = Inr w2"
    unfolding page_put_def uo bs w2_def using bs0 pz c(2) sizes(1) by simp
  have fit: "x mod L + length bs \<le> P" using bs c(2) by simp
  note g = store_law [OF r(3,2) fit, folded w2_def]
  have left2: "0 < left (s1\<lparr>nv_env := w2\<rparr>)" using g r(4) by simp
  have con: "content (s1\<lparr>nv_env := w2\<rparr>) = D" using g r(6) by simp
  have ok2: "ok (s1\<lparr>nv_env := w2\<rparr>)" using g by blast
  obtain s2 where w: "namespace_rw_page K T True st (word_of_nat (x div L)) p (s1\<lparr>nv_env := w2\<rparr>) = Some (Inr (0, p, s2))"
    "ok s2" "left s2 = left (s1\<lparr>nv_env := w2\<rparr>) - 1" "content s2 = blit D (x div L * L) (n_load K p P (nv_env (s1\<lparr>nv_env := w2\<rparr>)))"
    by (rule rw_page_write [OF ok2 left2 r(2) refl big, unfolded con, OF c(3)])
  have page: "n_load K p P (nv_env (s1\<lparr>nv_env := w2\<rparr>)) = blit (n_load K p P (nv_env s1)) (x mod L) bs" using g by simp
  have "content s2 = blit D x bs"
  proof (cases "c < P")
    case True
    then show ?thesis
      unfolding w(4) page r(7) [OF True] using blit_page [OF c(3) fit] by (simp only: div_mult_mod_eq)
  next
    case False
    then have z: "x mod L = 0" and l: "length bs = P" using c(2) bs by simp_all
    have "blit (n_load K p P (nv_env s1)) 0 bs = bs" using l load_length [of p P "nv_env s1"] by (simp add: blit_def)
    moreover have "x div L * L = x" using z by (metis add.right_neutral div_mult_mod_eq)
    ultimately show ?thesis unfolding w(4) page z by simp
  qed
  moreover have "left s \<le> left s2 + 2" using w(3) g r(4,5) by simp
  ultimately show thesis by (rule that [OF r(1) put w(1) r(2) w(2), rotated])
qed

text \<open>
  A transfer that starts with a whole page has no page buffer yet; the loop copies to \<open>NULL\<close> then, so the
  first piece has to be shorter than a page.
\<close>

lemma write_loop_ok:
  assumes range: "unat off + unat whole < 2 ^ 63" and len: "length D \<le> 2 ^ 31 * L" and src: "unat whole \<le> length src"
    and inside: "unat off + unat whole \<le> length D" and part: "unat off mod L \<noteq> 0 \<or> unat whole < P"
    and "ok s" "content s = blit D (unat off) (bytes_at 0 (unat tr) src)" "if tr = 0 then page = 0 else buf page"
    and "unat tr \<le> unat whole" "tr = 0 \<or> (unat off + unat tr) mod L = 0"
    and "unat off + unat tr - (unat off + unat tr) mod L + pages (unat off + unat tr) (unat whole - unat tr) * P \<le> length D"
    and "2 * pages (unat off + unat tr) (unat whole - unat tr) \<le> left s"
  shows "\<exists>page' s'. write_loop K T st off whole tr page src s = Some (Inr (whole, page', s')) \<and> ok s' \<and>
    content s' = blit D (unat off) (bytes_at 0 (unat whole) src) \<and>
    left s \<le> left s' + 2 * pages (unat off + unat tr) (unat whole - unat tr)"
  using assms(6-)
proof (induction "unat whole - unat tr" arbitrary: tr page s rule: less_induct)
  case less
  show ?case
  proof (cases "tr < whole")
    case False
    then have "tr = whole" using less.prems(4) by (simp add: word_less_nat_alt word_unat_eq_iff)
    then show ?thesis using less.prems by (subst write_loop.simps) simp
  next
    case True
    let ?x = "unat off + unat tr" and ?n = "unat whole - unat tr"
    let ?D = "blit D (unat off) (bytes_at 0 (unat tr) src)"
    have lD: "length ?D = length D" using less.prems(4) src inside by simp
    obtain c where pc: "piece K st off whole tr = Inr (word_of_nat (?x div L), word_of_nat (?x mod L), word_of_nat c)"
      and c: "0 < c" "?x mod L + c \<le> P" "unat tr + c \<le> unat whole" and ins: "?x div L * L + P \<le> length D"
      and big: "?x div L < 2 ^ 63" and uc: "unat (word_of_nat c :: u64) = c"
      and uo: "unat (word_of_nat (?x mod L) :: u64) = ?x mod L" and utr: "unat (tr + word_of_nat c) = unat tr + c"
      and pos: "1 \<le> pages ?x ?n" and short: "c = P - ?x mod L \<or> unat tr + c = unat whole"
      and more: "c < ?n \<longrightarrow> (?x + c) mod L = 0 \<and> ?x + c - (?x + c) mod L + pages (?x + c) (?n - c) * P \<le> length D \<and>
        pages (?x + c) (?n - c) + 1 = pages ?x ?n"
      by (rule next_piece [OF range len True less.prems(5,6)])
    have two: "2 \<le> left s" using pos less.prems(7) by linarith
    have page: "page = 0 \<or> buf page" using less.prems(3) by (auto split: if_splits)
    have need: "c < P \<or> page \<noteq> 0"
    proof (cases "tr = 0")
      case True
      then have "c < P" using part c by (cases "unat off mod L = 0") auto
      then show ?thesis by blast
    next
      case False
      then show ?thesis using less.prems(3) buf_nonzero by auto
    qed
    have lbs: "length (bytes_at (unat tr) c src) = c" using c(3) src by simp
    obtain p s1 w2 s2 where w:
      "(if word_of_nat c < n_page_size K then namespace_rw_page K T False st (word_of_nat (?x div L)) page s
        else Some (Inr (0, page, s))) = Some (Inr (0, p, s1))"
      "page_put K st p (word_of_nat (?x mod L)) (bytes_at (unat tr) c src) (nv_env s1) = Inr w2"
      "namespace_rw_page K T True st (word_of_nat (?x div L)) p (s1\<lparr>nv_env := w2\<rparr>) = Some (Inr (0, p, s2))"
      "buf p" "ok s2" "left s \<le> left s2 + 2" "content s2 = blit ?D ?x (bytes_at (unat tr) c src)"
      by (rule write_piece [OF less.prems(1,2) page need two c(1,2) _ big uc uo lbs, unfolded lD, OF ins])
    let ?tr = "tr + word_of_nat c"
    have "mem_read src (unat tr) c = Inr (bytes_at (unat tr) c src)" using c(3) src by (intro mem_read_ok) simp
    then have step: "write_loop K T st off whole tr page src s = write_loop K T st off whole ?tr p src s2"
      using True pc w(1-3) uc by (subst write_loop.simps) simp
    have "unat off + unat tr + c \<le> length D" "unat tr + c \<le> length src" using c(3) inside src by linarith+
    then have con: "content s2 = blit D (unat off) (bytes_at 0 (unat ?tr) src)"
      unfolding w(7) utr by (rule blit_join)
    have nz: "?tr \<noteq> 0" using utr c(1) by (metis add_is_0 less_irrefl unat_0)
    show ?thesis
    proof (cases "c < ?n")
      case True
      have a: "unat off + unat ?tr = ?x + c" "unat whole - unat ?tr = ?n - c" unfolding utr by simp_all
      note m = more [THEN mp, OF True, folded a]
      have r: "unat whole - unat ?tr < ?n" "unat ?tr \<le> unat whole" "?tr = 0 \<or> (unat off + unat ?tr) mod L = 0"
        "2 * pages (unat off + unat ?tr) (unat whole - unat ?tr) \<le> left s2"
        using c(1,3) True m less.prems(7) w(6) unfolding utr by linarith+
      have "if ?tr = 0 then p = 0 else buf p" using nz w(4) by simp
      then obtain page' s' where "write_loop K T st off whole ?tr p src s2 = Some (Inr (whole, page', s'))" "ok s'"
        "content s' = blit D (unat off) (bytes_at 0 (unat whole) src)"
        "left s2 \<le> left s' + 2 * pages (unat off + unat ?tr) (unat whole - unat ?tr)"
        using less.hyps [OF r(1) w(5) con _ r(2,3) _ r(4)] m by blast
      moreover from this(4) have "left s \<le> left s' + 2 * pages ?x ?n" using m w(6) by linarith
      ultimately show ?thesis unfolding step by blast
    next
      case False
      then have "unat ?tr = unat whole" unfolding utr using c(3) by simp
      then have "?tr = whole" by (simp only: word_unat_eq_iff)
      moreover have "left s \<le> left s2 + 2 * pages ?x ?n" using pos w(6) by linarith
      ultimately show ?thesis unfolding step using w(5) con by (subst write_loop.simps) simp
    qed
  qed
qed

lemma write_ok:
  assumes "ok s" and "content s = D" and range: "unat off + unat (sz * cnt) < 2 ^ 63" "unat (sz * cnt) \<le> length src"
    and len: "length D \<le> 2 ^ 31 * L" "unat off + unat (sz * cnt) \<le> length D"
    and part: "unat off mod L \<noteq> 0 \<or> unat (sz * cnt) < P"
    and fit: "unat off - unat off mod L + pages (unat off) (unat (sz * cnt)) * P \<le> length D"
    and "2 * pages (unat off) (unat (sz * cnt)) \<le> left s"
  obtains s' where "write_nvme_namespace K T src sz cnt off (Some st) s = Some (Inr (sz * cnt, s'))" "ok s'"
    "content s' = blit D (unat off) (bytes_at 0 (unat (sz * cnt)) src)"
    "left s \<le> left s' + 2 * pages (unat off) (unat (sz * cnt))"
proof -
  obtain page' s' where l: "write_loop K T st off (sz * cnt) 0 0 src s = Some (Inr (sz * cnt, page', s'))" "ok s'"
    "content s' = blit D (unat off) (bytes_at 0 (unat (sz * cnt)) src)"
    "left s \<le> left s' + 2 * pages (unat off) (unat (sz * cnt))"
    using write_loop_ok [OF range(1) len(1) range(2) len(2) part assms(1), of 0 0] assms(2) fit assms(9) by auto
  from pmm_free_law [OF l(2), of page'] show thesis
    using l by (intro that [of "s'\<lparr>nv_env := n_pmm_free K page' (nv_env s')\<rparr>"]) (simp_all add: write_nvme_namespace_def)
qed

end

end
