(* ===== verification/Nvme_Queue.thy ===== *)
theory Nvme_Queue
  imports Nvme_Core
begin

text \<open>
  Command identifiers, the phase bit, and the protocol of one queue pair: a step relation of the driver,
  which submits one command at a time and polls for it, and the controller, which posts completions. The
  driver's steps use the tests and updates of \<open>nvme_pci_poll_completion\<close>.
\<close>

section \<open>Identifiers\<close>

lemma digits_64: "(a :: nat) + 64 * b = c + 64 * d \<Longrightarrow> a < 64 \<Longrightarrow> c < 64 \<Longrightarrow> a = c \<and> b = d"
  by (cases b d rule: linorder_cases) (auto dest!: less_imp_Suc_add)

lemma low_byte: "(p :: 'a::len word) AND 0xFF = take_bit 8 p"
  by (simp add: take_bit_eq_mask mask_eq_exp_minus_1)

lemma low_six: "(p :: 'a::len word) AND 0x3F = take_bit 6 p"
  by (simp add: take_bit_eq_mask mask_eq_exp_minus_1)

lemma unat_low_byte: "unat (take_bit 8 p :: u64) = unat p mod 256"
  by (simp add: unsigned_take_bit_eq take_bit_nat_def)

lemma unat_io_cid:
  assumes "0 \<le> i" and "i < 64" and "unat p < 256"
  shows "unat (io_cid i p) = nat i + 64 * unat p"
proof -
  let ?a = "word_of_int i AND 0x3F :: u16" and ?b = "push_bit 6 (ucast (p AND 0xFF)) :: u16"
  have "unat (word_of_int i :: u16) = nat i"
    using assms(1,2) by (simp add: unsigned_of_int take_bit_int_eq_self)
  then have a: "unat ?a = nat i"
    unfolding low_six using assms by (simp add: unsigned_take_bit_eq take_bit_nat_eq_self nat_less_iff)
  have "unat (ucast (p AND 0xFF) :: u16) = unat p"
    using assms(3) by (simp add: low_byte unat_low_byte unsigned_ucast_eq take_bit_nat_eq_self)
  then have b: "unat ?b = 64 * unat p"
    using assms(3) by (simp add: push_bit_eq_mult unat_word_ariths)
  have "io_cid i p = ?a + ?b"
    unfolding io_cid_def low_six by (rule disjunctive_add [symmetric]) (auto simp: bit_simps)
  then show ?thesis using a b assms by (simp add: unat_word_ariths nat_less_iff)
qed

lemma unat_admin_cid: "unat p < 256 \<Longrightarrow> unat (admin_cid p) = 32768 + unat p"
proof -
  assume p: "unat p < 256"
  have b: "unat (ucast (p AND 0xFF) :: u16) = unat p"
    using p by (simp add: low_byte unat_low_byte unsigned_ucast_eq take_bit_nat_eq_self)
  define top where "top = (push_bit 15 1 :: u16)"
  have "bit top n \<longleftrightarrow> n = 15" for n unfolding top_def bit_push_bit_iff by (auto simp: bit_1_iff)
  then have "top OR ucast (p AND 0xFF) = top + ucast (p AND 0xFF)"
    unfolding low_byte by (intro disjunctive_add [symmetric]) (auto simp: bit_simps)
  then have "admin_cid p = push_bit 15 1 + ucast (p AND 0xFF)"
    by (simp only: admin_cid_def top_def)
  then show ?thesis using b p by (simp add: unat_word_ariths push_bit_eq_mult)
qed

lemma slot_of_io_cid:
  assumes "0 \<le> i" and "i < 64" and "i \<noteq> 0" and "unat p < 256"
  shows "slot_of_cid i (io_cid i p) = p"
proof -
  have "unat (drop_bit 6 (io_cid i p)) = unat p"
    using unat_io_cid [OF assms(1,2,4)] assms(1,2)
    by (simp add: drop_bit_eq_div unat_div nat_less_iff)
  then have "unat (drop_bit 6 (io_cid i p) AND 0xFF) = unat p"
    using assms(4) unfolding low_byte by (simp add: unsigned_take_bit_eq take_bit_nat_eq_self)
  then show ?thesis
    using assms(3,4) by (simp add: slot_of_cid_def word_unat_eq_iff unsigned_ucast_eq take_bit_nat_eq_self)
qed

text \<open>
  C9 (nvme_command_ids): in the I/O queues 1 to 63 with up to 256 slots, identifiers tell queue and slot
  apart, never equal one of the administrator queue, and give the slot back when the completion is
  taken. For the administrator queue the slot given back is 32768 too large.
\<close>

theorem nvme_command_ids:
  assumes "1 \<le> i" "i < 64" "1 \<le> j" "j < 64" and "unat p < 256" "unat q < 256"
  shows "(io_cid i p = io_cid j q \<longleftrightarrow> i = j \<and> p = q) \<and> io_cid i p \<noteq> admin_cid q \<and>
    slot_of_cid i (io_cid i p) = p \<and> unat (slot_of_cid 0 (admin_cid q)) = 32768 + unat q"
proof (intro conjI)
  have ij: "0 \<le> i" "0 \<le> j" using assms by simp_all
  note v = unat_io_cid [OF ij(1) assms(2,5)] unat_io_cid [OF ij(2) assms(4,6)] unat_admin_cid [OF assms(6)]
  have lt: "nat i < 64" "nat j < 64" using assms by simp_all
  show "io_cid i p = io_cid j q \<longleftrightarrow> i = j \<and> p = q"
  proof
    assume "io_cid i p = io_cid j q"
    then have e: "nat i + 64 * unat p = nat j + 64 * unat q" using v by metis
    then have "nat i = nat j \<and> unat p = unat q" using lt by (rule digits_64)
    then show "i = j \<and> p = q" using ij by (simp add: word_unat_eq_iff eq_nat_nat_iff)
  qed simp
  show "io_cid i p \<noteq> admin_cid q"
  proof
    assume "io_cid i p = admin_cid q"
    then have "nat i + 64 * unat p = 32768 + unat q" using v by metis
    then show False using lt assms(5) by linarith
  qed
  show "slot_of_cid i (io_cid i p) = p"
    by (rule slot_of_io_cid) (use assms in simp_all)
  show "unat (slot_of_cid 0 (admin_cid q)) = 32768 + unat q"
    using v(3) assms(6) by (simp add: slot_of_cid_def unsigned_ucast_eq take_bit_nat_eq_self)
qed

theorem nvme_command_ids_witness:
  "io_cid 1 5 \<noteq> io_cid 2 5 \<and> slot_of_cid 1 (io_cid 1 5) = 5 \<and> unat (slot_of_cid 0 (admin_cid 5)) = 32773"
  using nvme_command_ids [of 1 2 5 5] by simp

section \<open>The phase\<close>

lemma phase_after_same:
  assumes "p = 0 \<or> p = 1" and "unat idx < unat objs"
  shows "phase_after idx objs p = p"
proof -
  have nz: "objs \<noteq> 0" using assms(2) by auto
  then have m: "unat (objs - 1) = unat objs - 1" by (simp add: unat_minus_one)
  have s: "unat (idx + 1) = unat idx + 1"
    using assms(2) unsigned_less [of objs, where 'a = nat] by (simp add: unat_word_ariths)
  have "idx = objs - 1 \<longleftrightarrow> unat idx = unat objs - 1" by (simp add: word_unat_eq_iff m)
  also have "\<dots> \<longleftrightarrow> unat objs \<le> unat idx + 1" using assms(2) by linarith
  also have "\<dots> \<longleftrightarrow> idx + 1 \<ge> objs" by (simp only: word_le_nat_alt s)
  finally show ?thesis using assms(1) by (auto simp: phase_after_def flip_def Let_def)
qed

text \<open>What a ring buffer hands out is an index of it.\<close>

definition ring_in_range :: "('w, 'z) nvme_kernel_scheme \<Rightarrow> bool" where
  "ring_in_range K \<longleftrightarrow> (\<forall>rb w. case n_rb_alloc K rb 1 w of (p, w') \<Rightarrow> unat p < unat (n_rb_objs K rb w'))"

lemma ring_in_rangeD: "ring_in_range K \<Longrightarrow> n_rb_alloc K rb 1 w = (p, w') \<Longrightarrow> unat p < unat (n_rb_objs K rb w')"
  unfolding ring_in_range_def by (metis case_prod_conv)

lemma get_set_pair:
  "get_pair s ref = Inr q \<Longrightarrow> get_pair (set_pair ref q' s) r = (if r = ref then Inr q' else get_pair s r)"
  by (auto simp: get_pair_def set_pair_def split: qp_ref.splits if_splits)

lemma get_pair_env [simp]: "get_pair (s\<lparr>nv_env := w\<rparr>) r = get_pair s r"
  by (simp add: get_pair_def split: qp_ref.split)

text \<open>
  Whatever a poll does, every queue pair expects the same phase after it as
  before. The code flips the phase twice when the last entry is consumed, where the controller flips it
  once.
\<close>

theorem nvme_phase_never_flips:
  assumes ring: "ring_in_range K" and run: "nvme_pci_poll_completion K transport wrap s = Some (Inr (status, e, s'))"
    and q: "get_pair s ref = Inr q" "qp_phase q = 0 \<or> qp_phase q = 1"
  shows "\<exists>q'. get_pair s' ref = Inr q' \<and> qp_phase q' = qp_phase q"
proof (cases "qw_cmd wrap = None \<or> transport = 0")
  case True
  then show ?thesis using run q by (auto simp: nvme_pci_poll_completion_def split: option.splits)
next
  case False
  then obtain cmd where c: "qw_cmd wrap = Some cmd" "transport \<noteq> 0" by auto
  then obtain r where r: "qw_qpair wrap = Some r"
    using run by (auto simp: nvme_pci_poll_completion_def split: option.splits)
  obtain p where p: "get_pair s r = Inr p"
    using run c r by (cases "get_pair s r") (auto simp: nvme_pci_poll_completion_def)
  obtain w where w: "poll_wait K (qp_cmpq p) (qp_phase p) (qs_cid cmd) (nv_env s) = Some w"
    using run c r p by (auto simp: nvme_pci_poll_completion_def Let_def split: option.splits)
  define w1 where "w1 = (if n_irq_enabled K (nv_env s) then w else n_irq_set K False w)"
  obtain idx w2 where a: "n_rb_alloc K (qp_cmpq p) 1 w1 = (idx, w2)" by fastforce
  define p' where "p' = p\<lparr>qp_phase := phase_after idx (n_rb_objs K (qp_cmpq p) w2) (qp_phase p)\<rparr>"
  obtain w4 where s': "s' = (set_pair r p' s)\<lparr>nv_env := w4\<rparr>"
    using run c r p w a
    by (cases "next_slot idx (n_rb_objs K (qp_cmpq p) w2)")
      (auto simp: nvme_pci_poll_completion_def Let_def w1_def [symmetric] p'_def)
  have "ref = r \<Longrightarrow> qp_phase p' = qp_phase q"
    using p q phase_after_same [OF _ ring_in_rangeD [OF ring a]] by (simp add: p'_def)
  then show ?thesis unfolding s' using get_set_pair [OF p] q(1) by (cases "ref = r") auto
qed

section \<open>The protocol of a queue pair\<close>

text \<open>
  A completion ring of \<open>n\<close> entries, a submission ring of \<open>m\<close>, I/O queue number \<open>i\<close>. The driver sends a
  command when the one before is done and takes a completion as soon as the entry at its index passes the
  test of the polling loop. The controller posts completions in order, with its phase, which it inverts
  whenever it comes round.
\<close>

record cq_sys =
  cs_ring :: "qc_entry list"
  cs_head :: nat
  cs_phase :: int
  cs_tail :: nat
  cs_cphase :: u8
  cs_sent :: nat
  cs_posted :: nat
  cs_taken :: nat

definition nth_cid :: "nat \<Rightarrow> int \<Rightarrow> nat \<Rightarrow> u16" where
  "nth_cid m i k = io_cid i (word_of_nat (k mod m))"

definition posted_entry :: "nat \<Rightarrow> int \<Rightarrow> nat \<Rightarrow> u8 \<Rightarrow> qc_entry" where
  "posted_entry m i k ph = qc_zero\<lparr>qc_cid := nth_cid m i k, qc_phase := ph\<rparr>"

inductive cq_step :: "nat \<Rightarrow> nat \<Rightarrow> int \<Rightarrow> cq_sys \<Rightarrow> cq_sys \<Rightarrow> bool" for n m i where
  cq_send: "cs_taken c = cs_sent c \<Longrightarrow> cq_step n m i c (c\<lparr>cs_sent := Suc (cs_sent c)\<rparr>)"
| cq_post: "cs_posted c < cs_sent c \<Longrightarrow>
    cq_step n m i c (c\<lparr>cs_ring := (cs_ring c)[cs_tail c := posted_entry m i (cs_posted c) (cs_cphase c)],
      cs_tail := Suc (cs_tail c) mod n, cs_cphase := (if Suc (cs_tail c) = n then 1 - cs_cphase c else cs_cphase c),
      cs_posted := Suc (cs_posted c)\<rparr>)"
| cq_take: "cs_taken c < cs_sent c \<Longrightarrow> cq_accepts (cs_phase c) (nth_cid m i (cs_taken c)) (cs_ring c ! cs_head c) \<Longrightarrow>
    cq_step n m i c (c\<lparr>cs_head := Suc (cs_head c) mod n,
      cs_phase := phase_after (word_of_nat (cs_head c)) (word_of_nat n) (cs_phase c), cs_taken := Suc (cs_taken c)\<rparr>)"

inductive_cases cq_stepE [consumes 1, case_names send post take]: "cq_step n m i c d"

definition cq_start :: "nat \<Rightarrow> cq_sys" where
  "cq_start n = \<lparr>cs_ring = replicate n qc_zero, cs_head = 0, cs_phase = 1, cs_tail = 0, cs_cphase = 1,
     cs_sent = 0, cs_posted = 0, cs_taken = 0\<rparr>"

inductive cq_reach :: "nat \<Rightarrow> nat \<Rightarrow> int \<Rightarrow> cq_sys \<Rightarrow> bool" for n m i where
  cq_reach_start: "cq_reach n m i (cq_start n)"
| cq_reach_step: "cq_reach n m i c \<Longrightarrow> cq_step n m i c d \<Longrightarrow> cq_reach n m i d"

lemma phase_after_nat: "h < n \<Longrightarrow> n < 2 ^ 64 \<Longrightarrow> phase_after (word_of_nat h) (word_of_nat n) 1 = 1"
  by (rule phase_after_same) (simp_all add: unat_of_nat)






text \<open>The state after \<open>k\<close> commands of the first lap.\<close>

definition cq_lap :: "nat \<Rightarrow> nat \<Rightarrow> int \<Rightarrow> nat \<Rightarrow> cq_sys" where
  "cq_lap n m i k =
     \<lparr>cs_ring = map (\<lambda>j. if j < k then posted_entry m i j 1 else qc_zero) [0..<n], cs_head = k mod n, cs_phase = 1,
      cs_tail = k mod n, cs_cphase = (if k < n then 1 else 0), cs_sent = k, cs_posted = k, cs_taken = k\<rparr>"

lemma cq_lap_reach:
  assumes "0 < n" "n < 2 ^ 64" and "k \<le> n"
  shows "cq_reach n m i (cq_lap n m i k)"
  using assms(3)
proof (induction k)
  case 0
  have "cq_lap n m i 0 = cq_start n" using assms(1) by (simp add: cq_lap_def cq_start_def map_replicate_const)
  then show ?case using cq_reach_start by simp
next
  case (Suc k)
  then have k: "k < n" by simp
  let ?a = "(cq_lap n m i k)\<lparr>cs_sent := Suc k\<rparr>"
  let ?ring = "map (\<lambda>j. if j < Suc k then posted_entry m i j 1 else qc_zero) [0..<n]"
  let ?b = "?a\<lparr>cs_ring := ?ring, cs_tail := Suc k mod n, cs_cphase := (if Suc k < n then 1 else 0), cs_posted := Suc k\<rparr>"
  have "cq_step n m i (cq_lap n m i k) ((cq_lap n m i k)\<lparr>cs_sent := Suc (cs_sent (cq_lap n m i k))\<rparr>)"
    by (rule cq_send) (simp add: cq_lap_def)
  then have 1: "cq_step n m i (cq_lap n m i k) ?a" by (simp add: cq_lap_def)
  have ring: "(cs_ring ?a)[k := posted_entry m i k 1] = ?ring"
    using k by (intro nth_equalityI) (auto simp: cq_lap_def nth_list_update less_Suc_eq)
  have 2: "cq_step n m i ?a ?b"
    using cq_post [of ?a n m i] k ring by (auto simp: cq_lap_def mod_Suc)
  have "cq_accepts 1 (nth_cid m i k) (?ring ! k)" using k by (simp add: cq_accepts_def posted_entry_def)
  then have 3: "cq_step n m i ?b (cq_lap n m i (Suc k))"
    using cq_take [of ?b m i n] k phase_after_nat [OF k assms(2)] by (simp add: cq_lap_def)
  show ?case using Suc 1 2 3 by (meson Suc_leD cq_reach_step)
qed

text \<open>With one command posted, and the entry the driver looks at in the other phase, no step is left.\<close>

lemma cq_stuck:
  assumes "cs_sent c = Suc (cs_taken c)" and "cs_posted c = cs_sent c"
    and "uint (qc_phase (cs_ring c ! cs_head c)) \<noteq> cs_phase c"
  shows "\<not> cq_step n m i c d"
proof
  assume "cq_step n m i c d"
  then show False
  proof (cases rule: cq_stepE)
    case send
    then show False using assms(1) by linarith
  next
    case post
    then show False using assms(2) by linarith
  next
    case take
    then show False using assms(3) unfolding cq_accepts_def by blast
  qed
qed

text \<open>
  C8 (nvme_second_lap_breaks): when the completion ring is a multiple of the submission ring (256 and 64
  entries in the driver), the first command of the second lap can go wrong in two ways. The driver can
  take the stale completion of the first lap, before the controller has done anything; or the controller
  can post first, with its phase inverted, and then no step is left: the driver polls for ever.
\<close>

theorem nvme_second_lap_breaks:
  assumes n: "0 < m" "m dvd n" "0 < n" "n < 2 ^ 64"
  shows "(\<exists>c. cq_reach n m i c \<and> cs_posted c = n \<and> cs_taken c = Suc n) \<and>
    (\<exists>c. cq_reach n m i c \<and> cs_sent c = Suc n \<and> cs_posted c = Suc n \<and> cs_taken c = n \<and> (\<forall>d. \<not> cq_step n m i c d))"
proof
  let ?l = "cq_lap n m i n"
  let ?a = "?l\<lparr>cs_sent := Suc n\<rparr>"
  have "cq_step n m i ?l (?l\<lparr>cs_sent := Suc (cs_sent ?l)\<rparr>)" by (rule cq_send) (simp add: cq_lap_def)
  then have 1: "cq_reach n m i ?a"
    using cq_reach_step [OF cq_lap_reach [OF n(3,4) order_refl]] by (simp add: cq_lap_def)
  have ring0: "cs_ring ?a ! 0 = posted_entry m i 0 1" using n(3) by (simp add: cq_lap_def)
  have cid: "nth_cid m i n = nth_cid m i 0" using n(2) by (simp add: nth_cid_def)
  have "cq_accepts 1 (nth_cid m i n) (cs_ring ?a ! 0)"
    unfolding ring0 cid by (simp add: cq_accepts_def posted_entry_def)
  then have "cq_step n m i ?a (?a\<lparr>cs_head := Suc (cs_head ?a) mod n,
      cs_phase := phase_after (word_of_nat (cs_head ?a)) (word_of_nat n) (cs_phase ?a), cs_taken := Suc (cs_taken ?a)\<rparr>)"
    by (intro cq_take) (simp_all add: cq_lap_def)
  from cq_reach_step [OF 1 this] show "\<exists>c. cq_reach n m i c \<and> cs_posted c = n \<and> cs_taken c = Suc n"
    by (intro exI conjI) (assumption, simp_all add: cq_lap_def)
  let ?b = "?a\<lparr>cs_ring := (cs_ring ?a)[cs_tail ?a := posted_entry m i (cs_posted ?a) (cs_cphase ?a)],
      cs_tail := Suc (cs_tail ?a) mod n, cs_cphase := (if Suc (cs_tail ?a) = n then 1 - cs_cphase ?a else cs_cphase ?a),
      cs_posted := Suc (cs_posted ?a)\<rparr>"
  have "cq_step n m i ?a ?b" by (rule cq_post) (simp add: cq_lap_def)
  then have 2: "cq_reach n m i ?b" by (rule cq_reach_step [OF 1])
  have b: "cs_sent ?b = Suc n" "cs_posted ?b = Suc n" "cs_taken ?b = n" "cs_phase ?b = 1" "cs_head ?b = 0"
    "qc_phase (cs_ring ?b ! 0) = 0"
    using n(3) by (simp_all add: cq_lap_def posted_entry_def)
  have "\<not> cq_step n m i ?b d" for d by (rule cq_stuck) (use b in simp_all)
  then show "\<exists>c. cq_reach n m i c \<and> cs_sent c = Suc n \<and> cs_posted c = Suc n \<and> cs_taken c = n \<and> (\<forall>d. \<not> cq_step n m i c d)"
    using 2 b by blast
qed


theorem nvme_second_lap_breaks_witness:
  "\<exists>c. cq_reach 256 64 1 c \<and> cs_posted c = 256 \<and> cs_taken c = 257"
  using nvme_second_lap_breaks [of 64 256 1] by (simp add: dvd_def)

end
