(* ===== verification/Nvme_Controller.thy ===== *)
theory Nvme_Controller
  imports Nvme_Media Nvme_Queue
begin

text \<open>
  What the PCI transport relies on: the contract of a controller with one I/O queue pair, its rings and
  the memory it shares with the driver. Over any such controller the transport's functions are the
  page-command interface of \<open>Nvme_Media\<close>.
\<close>

section \<open>The contract\<close>

text \<open>
  What a command goes through. \<open>Ready ptr\<close>: a slot of the submission ring is taken. \<open>Pending ptr c\<close>: the
  doorbell has announced the command \<open>c\<close> there. \<open>Done ptr\<close>: its completion is the next entry of the
  completion ring. \<open>view\<close> gives the stage, the bytes of the namespace and the number of free completion
  entries; it is \<open>None\<close> when the world does not follow the protocol.
\<close>

datatype nvme_stage = Idle | Ready u64 | Pending u64 qs_entry | Done u64

type_synonym nvme_view = "nvme_stage \<times> u8 list \<times> nat"

definition page_of :: "('w, 'z) nvme_kernel_scheme \<Rightarrow> u64 \<Rightarrow> 'w \<Rightarrow> u8 list" where
  "page_of K p w = n_load K p (unat (n_page_size K)) w"

text \<open>After \<open>k\<close> turns of the controller the entry under the index is the first that the driver accepts.\<close>

definition cq_next :: "('w, 'z) nvme_kernel_scheme \<Rightarrow> u64 \<Rightarrow> 'w \<Rightarrow> qc_entry" where
  "cq_next K cq w = cq_entry K cq (n_rb_idx K cq w) w"

definition completes_at :: "('w, 'z) nvme_kernel_scheme \<Rightarrow> u64 \<Rightarrow> u16 \<Rightarrow> 'w \<Rightarrow> nat \<Rightarrow> bool" where
  "completes_at K cq cid w k \<longleftrightarrow>
     (\<forall>j<k. qc_phase (cq_next K cq ((n_spin K ^^ j) w)) = 0) \<and>
     (let e = cq_next K cq ((n_spin K ^^ k) w) in qc_phase e = 1 \<and> qc_cid e = cid \<and> qc_status e = 0)"

text \<open>The driver's state: the pair of this processor is the one the controller serves.\<close>

definition own_pair :: "ns_state \<Rightarrow> nat \<Rightarrow> qp_ref" where
  "own_pair st cpu = Io_Pair (nat (int cpu + nss_qpair_base st))"

definition queue_ready :: "ns_state \<Rightarrow> u64 \<Rightarrow> u64 \<Rightarrow> u64 \<Rightarrow> int \<Rightarrow> nat \<Rightarrow> 'w nvme_sys \<Rightarrow> bool" where
  "queue_ready st props sq cq ident cpu s \<longleftrightarrow> pci_props (nv_pci s) = props \<and> nd_transport (nv_core s) \<noteq> 0 \<and>
     get_pair s (own_pair st cpu) = Inr \<lparr>qp_subq = sq, qp_cmpq = cq, qp_id = ident, qp_phase = 1\<rparr>"

lemma queue_ready_env [simp]: "queue_ready st props sq cq ident cpu (s\<lparr>nv_env := w\<rparr>) = queue_ready st props sq cq ident cpu s"
  by (simp add: queue_ready_def)

text \<open>The driver's and the controller's side between two commands, as the namespace driver needs them.\<close>

definition media_ok :: "('w nvme_sys \<Rightarrow> bool) \<Rightarrow> ('w \<Rightarrow> nvme_view option) \<Rightarrow> 'w nvme_sys \<Rightarrow> bool" where
  "media_ok ready view s \<longleftrightarrow> ready s \<and> (\<exists>D n. view (nv_env s) = Some (Idle, D, n))"

definition media_content :: "('w \<Rightarrow> nvme_view option) \<Rightarrow> 'w nvme_sys \<Rightarrow> u8 list" where
  "media_content view s = (case view (nv_env s) of None \<Rightarrow> [] | Some (stage, D, n) \<Rightarrow> D)"

definition media_left :: "('w \<Rightarrow> nvme_view option) \<Rightarrow> 'w nvme_sys \<Rightarrow> nat" where
  "media_left view s = (case view (nv_env s) of None \<Rightarrow> 0 | Some (stage, D, n) \<Rightarrow> n)"

locale nvme_controller =
  fixes K :: "('w, 'z) nvme_kernel_scheme"
    and st :: ns_state
    and view :: "'w \<Rightarrow> nvme_view option"
    and props sq cq dstrd :: u64
    and ident :: int
    and depth clen cpu :: nat
    and buf :: "u64 \<Rightarrow> bool"
  assumes sizes: "nss_block_size st = n_page_size K" "0 < unat (nss_lba_size st)"
      "unat (nss_lba_size st) dvd unat (n_page_size K)" "0 < unat (n_page_size K)" "unat (n_page_size K) < 2 ^ 31"
    and align: "n_align_down K x a = x - x mod a"
    and minimum: "k_min K = min"
    and queues: "1 \<le> ident" "ident < 64" "0 < depth" "depth \<le> 256" "0 < clen" "clen < 2 ^ 31"
    and own_queue: "0 \<le> int cpu + nss_qpair_base st"
    and processor: "n_processor_id K w = cpu"
    and objs: "n_rb_objs K sq w = word_of_nat depth" "n_rb_objs K cq w = word_of_nat clen"
    and cap_law: "k_masked_read K (reg64 K props CAP w) 32 15 = dstrd"
    and irq_law: "view (n_irq_set K b w) = view w \<and> page_of K p (n_irq_set K b w) = page_of K p w"
    and alloc_law: "view w = Some (Idle, D, n) \<Longrightarrow> n_rb_alloc K sq 1 w = (ptr, w') \<Longrightarrow>
      view w' = Some (Ready ptr, D, n) \<and> unat ptr < depth \<and> page_of K p w' = page_of K p w"
    and submit_law: "view w = Some (Ready ptr, D, n) \<Longrightarrow> qs_fuse c < 4 \<Longrightarrow> qs_psdt c < 4 \<Longrightarrow>
      w' = n_store K (props + 4096 + word_of_int (2 * ident) * push_bit (unat dstrd) 4) (le_bytes 4 ((unat ptr + 1) mod depth))
             (n_rb_write K sq ptr (qs_bytes c) w) \<Longrightarrow>
      view w' = Some (Pending ptr c, D, n) \<and> page_of K p w' = page_of K p w"
    and read_law: "view w = Some (Pending ptr c, D, Suc n) \<Longrightarrow> page_command K st 2 p lba c \<Longrightarrow> buf p \<Longrightarrow>
      lba * unat (nss_lba_size st) + unat (n_page_size K) \<le> length D \<Longrightarrow>
      \<exists>k. completes_at K cq (qs_cid c) w k \<and> view ((n_spin K ^^ k) w) = Some (Done ptr, D, n) \<and>
        page_of K p ((n_spin K ^^ k) w) = bytes_at (lba * unat (nss_lba_size st)) (unat (n_page_size K)) D"
    and write_law: "view w = Some (Pending ptr c, D, Suc n) \<Longrightarrow> page_command K st 1 p lba c \<Longrightarrow> buf p \<Longrightarrow>
      lba * unat (nss_lba_size st) + unat (n_page_size K) \<le> length D \<Longrightarrow>
      \<exists>k. completes_at K cq (qs_cid c) w k \<and>
        view ((n_spin K ^^ k) w) = Some (Done ptr, blit D (lba * unat (nss_lba_size st)) (page_of K p w), n)"
    and done_law: "view w = Some (Done ptr, D, n) \<Longrightarrow> n_rb_alloc K cq 1 w = (i, w1) \<Longrightarrow>
      w' = n_rb_free K sq ptr
        (n_store K (props + 4096 + word_of_int (2 * ident + 1) * push_bit (unat dstrd) 4) (le_bytes 4 ((unat i + 1) mod clen)) w1) \<Longrightarrow>
      unat i < clen \<and> view w' = Some (Idle, D, n) \<and> page_of K p w' = page_of K p w"
    and pmm_law: "view w = Some (Idle, D, n) \<Longrightarrow>
      \<exists>p w'. n_pmm_alloc K (n_page_size K) w = (p, w') \<and> p \<noteq> 0 \<and> buf p \<and> view w' = Some (Idle, D, n)"
    and pmm_free_law: "view w = Some (Idle, D, n) \<Longrightarrow> view (n_pmm_free K p w) = Some (Idle, D, n)"
    and page_law: "view w = Some (Idle, D, n) \<Longrightarrow> n_page_alloc K w = (m, w') \<Longrightarrow>
      view w' = Some (Idle, D, n) \<and> page_of K p w' = page_of K p w"
    and page_free_law: "view w = Some (Idle, D, n) \<Longrightarrow>
      view (n_page_free K m w) = Some (Idle, D, n) \<and> page_of K p (n_page_free K m w) = page_of K p w"
    and store_law: "view w = Some (Idle, D, n) \<Longrightarrow> buf p \<Longrightarrow> k + length bs \<le> unat (n_page_size K) \<Longrightarrow>
      view (n_store K (p + word_of_nat k) bs w) = Some (Idle, D, n) \<and>
      page_of K p (n_store K (p + word_of_nat k) bs w) = blit (page_of K p w) k bs"
    and load_slice: "buf p \<Longrightarrow> k + n \<le> unat (n_page_size K) \<Longrightarrow>
      n_load K (p + word_of_nat k) n w = bytes_at k n (page_of K p w)"
    and load_length: "length (n_load K p n w) = n"
    and buf_nonzero: "buf p \<Longrightarrow> p \<noteq> 0"
begin

section \<open>The driver's side\<close>

lemma poll_wait_at:
  assumes "completes_at K cq cid w k"
  shows "poll_wait K cq 1 cid w = Some ((n_spin K ^^ k) w)"
  using assms
proof (induction k arbitrary: w)
  case 0
  then show ?case
    by (subst poll_wait.simps) (simp add: completes_at_def cq_accepts_def cq_next_def Let_def)
next
  case (Suc k)
  have "qc_phase (cq_next K cq w) = 0" using Suc.prems by (auto simp: completes_at_def)
  then have "\<not> cq_accepts 1 cid (cq_entry K cq (n_rb_idx K cq w) w)" by (simp add: cq_accepts_def cq_next_def)
  moreover have "completes_at K cq cid (n_spin K w) k"
    using Suc.prems by (auto simp: completes_at_def funpow_swap1 dest: spec [of _ "Suc _"])
  ultimately show ?case using Suc.IH by (subst poll_wait.simps) (simp add: funpow_swap1)
qed

lemma doorbells:
  "SQnTDBL K props ident w = props + 4096 + word_of_int (2 * ident) * push_bit (unat dstrd) 4"
  "CQnHDBL K props ident w = props + 4096 + word_of_int (2 * ident + 1) * push_bit (unat dstrd) 4"
  by (simp_all add: SQnTDBL_def CQnHDBL_def doorbell_stride_def cap_law)

lemma next_slot_nat:
  assumes "unat i < m" and "m < 2 ^ 31"
  shows "\<exists>v. next_slot i (word_of_nat m) = Inr v \<and> unat v = (unat i + 1) mod m"
proof -
  have m: "unat (word_of_nat m :: u64) = m" using assms(2) by (simp add: unat_of_nat)
  then have nz: "(word_of_nat m :: u64) \<noteq> 0" using assms(1) by auto
  have i: "unat (ucast i :: u32) = unat i" using assms by (simp add: unsigned_ucast_eq take_bit_nat_eq_self)
  have s: "unat (ucast i + 1 :: u32) = unat i + 1" using i assms by (simp add: unat_word_ariths)
  have "unat (ucast (ucast (ucast i + 1 :: u32) mod (word_of_nat m :: u64)) :: u32) = (unat i + 1) mod m"
  proof -
    have c: "unat (ucast (ucast i + 1 :: u32) :: u64) = unat i + 1"
      using s assms by (simp add: unsigned_ucast_eq take_bit_nat_eq_self)
    have "unat (ucast (ucast i + 1 :: u32) mod (word_of_nat m :: u64)) = (unat i + 1) mod m"
      by (simp only: unat_mod c m)
    moreover have "(unat i + 1) mod m < 2 ^ 32"
      by (rule le_less_trans [OF mod_less_eq_dividend]) (use assms in simp)
    ultimately show ?thesis by (simp add: unsigned_ucast_eq take_bit_nat_eq_self)
  qed
  then show ?thesis using nz by (simp add: next_slot_def)
qed

abbreviation "io_ref \<equiv> own_pair st cpu"
abbreviation "pair_ok \<equiv> queue_ready st props sq cq ident cpu"

lemma submit_ok:
  assumes ok: "pair_ok s" "view (nv_env s) = Some (Idle, D, n)" and c: "qs_fuse c < 4" "qs_psdt c < 4"
  obtains ptr w where
    "nvme_pci_submit_command K (nd_transport (nv_core s)) (Some io_ref) (Some c) s =
      Inr (\<lparr>qw_qpair = Some io_ref, qw_cmd = Some (c\<lparr>qs_cid := io_cid ident ptr\<rparr>)\<rparr>, s\<lparr>nv_env := w\<rparr>)"
    "unat ptr < depth" "view w = Some (Pending ptr (c\<lparr>qs_cid := io_cid ident ptr\<rparr>), D, n)"
    "page_of K p w = page_of K p (nv_env s)"
proof -
  define w1 where "w1 = n_irq_set K False (nv_env s)"
  have v1: "view w1 = Some (Idle, D, n)" "page_of K p w1 = page_of K p (nv_env s)"
    using irq_law ok(2) by (simp_all add: w1_def)
  obtain ptr w2 where a: "n_rb_alloc K sq 1 w1 = (ptr, w2)" by fastforce
  then have v2: "view w2 = Some (Ready ptr, D, n)" "unat ptr < depth" "page_of K p w2 = page_of K p w1"
    using alloc_law [OF v1(1), of ptr w2 p] by blast+
  define c' where "c' = c\<lparr>qs_cid := io_cid ident ptr\<rparr>"
  have c': "qs_fuse c' < 4" "qs_psdt c' < 4" using c by (simp_all add: c'_def)
  define w3 where "w3 = n_rb_write K sq ptr (qs_bytes c') w2"
  have "depth < 2 ^ 31" using queues(4) by simp
  then obtain tail where tail: "next_slot ptr (word_of_nat depth) = Inr tail" "unat tail = (unat ptr + 1) mod depth"
    using next_slot_nat [OF v2(2)] by blast
  define w4 where "w4 = n_store K (SQnTDBL K props ident w3) (le_bytes 4 (unat tail)) w3"
  have v4: "view w4 = Some (Pending ptr c', D, n)" "page_of K p w4 = page_of K p w2"
    using submit_law [OF v2(1) c', of w4 p] by (simp_all add: w4_def w3_def doorbells tail)
  define w5 where "w5 = (if n_irq_enabled K (nv_env s) then n_irq_set K True w4 else w4)"
  have v5: "view w5 = view w4" "page_of K p w5 = page_of K p w4" using irq_law by (simp_all add: w5_def)
  show thesis
  proof (rule that [of ptr w5])
    show "nvme_pci_submit_command K (nd_transport (nv_core s)) (Some io_ref) (Some c) s =
      Inr (\<lparr>qw_qpair = Some io_ref, qw_cmd = Some (c\<lparr>qs_cid := io_cid ident ptr\<rparr>)\<rparr>, s\<lparr>nv_env := w5\<rparr>)"
      using ok(1) a tail(1) objs(1)
      by (simp add: nvme_pci_submit_command_def queue_ready_def Let_def w1_def [symmetric] c'_def [symmetric]
          w3_def [symmetric] w4_def [symmetric] w5_def)
  qed (use v1 v2 v4 v5 in \<open>simp_all add: c'_def\<close>)
qed

lemma poll_ok:
  assumes ok: "pair_ok s" and ptr: "unat ptr < depth" and c: "qs_cid c = io_cid ident ptr"
    and k: "completes_at K cq (qs_cid c) (nv_env s) k" "view ((n_spin K ^^ k) (nv_env s)) = Some (Done ptr, D, n)"
  obtains e s' where
    "nvme_pci_poll_completion K (nd_transport (nv_core s)) \<lparr>qw_qpair = Some io_ref, qw_cmd = Some c\<rparr> s = Some (Inr (0, Some e, s'))"
    "pair_ok s'" "view (nv_env s') = Some (Idle, D, n)" "page_of K p (nv_env s') = page_of K p ((n_spin K ^^ k) (nv_env s))"
proof -
  let ?w = "(n_spin K ^^ k) (nv_env s)"
  let ?q = "\<lparr>qp_subq = sq, qp_cmpq = cq, qp_id = ident, qp_phase = 1\<rparr>"
  define w1 where "w1 = (if n_irq_enabled K (nv_env s) then ?w else n_irq_set K False ?w)"
  have v1: "view w1 = Some (Done ptr, D, n)" "page_of K p w1 = page_of K p ?w"
    using irq_law k(2) by (simp_all add: w1_def)
  obtain i w2 where a: "n_rb_alloc K cq 1 w1 = (i, w2)" by fastforce
  have i: "unat i < clen" using done_law [OF v1(1) a refl, of p] by blast
  then obtain head where head: "next_slot i (word_of_nat clen) = Inr head" "unat head = (unat i + 1) mod clen"
    using next_slot_nat queues(6) by blast
  define w3 where "w3 = n_store K (CQnHDBL K props ident w2) (le_bytes 4 (unat head)) w2"
  have slot: "slot_of_cid ident (qs_cid c) = ptr"
    unfolding c by (rule slot_of_io_cid) (use queues ptr in simp_all)
  define w4 where "w4 = n_rb_free K sq ptr w3"
  have v4: "view w4 = Some (Idle, D, n)" "page_of K p w4 = page_of K p w1"
    using done_law [OF v1(1) a, of w4 p] by (simp_all add: w4_def w3_def doorbells head)
  have ph: "phase_after i (word_of_nat clen) 1 = 1"
    by (rule phase_after_same) (use i queues in \<open>simp_all add: unat_of_nat\<close>)
  define e where "e = cq_next K cq ?w"
  have e: "qc_status e = 0" using k(1) by (simp add: completes_at_def Let_def e_def)
  show thesis
  proof (rule that [of e "(set_pair io_ref ?q s)\<lparr>nv_env := w4\<rparr>"])
    show "nvme_pci_poll_completion K (nd_transport (nv_core s)) \<lparr>qw_qpair = Some io_ref, qw_cmd = Some c\<rparr> s =
        Some (Inr (0, Some e, (set_pair io_ref ?q s)\<lparr>nv_env := w4\<rparr>))"
      using ok a head(1) poll_wait_at [OF k(1)] objs(2) slot ph e
      by (simp add: nvme_pci_poll_completion_def queue_ready_def Let_def w1_def [symmetric] e_def [symmetric] cq_next_def [symmetric]
          w3_def [symmetric] w4_def [symmetric])
    show "pair_ok ((set_pair io_ref ?q s)\<lparr>nv_env := w4\<rparr>)"
      using ok get_set_pair [of s io_ref ?q ?q io_ref] by (simp add: queue_ready_def set_pair_def own_pair_def)
  qed (use v1 v4 in simp_all)
qed

lemma run_ok:
  assumes ok: "pair_ok s" "view (nv_env s) = Some (Idle, D, Suc n)" and c: "qs_fuse c < 4" "qs_psdt c < 4"
    and exec: "\<And>ptr w. view w = Some (Pending ptr (c\<lparr>qs_cid := io_cid ident ptr\<rparr>), D, Suc n) \<Longrightarrow>
      page_of K p w = page_of K p (nv_env s) \<Longrightarrow>
      \<exists>k. completes_at K cq (io_cid ident ptr) w k \<and> view ((n_spin K ^^ k) w) = Some (Done ptr, D', n) \<and> Q (page_of K p ((n_spin K ^^ k) w))"
  obtains e s' where "nvme_run (nvme_pci_iden K) (Some io_ref) c s = Some (Inr (0, Some e, s'))"
    "pair_ok s'" "view (nv_env s') = Some (Idle, D', n)" "Q (page_of K p (nv_env s'))"
proof -
  obtain ptr w where s: "nvme_pci_submit_command K (nd_transport (nv_core s)) (Some io_ref) (Some c) s =
      Inr (\<lparr>qw_qpair = Some io_ref, qw_cmd = Some (c\<lparr>qs_cid := io_cid ident ptr\<rparr>)\<rparr>, s\<lparr>nv_env := w\<rparr>)"
    "unat ptr < depth" "view w = Some (Pending ptr (c\<lparr>qs_cid := io_cid ident ptr\<rparr>), D, Suc n)"
    "page_of K p w = page_of K p (nv_env s)"
    using submit_ok [OF ok c] by blast
  obtain k where k: "completes_at K cq (io_cid ident ptr) w k" "view ((n_spin K ^^ k) w) = Some (Done ptr, D', n)"
    "Q (page_of K p ((n_spin K ^^ k) w))"
    using exec [OF s(3,4)] by blast
  let ?c = "c\<lparr>qs_cid := io_cid ident ptr\<rparr>" and ?s = "s\<lparr>nv_env := w\<rparr>"
  have k': "completes_at K cq (qs_cid ?c) (nv_env ?s) k" "view ((n_spin K ^^ k) (nv_env ?s)) = Some (Done ptr, D', n)"
    using k by simp_all
  obtain e s' where p: "nvme_pci_poll_completion K (nd_transport (nv_core ?s)) \<lparr>qw_qpair = Some io_ref, qw_cmd = Some ?c\<rparr> ?s =
      Some (Inr (0, Some e, s'))"
    "pair_ok s'" "view (nv_env s') = Some (Idle, D', n)" "page_of K p (nv_env s') = page_of K p ((n_spin K ^^ k) w)"
    by (rule poll_ok [OF _ s(2) _ k', of p]) (use ok(1) in simp_all)
  show thesis
    by (rule that [of e s']) (use s(1) p k(3) in \<open>simp_all add: nvme_run_def nvme_pci_iden_def\<close>)
qed

lemma command_cid: "page_command K st oc p lba (c\<lparr>qs_cid := x\<rparr>) = page_command K st oc p lba c"
  by (simp add: page_command_def)

lemma media_state:
  assumes "media_ok pair_ok view s" and "0 < media_left view s"
  obtains D n where "view (nv_env s) = Some (Idle, D, Suc n)" "media_content view s = D" "media_left view s = Suc n" "pair_ok s"
proof -
  obtain D n where v: "view (nv_env s) = Some (Idle, D, n)" using assms(1) by (auto simp: media_ok_def)
  then obtain m where "n = Suc m" using assms(2) by (auto simp: media_left_def gr0_conv_Suc)
  then show thesis using assms(1) v by (intro that [of D m]) (simp_all add: media_ok_def media_content_def media_left_def)
qed

lemma pair_of_processor:
  "io_pair_ref (int (n_processor_id K w) + nss_qpair_base st) = Inr ref \<Longrightarrow> ref = io_ref"
  using own_queue by (simp add: io_pair_ref_def processor own_pair_def split: if_splits)

lemma read_command:
  assumes s: "media_ok pair_ok view s" "0 < media_left view s" and buf: "buf p" and c: "page_command K st 2 p lba c"
    and fit: "lba * unat (nss_lba_size st) + unat (n_page_size K) \<le> length (media_content view s)"
  shows "\<exists>e s'. nvme_run (nvme_pci_iden K) (Some io_ref) c s = Some (Inr (0, e, s')) \<and> media_ok pair_ok view s' \<and>
    media_left view s' = media_left view s - 1 \<and> media_content view s' = media_content view s \<and>
    page_of K p (nv_env s') = bytes_at (lba * unat (nss_lba_size st)) (unat (n_page_size K)) (media_content view s)"
proof -
  obtain D n where v: "view (nv_env s) = Some (Idle, D, Suc n)" "media_content view s = D" "media_left view s = Suc n" "pair_ok s"
    by (rule media_state [OF s])
  have f: "qs_fuse c < 4" "qs_psdt c < 4" using c by (simp_all add: page_command_def)
  let ?b = "bytes_at (lba * unat (nss_lba_size st)) (unat (n_page_size K)) D"
  have "\<exists>k. completes_at K cq (io_cid ident ptr) w k \<and> view ((n_spin K ^^ k) w) = Some (Done ptr, D, n) \<and>
      page_of K p ((n_spin K ^^ k) w) = ?b"
    if "view w = Some (Pending ptr (c\<lparr>qs_cid := io_cid ident ptr\<rparr>), D, Suc n)" for ptr w
    using read_law [OF that _ buf fit [unfolded v(2)]] c by (simp add: command_cid)
  then obtain e s' where "nvme_run (nvme_pci_iden K) (Some io_ref) c s = Some (Inr (0, Some e, s'))" "pair_ok s'"
    "view (nv_env s') = Some (Idle, D, n)" "page_of K p (nv_env s') = ?b"
    by (rule run_ok [OF v(4,1) f, where p = p and D' = D and Q = "\<lambda>x. x = ?b"])
  moreover from this have "media_ok pair_ok view s'" "media_left view s' = n" "media_content view s' = D"
    by (simp_all add: media_ok_def media_left_def media_content_def)
  ultimately show ?thesis unfolding v(2,3) by auto
qed

lemma write_command:
  assumes s: "media_ok pair_ok view s" "0 < media_left view s" and buf: "buf p" and c: "page_command K st 1 p lba c"
    and fit: "lba * unat (nss_lba_size st) + unat (n_page_size K) \<le> length (media_content view s)"
  shows "\<exists>e s'. nvme_run (nvme_pci_iden K) (Some io_ref) c s = Some (Inr (0, e, s')) \<and> media_ok pair_ok view s' \<and>
    media_left view s' = media_left view s - 1 \<and>
    media_content view s' = blit (media_content view s) (lba * unat (nss_lba_size st)) (page_of K p (nv_env s))"
proof -
  obtain D n where v: "view (nv_env s) = Some (Idle, D, Suc n)" "media_content view s = D" "media_left view s = Suc n" "pair_ok s"
    by (rule media_state [OF s])
  have f: "qs_fuse c < 4" "qs_psdt c < 4" using c by (simp_all add: page_command_def)
  let ?D = "blit D (lba * unat (nss_lba_size st)) (page_of K p (nv_env s))"
  have "\<exists>k. completes_at K cq (io_cid ident ptr) w k \<and> view ((n_spin K ^^ k) w) = Some (Done ptr, ?D, n) \<and> True"
    if "view w = Some (Pending ptr (c\<lparr>qs_cid := io_cid ident ptr\<rparr>), D, Suc n)" "page_of K p w = page_of K p (nv_env s)" for ptr w
    using write_law [OF that(1) _ buf fit [unfolded v(2)]] c that(2) by (simp add: command_cid)
  then obtain e s' where "nvme_run (nvme_pci_iden K) (Some io_ref) c s = Some (Inr (0, Some e, s'))" "pair_ok s'"
    "view (nv_env s') = Some (Idle, ?D, n)" "True"
    by (rule run_ok [OF v(4,1) f, where p = p and D' = ?D and Q = "\<lambda>x. True"])
  moreover from this have "media_ok pair_ok view s'" "media_left view s' = n" "media_content view s' = ?D"
    by (simp_all add: media_ok_def media_left_def media_content_def)
  ultimately show ?thesis unfolding v(2,3) by auto
qed

end

section \<open>The page-command interface\<close>

text \<open>A step of the environment that keeps the view keeps the interface.\<close>

lemma media_keeps:
  assumes "media_ok ready view s" and "\<And>D n. view (nv_env s) = Some (Idle, D, n) \<Longrightarrow> view w = Some (Idle, D, n)"
    and "ready s \<Longrightarrow> ready (s\<lparr>nv_env := w\<rparr>)"
  shows "media_ok ready view (s\<lparr>nv_env := w\<rparr>) \<and> media_left view (s\<lparr>nv_env := w\<rparr>) = media_left view s \<and>
    media_content view (s\<lparr>nv_env := w\<rparr>) = media_content view s"
  using assms by (auto simp: media_ok_def media_left_def media_content_def)

sublocale nvme_controller \<subseteq> media: nvme_media K "nvme_pci_iden K" st "media_content view"
  "media_ok (queue_ready st props sq cq ident cpu) view" "media_left view" buf
proof unfold_locales
  show "nss_block_size st = n_page_size K" "0 < unat (nss_lba_size st)" "unat (nss_lba_size st) dvd unat (n_page_size K)"
    "0 < unat (n_page_size K)" "unat (n_page_size K) < 2 ^ 31" "k_min K = min"
    by (fact sizes minimum)+
  show "n_align_down K x a = x - x mod a" for x a by (fact align)
  show "\<exists>ref. io_pair_ref (int (n_processor_id K (nv_env s)) + nss_qpair_base st) = Inr ref"
    if "media_ok pair_ok view s" for s
    using own_queue by (simp add: io_pair_ref_def processor)
  fix s
  assume s: "media_ok pair_ok view s"
  then obtain D n where v: "view (nv_env s) = Some (Idle, D, n)" by (auto simp: media_ok_def)
  note keeps = media_keeps [OF s _ iffD2 [OF queue_ready_env]]
  show "\<exists>e s'. nvme_run (nvme_pci_iden K) (Some ref) c s = Some (Inr (0, e, s')) \<and> media_ok pair_ok view s' \<and>
      media_left view s' = media_left view s - 1 \<and> media_content view s' = media_content view s \<and>
      n_load K p (unat (n_page_size K)) (nv_env s') = bytes_at (lba * unat (nss_lba_size st)) (unat (n_page_size K)) (media_content view s)"
    if "0 < media_left view s" "buf p" "io_pair_ref (int (n_processor_id K (nv_env s)) + nss_qpair_base st) = Inr ref"
      "page_command K st 2 p lba c" "lba * unat (nss_lba_size st) + unat (n_page_size K) \<le> length (media_content view s)"
    for p ref lba c
    using read_command [OF s that(1,2,4,5)] unfolding pair_of_processor [OF that(3)] page_of_def .
  show "\<exists>e s'. nvme_run (nvme_pci_iden K) (Some ref) c s = Some (Inr (0, e, s')) \<and> media_ok pair_ok view s' \<and>
      media_left view s' = media_left view s - 1 \<and>
      media_content view s' = blit (media_content view s) (lba * unat (nss_lba_size st)) (n_load K p (unat (n_page_size K)) (nv_env s))"
    if "0 < media_left view s" "buf p" "io_pair_ref (int (n_processor_id K (nv_env s)) + nss_qpair_base st) = Inr ref"
      "page_command K st 1 p lba c" "lba * unat (nss_lba_size st) + unat (n_page_size K) \<le> length (media_content view s)"
    for p ref lba c
    using write_command [OF s that(1,2,4,5)] unfolding pair_of_processor [OF that(3)] page_of_def .
  show "\<exists>p w'. n_pmm_alloc K (n_page_size K) (nv_env s) = (p, w') \<and> p \<noteq> 0 \<and> buf p \<and> media_ok pair_ok view (s\<lparr>nv_env := w'\<rparr>) \<and>
      media_left view (s\<lparr>nv_env := w'\<rparr>) = media_left view s \<and> media_content view (s\<lparr>nv_env := w'\<rparr>) = media_content view s"
  proof -
    obtain p w' where p: "n_pmm_alloc K (n_page_size K) (nv_env s) = (p, w')" "p \<noteq> 0" "buf p" "view w' = Some (Idle, D, n)"
      using pmm_law [OF v] by blast
    with keeps [of w'] v show ?thesis by auto
  qed
  show "media_ok pair_ok view (s\<lparr>nv_env := n_pmm_free K p (nv_env s)\<rparr>) \<and>
      media_left view (s\<lparr>nv_env := n_pmm_free K p (nv_env s)\<rparr>) = media_left view s \<and>
      media_content view (s\<lparr>nv_env := n_pmm_free K p (nv_env s)\<rparr>) = media_content view s" for p
    by (rule keeps) (rule pmm_free_law)
  show "media_ok pair_ok view (s\<lparr>nv_env := w'\<rparr>) \<and> media_left view (s\<lparr>nv_env := w'\<rparr>) = media_left view s \<and>
      media_content view (s\<lparr>nv_env := w'\<rparr>) = media_content view s \<and>
      n_load K p (unat (n_page_size K)) w' = n_load K p (unat (n_page_size K)) (nv_env s)"
    if "n_page_alloc K (nv_env s) = (m, w')" for m w' p
    using keeps [of w'] page_law [OF _ that] v unfolding page_of_def by blast
  show "media_ok pair_ok view (s\<lparr>nv_env := n_page_free K m (nv_env s)\<rparr>) \<and>
      media_left view (s\<lparr>nv_env := n_page_free K m (nv_env s)\<rparr>) = media_left view s \<and>
      media_content view (s\<lparr>nv_env := n_page_free K m (nv_env s)\<rparr>) = media_content view s \<and>
      n_load K p (unat (n_page_size K)) (n_page_free K m (nv_env s)) = n_load K p (unat (n_page_size K)) (nv_env s)" for m p
    using keeps [of "n_page_free K m (nv_env s)"] page_free_law v unfolding page_of_def by blast
  show "media_ok pair_ok view (s\<lparr>nv_env := n_store K (p + word_of_nat k) bs (nv_env s)\<rparr>) \<and>
      media_left view (s\<lparr>nv_env := n_store K (p + word_of_nat k) bs (nv_env s)\<rparr>) = media_left view s \<and>
      media_content view (s\<lparr>nv_env := n_store K (p + word_of_nat k) bs (nv_env s)\<rparr>) = media_content view s \<and>
      n_load K p (unat (n_page_size K)) (n_store K (p + word_of_nat k) bs (nv_env s)) =
        blit (n_load K p (unat (n_page_size K)) (nv_env s)) k bs"
    if "buf p" "k + length bs \<le> unat (n_page_size K)" for p k bs
    using keeps [of "n_store K (p + word_of_nat k) bs (nv_env s)"] store_law [OF _ that] v unfolding page_of_def by blast
next
  show "n_load K (p + word_of_nat k) n w = bytes_at k n (n_load K p (unat (n_page_size K)) w)"
    if "buf p" "k + n \<le> unat (n_page_size K)" for p k n w
    using load_slice [OF that] by (simp add: page_of_def)
  show "length (n_load K p n w) = n" for p n w by (fact load_length)
  show "p \<noteq> 0" if "buf p" for p using that by (rule buf_nonzero)
qed

context nvme_controller
begin

lemmas transfer_read = media.read_ok

lemmas transfer_write = media.write_ok

end

end
