(* ===== verification/Nvme_Sim.thy ===== *)
theory Nvme_Sim
  imports Nvme_Controller Sim_Kernel
begin

text \<open>
  A controller and its host memory, on which the contract of \<open>Nvme_Controller\<close> holds: one I/O queue of 64
  commands and 256 completions, a page of data, a disk of 512-byte blocks.
\<close>

section \<open>Encodings\<close>

lemma and3: "(x :: 'a::len word) AND 3 = take_bit 2 x"
  by (simp add: take_bit_eq_mask mask_eq_exp_minus_1)

lemma two_bits: "x < 4 \<Longrightarrow> take_bit 2 (x :: u8) = x"
  by (simp add: word_unat_eq_iff unsigned_take_bit_eq take_bit_nat_eq_self word_less_nat_alt)

lemma flags_byte:
  assumes "f < 4" and "p < 4"
  defines "b \<equiv> (f AND 3) OR push_bit 6 (p AND 3) :: u8"
  shows "b AND 3 = f" and "drop_bit 6 b = p"
proof -
  have f: "f AND 3 = f" "p AND 3 = p" using assms two_bits by (simp_all add: and3)
  have nb: "bit f n \<Longrightarrow> n < 2" for n
    using two_bits [OF assms(1)] by (metis bit_take_bit_iff)
  have npb: "bit p n \<Longrightarrow> n < 2" for n
    using two_bits [OF assms(2)] by (metis bit_take_bit_iff)
  show "b AND 3 = f"
    unfolding b_def f unfolding and3 by (rule bit_word_eqI) (use nb in \<open>auto simp: bit_simps\<close>)
  show "drop_bit 6 b = p"
    unfolding b_def f by (rule bit_word_eqI) (use nb npb in \<open>force simp: bit_simps\<close>)
qed

lemma le_word_entry1: "(le_word [b] :: u8) = b"
  by (simp add: le_word_def)

lemma two_first: "bytes_at 0 (Suc 0) ([a, b] @ r) = [a]" "bytes_at (Suc 0) (Suc 0) ([a, b] @ r) = [b]"
  by (simp_all add: bytes_at_def)

lemma le_bytes_all: "bytes_at 0 n (le_bytes n v) = le_bytes n v"
  by (simp add: bytes_at_def)

lemma le_word_small: "v < 256 ^ n \<Longrightarrow> le_word (le_bytes n v) = word_of_nat v"
  by (simp add: le_word_def le_nat_le_bytes)

lemma qs_of_bytes:
  assumes "qs_fuse c < 4" and "qs_psdt c < 4"
  shows "qs_of (qs_bytes c) = c"
proof -
  define b where "b = (qs_fuse c AND 3) OR push_bit 6 (qs_psdt c AND 3)"
  note fl = flags_byte [OF assms, folded b_def]
  show ?thesis
    unfolding qs_of_def qs_bytes_def le_at_def b_def [symmetric]
    by (rule qs_entry.equality)
      (simp_all add: bytes_at_after bytes_at_first two_first le_word_entry1 le_bytes_all fl del: le_bytes.simps append.simps)
qed

lemma qc_of_bytes: "qc_of (qc_bytes (qc_zero\<lparr>qc_cid := x, qc_phase := 1\<rparr>)) = qc_zero\<lparr>qc_cid := x, qc_phase := 1\<rparr>"
  unfolding qc_of_def qc_bytes_def le_at_def qc_zero_def
  by (simp add: bytes_at_after bytes_at_first le_bytes_all le_word_small Let_def del: le_bytes.simps append.simps)

lemma qc_of_blank: "qc_phase (qc_of (replicate 16 0)) = 0"
  by (simp add: qc_of_def le_at_def le_word_def bytes_at_def Let_def numeral_eq_Suc)

section \<open>The world\<close>

text \<open>
  The rings are their bytes with the host's indices (\<open>nw_slot\<close>, \<open>nw_head\<close>) and the controller's (\<open>nw_tail\<close>).
  Addresses: submission ring 0x10000, completion ring 0x11000, data page 0x20000, registers 0x100000.
\<close>

record nvme_world =
  nw_stage :: nvme_stage
  nw_sq :: "u8 list"
  nw_cq :: "u8 list"
  nw_page :: "u8 list"
  nw_disk :: "u8 list"
  nw_slot :: nat
  nw_head :: nat
  nw_tail :: nat
  nw_irq :: bool
  nw_brk :: u64

definition nw_load :: "u64 \<Rightarrow> nat \<Rightarrow> nvme_world \<Rightarrow> u8 list" where
  "nw_load p n w =
     take n ((if 0x20000 \<le> unat p \<and> unat p < 0x21000 then drop (unat p - 0x20000) (nw_page w)
              else if 0x11000 \<le> unat p \<and> unat p < 0x12000 then drop (unat p - 0x11000) (nw_cq w)
              else []) @ replicate n 0)"

text \<open>A store to the page, or the doorbell of queue 1: the controller fetches the command before the new tail.\<close>

definition nw_store :: "u64 \<Rightarrow> u8 list \<Rightarrow> nvme_world \<Rightarrow> nvme_world" where
  "nw_store p bs w =
     (if 0x20000 \<le> unat p \<and> unat p + length bs \<le> 0x21000 then w\<lparr>nw_page := blit (nw_page w) (unat p - 0x20000) bs\<rparr>
      else if p = 0x101008
      then (case nw_stage w of
              Ready ptr \<Rightarrow>
                if le_nat bs = (unat ptr + 1) mod 64
                then w\<lparr>nw_stage := Pending ptr (qs_of (bytes_at (64 * unat ptr) 64 (nw_sq w)))\<rparr> else w
            | _ \<Rightarrow> w)
      else w)"

definition nw_execute :: "qs_entry \<Rightarrow> nvme_world \<Rightarrow> nvme_world" where
  "nw_execute c w =
     (let n = (unat (qs_cdw12 c) + 1) * 512; o' = (unat (qs_cdw10 c) + 2 ^ 32 * unat (qs_cdw11 c)) * 512;
          k = unat (qs_prp1 c) - 0x20000
      in if qs_opcode c = 2 then w\<lparr>nw_page := blit (nw_page w) k (bytes_at o' n (nw_disk w))\<rparr>
         else if qs_opcode c = 1 then w\<lparr>nw_disk := blit (nw_disk w) o' (bytes_at k n (nw_page w))\<rparr>
         else w)"

definition nw_turn :: "nvme_world \<Rightarrow> nvme_world" where
  "nw_turn w =
     (case nw_stage w of
        Pending ptr c \<Rightarrow>
          (nw_execute c w)\<lparr>nw_cq := blit (nw_cq w) (16 * nw_tail w) (qc_bytes (qc_zero\<lparr>qc_cid := qs_cid c, qc_phase := 1\<rparr>)),
             nw_tail := nw_tail w + 1, nw_stage := Done ptr\<rparr>
      | _ \<Rightarrow> w)"

definition nw_ring_take :: "u64 \<Rightarrow> u64 \<Rightarrow> nvme_world \<Rightarrow> u64 \<times> nvme_world" where
  "nw_ring_take rb n w =
     (if rb = 2 then (word_of_nat (nw_head w), w\<lparr>nw_head := (nw_head w + 1) mod 256\<rparr>)
      else (word_of_nat (nw_slot w), w\<lparr>nw_slot := (nw_slot w + 1) mod 64, nw_stage := Ready (word_of_nat (nw_slot w))\<rparr>))"

definition nw_ring_free :: "u64 \<Rightarrow> u64 \<Rightarrow> nvme_world \<Rightarrow> nvme_world" where
  "nw_ring_free rb i w = (if rb = 1 \<and> nw_stage w = Done i then w\<lparr>nw_stage := Idle\<rparr> else w)"

definition nw_bump :: "u64 \<Rightarrow> nvme_world \<Rightarrow> u64 \<times> nvme_world" where
  "nw_bump n w = (nw_brk w, w\<lparr>nw_brk := nw_brk w + n\<rparr>)"

definition sim_nvme :: "nvme_world nvme_kernel" where
  "sim_nvme =
     \<lparr>k_masked_read = masked_read_ref, k_masked_write = masked_write_ref, k_min = min,
      k_align_up = (\<lambda>x a. x + (a - 1) - (x + (a - 1)) mod a), k_atomic_inc = (\<lambda>x. (x + 1, x + 1)), k_std_buff_size = 512,
      k_alloc = nw_bump, k_fresh = (\<lambda>p i. 0), k_free = (\<lambda>p w. w), k_inb = (\<lambda>p w. (0, w)), k_outb = (\<lambda>p b w. w),
      k_vfs_open = (\<lambda>p h w. (0, w)), k_vfs_close = (\<lambda>h w. w), k_vfs_seek = (\<lambda>h o' w. w),
      k_vfs_read = (\<lambda>h a b w. (0, [], w)), k_vfs_write = (\<lambda>h bs a b w. (0, w)),
      n_load = nw_load, n_store = nw_store, n_spin = nw_turn, n_irq_enabled = nw_irq, n_irq_set = (\<lambda>b w. w\<lparr>nw_irq := b\<rparr>),
      n_pmm_alloc = (\<lambda>n w. (0x20000, w)), n_pmm_free = (\<lambda>p w. w), n_page_alloc = (\<lambda>w. (0x30000, w)), n_page_free = (\<lambda>p w. w),
      n_page_size = 4096, n_to_phys = (\<lambda>p. p), n_align_down = (\<lambda>x a. x - x mod a), n_rb_init = (\<lambda>p n sz w. nw_bump 64 w),
      n_rb_base = (\<lambda>rb w. if rb = 2 then 0x11000 else 0x10000), n_rb_objs = (\<lambda>rb w. if rb = 2 then 256 else 64),
      n_rb_idx = (\<lambda>rb w. if rb = 2 then word_of_nat (nw_head w) else word_of_nat (nw_slot w)), n_rb_alloc = nw_ring_take,
      n_rb_write = (\<lambda>rb i bs w. if rb = 1 then w\<lparr>nw_sq := blit (nw_sq w) (64 * unat i) bs\<rparr> else w), n_rb_free = nw_ring_free,
      n_hdr_device = 0, n_bar_is_io = (\<lambda>b. bit b 0), n_pager_attrs = 0, n_pager_map = (\<lambda>a b n f w. (0, w)), n_processors = 1,
      n_processor_id = (\<lambda>w. 0), n_vfs_create = (\<lambda>p w. w)\<rparr>"

section \<open>Its view\<close>

definition nw_sane :: "nvme_world \<Rightarrow> bool" where
  "nw_sane w \<longleftrightarrow> length (nw_sq w) = 4096 \<and> length (nw_cq w) = 4096 \<and> length (nw_page w) = 4096 \<and> nw_slot w < 64 \<and>
     nw_tail w \<le> 256 \<and> drop (16 * nw_tail w) (nw_cq w) = replicate (16 * (256 - nw_tail w)) 0 \<and>
     (case nw_stage w of
        Idle \<Rightarrow> nw_head w = nw_tail w mod 256
      | Ready ptr \<Rightarrow> nw_head w = nw_tail w mod 256 \<and> unat ptr < 64
      | Pending ptr c \<Rightarrow> nw_head w = nw_tail w mod 256
      | Done ptr \<Rightarrow> nw_tail w = nw_head w + 1)"

definition nw_view :: "nvme_world \<Rightarrow> nvme_view option" where
  "nw_view w = (if nw_sane w then Some (nw_stage w, nw_disk w, 256 - nw_tail w) else None)"

definition sim_ns :: ns_state where
  "sim_ns = \<lparr>nss_block_size = 4096, nss_lba_size = 512, nss_meta_follows = False, nss_meta_size = 0, nss_nsze = 64, nss_ncap = 64,
     nss_namespace = 1, nss_nvm_set = 0, nss_command_set = 0, nss_qpair_base = 0, nss_qpair_count = 1\<rparr>"

lemma nw_viewD:
  assumes "nw_view w = Some (stage, D, n)"
  shows "nw_sane w" and "nw_stage w = stage" and "nw_disk w = D" and "n = 256 - nw_tail w"
  using assms by (auto simp: nw_view_def split: if_splits)

lemma nw_page_load:
  "length (nw_page w) = 4096 \<Longrightarrow> k + n \<le> 4096 \<Longrightarrow> nw_load (0x20000 + word_of_nat k) n w = bytes_at k n (nw_page w)"
  by (cases "n = 0") (auto simp: nw_load_def bytes_at_def unat_word_ariths unat_of_nat)

lemma nw_page_load0: "length (nw_page w) = 4096 \<Longrightarrow> nw_load 0x20000 4096 w = nw_page w"
  using nw_page_load [of w 0 4096] by (simp add: bytes_at_def)

lemma nw_cq_load: "length (nw_cq w) = 4096 \<Longrightarrow> i < 256 \<Longrightarrow> nw_load (0x11000 + 16 * word_of_nat i) 16 w = bytes_at (16 * i) 16 (nw_cq w)"
  by (simp add: nw_load_def bytes_at_def unat_word_ariths unat_of_nat)

lemma nw_load_cong: "nw_page w' = nw_page w \<Longrightarrow> nw_cq w' = nw_cq w \<Longrightarrow> nw_load p n w' = nw_load p n w"
  by (simp add: nw_load_def)

lemma sim_sel:
  "n_load sim_nvme = nw_load" "n_store sim_nvme = nw_store" "n_spin sim_nvme = nw_turn" "n_page_size sim_nvme = 4096"
  "n_rb_alloc sim_nvme = nw_ring_take" "n_rb_free sim_nvme = nw_ring_free" "n_rb_base sim_nvme 2 w = 0x11000"
  "n_rb_idx sim_nvme 2 w = word_of_nat (nw_head w)" "n_rb_objs sim_nvme 1 w = 64" "n_rb_objs sim_nvme 2 w = 256"
  "n_rb_write sim_nvme 1 i bs w = w\<lparr>nw_sq := blit (nw_sq w) (64 * unat i) bs\<rparr>" "n_irq_set sim_nvme b w = w\<lparr>nw_irq := b\<rparr>"
  "n_to_phys sim_nvme p = p" "k_masked_read sim_nvme = masked_read_ref" "n_processor_id sim_nvme w = 0"
  "n_pmm_alloc sim_nvme n w = (0x20000, w)" "n_pmm_free sim_nvme p w = w" "n_page_alloc sim_nvme w = (0x30000, w)"
  "n_page_free sim_nvme p w = w" "k_min sim_nvme = min" "n_align_down sim_nvme x a = x - x mod a"
  "k_alloc sim_nvme = nw_bump" "k_free sim_nvme p w = w" "n_rb_init sim_nvme p n sz w = nw_bump 64 w" "k_fresh sim_nvme p j = 0"
  "n_processors sim_nvme = 1" "n_vfs_create sim_nvme path w = w"
  by (simp_all add: sim_nvme_def)

lemma unat_page: "unat (n_page_size sim_nvme) = 4096"
  by (simp add: sim_sel)

lemma page_of_sim: "page_of sim_nvme p w = nw_load p 4096 w"
  unfolding page_of_def unat_page unfolding sim_sel ..

lemma page_of_cong: "nw_page w' = nw_page w \<Longrightarrow> nw_cq w' = nw_cq w \<Longrightarrow> page_of sim_nvme p w' = page_of sim_nvme p w"
  unfolding page_of_sim by (rule nw_load_cong)

lemma nw_page_of: "length (nw_page w) = 4096 \<Longrightarrow> page_of sim_nvme 0x20000 w = nw_page w"
  unfolding page_of_sim by (rule nw_page_load0)

lemma nw_cq_next:
  assumes "nw_sane w" and "nw_head w < 256"
  shows "cq_next sim_nvme 2 w = qc_of (bytes_at (16 * nw_head w) 16 (nw_cq w))"
  unfolding cq_next_def cq_entry_def sim_sel using assms by (subst nw_cq_load) (simp_all add: nw_sane_def)

section \<open>One turn of the controller\<close>

lemma nw_turn_pending:
  assumes v: "nw_view w = Some (Pending ptr c, D, Suc n)"
    and e: "nw_execute c w = w\<lparr>nw_page := pg, nw_disk := D'\<rparr>" and pg: "length pg = 4096"
  shows "completes_at sim_nvme 2 (qs_cid c) w 1 \<and> nw_view (nw_turn w) = Some (Done ptr, D', n) \<and> nw_page (nw_turn w) = pg"
proof -
  have s: "nw_sane w" "nw_stage w = Pending ptr c" "Suc n = 256 - nw_tail w" using nw_viewD [OF v] by simp_all
  have t: "nw_tail w < 256" using s(3) by simp
  have h: "nw_head w = nw_tail w" using s(1,2) t by (simp add: nw_sane_def)
  have lens: "length (nw_sq w) = 4096" "length (nw_cq w) = 4096" "nw_slot w < 64"
    "drop (16 * nw_tail w) (nw_cq w) = replicate (16 * (256 - nw_tail w)) 0"
    using s(1) by (simp_all add: nw_sane_def)
  define q where "q = qc_zero\<lparr>qc_cid := qs_cid c, qc_phase := 1\<rparr>"
  have t': "nw_turn w = w\<lparr>nw_page := pg, nw_disk := D', nw_cq := blit (nw_cq w) (16 * nw_tail w) (qc_bytes q),
      nw_tail := nw_tail w + 1, nw_stage := Done ptr\<rparr>"
    using s(2) by (simp add: nw_turn_def e q_def)
  have fit: "16 * nw_tail w + length (qc_bytes q) \<le> length (nw_cq w)" using t lens by simp
  have "drop (16 * (nw_tail w + 1)) (blit (nw_cq w) (16 * nw_tail w) (qc_bytes q)) = drop 16 (drop (16 * nw_tail w) (nw_cq w))"
    using fit by (simp add: blit_def add.commute)
  also have "\<dots> = replicate (16 * (256 - (nw_tail w + 1))) 0" unfolding lens(4) using t by simp
  finally have rest: "drop (16 * (nw_tail w + 1)) (blit (nw_cq w) (16 * nw_tail w) (qc_bytes q)) = replicate (16 * (256 - (nw_tail w + 1))) 0" .
  have sane: "nw_sane (nw_turn w)"
    unfolding t' nw_sane_def using rest lens t h pg fit by simp
  have "bytes_at (16 * nw_tail w) 16 (nw_cq w) = replicate 16 0"
    unfolding bytes_at_def lens(4) using t by simp
  then have before: "qc_phase (cq_next sim_nvme 2 w) = 0"
    using nw_cq_next [OF s(1)] h t qc_of_blank by simp
  have "bytes_at (16 * nw_tail w) 16 (nw_cq (nw_turn w)) = qc_bytes q"
    using bytes_at_blit_same [OF fit] by (simp add: t')
  then have after: "cq_next sim_nvme 2 (nw_turn w) = q"
    using nw_cq_next [OF sane] h t qc_of_bytes [of "qs_cid c"] by (simp add: t' q_def)
  have "completes_at sim_nvme 2 (qs_cid c) w 1"
    using before after by (simp add: completes_at_def sim_sel(3) q_def qc_zero_def)
  moreover have "nw_view (nw_turn w) = Some (Done ptr, D', n)"
    using sane s(3) by (simp add: nw_view_def) (simp add: t')
  ultimately show ?thesis by (simp add: t')
qed

lemma sim_command:
  assumes "page_command sim_nvme sim_ns oc 0x20000 lba c"
  shows "nw_execute c w =
    (if oc = 2 then w\<lparr>nw_page := blit (nw_page w) 0 (bytes_at (lba * 512) 4096 (nw_disk w))\<rparr>
     else if oc = 1 then w\<lparr>nw_disk := blit (nw_disk w) (lba * 512) (bytes_at 0 4096 (nw_page w))\<rparr> else w)"
proof -
  have c: "qs_opcode c = oc" "qs_prp1 c = 0x20000" "unat (qs_cdw10 c) + 2 ^ 32 * unat (qs_cdw11 c) = lba"
    using assms unfolding page_command_def sim_sel by blast+
  have n: "(unat (qs_cdw12 c) + 1) * 512 = 4096"
  proof -
    have "unat (qs_cdw12 c) + 1 = 8"
      using assms unfolding page_command_def unat_page by (simp add: sim_ns_def)
    then show ?thesis by simp
  qed
  show ?thesis unfolding nw_execute_def Let_def n c by simp
qed

lemma take_padded:
  assumes "k + n \<le> m"
  shows "take n (drop k xs @ replicate n z) = bytes_at k n (take m (xs @ replicate m z))"
proof -
  have "bytes_at k n (take m (xs @ replicate m z)) = take n (drop k (xs @ replicate m z))"
    using assms by (simp add: bytes_at_def drop_take min_def del: drop_append take_append)
  also have "\<dots> = take n (drop k xs) @ take (n - (length xs - k)) (replicate (m - (k - length xs)) z)" by simp
  also have "take (n - (length xs - k)) (replicate (m - (k - length xs)) z) = take (n - (length xs - k)) (replicate n z)"
    using assms by simp
  finally show ?thesis by simp
qed

lemma nw_load_slice:
  assumes "k + n \<le> 4096"
  shows "nw_load (0x20000 + word_of_nat k) n w = bytes_at k n (nw_load 0x20000 4096 w)"
proof (cases "n = 0")
  case False
  then have u: "unat (0x20000 + word_of_nat k :: u64) = 0x20000 + k" using assms by (simp add: unat_word_ariths unat_of_nat)
  have "nw_load (0x20000 + word_of_nat k) n w = take n (drop k (nw_page w) @ replicate n 0)"
    unfolding nw_load_def u using assms False by (simp del: take_append)
  moreover have "nw_load 0x20000 4096 w = take 4096 (nw_page w @ replicate 4096 0)"
    by (simp add: nw_load_def del: take_append)
  ultimately show ?thesis using take_padded [OF assms] by metis
qed (simp add: nw_load_def)

lemma nw_view_irq: "nw_view (w\<lparr>nw_irq := b\<rparr>) = nw_view w"
proof -
  have "nw_sane (w\<lparr>nw_irq := b\<rparr>) = nw_sane w" by (cases "nw_stage w") (simp_all add: nw_sane_def)
  then show ?thesis by (simp add: nw_view_def)
qed

interpretation sim_ctl: nvme_controller sim_nvme sim_ns nw_view "0x100000" 1 2 0 1 64 256 0 "\<lambda>p. p = 0x20000"
proof unfold_locales
  show "nss_block_size sim_ns = n_page_size sim_nvme" "0 < unat (nss_lba_size sim_ns)"
    "unat (nss_lba_size sim_ns) dvd unat (n_page_size sim_nvme)" "0 < unat (n_page_size sim_nvme)"
    "unat (n_page_size sim_nvme) < 2 ^ 31"
    unfolding unat_page by (simp_all add: sim_ns_def sim_sel)
  show "n_align_down sim_nvme x a = x - x mod a" for x a by (fact sim_sel)
  show "k_min sim_nvme = min" by (fact sim_sel)
  show "(1 :: int) \<le> 1" "(1 :: int) < 64" "(0 :: nat) < 64" "(64 :: nat) \<le> 256" "(0 :: nat) < 256" "(256 :: nat) < 2 ^ 31"
    by simp_all
  show "0 \<le> int 0 + nss_qpair_base sim_ns" by (simp add: sim_ns_def)
  show "n_processor_id sim_nvme w = 0" for w by (fact sim_sel)
  show "n_rb_objs sim_nvme 1 w = word_of_nat 64" "n_rb_objs sim_nvme 2 w = word_of_nat 256" for w by (simp_all add: sim_sel)
  show "k_masked_read sim_nvme (reg64 sim_nvme 0x100000 CAP w) 32 15 = 0" for w
  proof -
    have "reg64 sim_nvme 0x100000 CAP w = 0"
      by (simp add: reg64_def CAP_def sim_sel nw_load_def le_word_def le_nat_zeros)
    then show ?thesis by (simp add: sim_sel masked_read_ref_def)
  qed
  fix w
  show "nw_view (n_irq_set sim_nvme b w) = nw_view w \<and> page_of sim_nvme p (n_irq_set sim_nvme b w) = page_of sim_nvme p w" for b p
    unfolding sim_sel by (intro conjI page_of_cong nw_view_irq) simp_all
  show "nw_view w' = Some (Ready ptr, D, n) \<and> unat ptr < 64 \<and> page_of sim_nvme p w' = page_of sim_nvme p w"
    if v: "nw_view w = Some (Idle, D, n)" and a: "n_rb_alloc sim_nvme 1 1 w = (ptr, w')" for D n ptr w' p
  proof -
    note s = nw_viewD [OF v]
    have e: "ptr = word_of_nat (nw_slot w)" "w' = w\<lparr>nw_slot := (nw_slot w + 1) mod 64, nw_stage := Ready ptr\<rparr>"
      using a unfolding sim_sel nw_ring_take_def by auto
    have "nw_slot w < 64" using s by (simp add: nw_sane_def)
    then have p: "unat ptr < 64" by (simp add: e(1) unat_of_nat)
    have "nw_sane w'" using s p unfolding e(2) by (simp add: nw_sane_def)
    then show ?thesis using s p page_of_cong [of w' w p] by (simp add: nw_view_def e(2))
  qed
  show "nw_view w' = Some (Pending ptr c, D, n) \<and> page_of sim_nvme p w' = page_of sim_nvme p w"
    if v: "nw_view w = Some (Ready ptr, D, n)" and c: "qs_fuse c < 4" "qs_psdt c < 4" and
      e: "w' = n_store sim_nvme (0x100000 + 4096 + word_of_int (2 * 1) * push_bit (unat (0 :: u64)) 4)
        (le_bytes 4 ((unat ptr + 1) mod 64)) (n_rb_write sim_nvme 1 ptr (qs_bytes c) w)" for ptr D n c w' p
  proof -
    note s = nw_viewD [OF v]
    have ptr: "unat ptr < 64" and l: "length (nw_sq w) = 4096" using s by (simp_all add: nw_sane_def)
    have fit: "64 * unat ptr + length (qs_bytes c) \<le> length (nw_sq w)" using ptr l by simp
    have tail: "le_nat (le_bytes 4 ((unat ptr + 1) mod 64)) = (unat ptr + 1) mod 64"
      using mod_less_divisor [of 64 "unat ptr + 1"] by (simp add: le_nat_le_bytes del: le_bytes.simps)
    have db: "0x100000 + 4096 + word_of_int (2 * 1) * push_bit (unat (0 :: u64)) 4 = (0x101008 :: u64)" by simp
    have e': "w' = w\<lparr>nw_sq := blit (nw_sq w) (64 * unat ptr) (qs_bytes c), nw_stage := Pending ptr c\<rparr>"
      using s tail bytes_at_blit_same [OF fit] qs_of_bytes [OF c]
      unfolding e db sim_sel nw_store_def by (simp del: le_bytes.simps)
    have "nw_sane w'" using s fit unfolding e' by (simp add: nw_sane_def)
    then show ?thesis using s page_of_cong [of w' w p] by (simp add: nw_view_def e')
  qed
  show "\<exists>k. completes_at sim_nvme 2 (qs_cid c) w k \<and> nw_view ((n_spin sim_nvme ^^ k) w) = Some (Done ptr, D, n) \<and>
      page_of sim_nvme p ((n_spin sim_nvme ^^ k) w) = bytes_at (lba * unat (nss_lba_size sim_ns)) (unat (n_page_size sim_nvme)) D"
    if v: "nw_view w = Some (Pending ptr c, D, Suc n)" and c: "page_command sim_nvme sim_ns 2 p lba c" and p: "p = 0x20000"
      and fit: "lba * unat (nss_lba_size sim_ns) + unat (n_page_size sim_nvme) \<le> length D" for ptr c D n p lba
  proof -
    note s = nw_viewD [OF v]
    have L: "unat (nss_lba_size sim_ns) = 512" by (simp add: sim_ns_def)
    let ?pg = "bytes_at (lba * 512) 4096 D"
    have l: "length ?pg = 4096" using fit unfolding L unat_page by simp
    have lp: "length (nw_page w) = 4096" using s by (simp add: nw_sane_def)
    have "blit (nw_page w) 0 ?pg = ?pg" using l lp by (simp add: blit_def)
    then have "nw_execute c w = w\<lparr>nw_page := ?pg, nw_disk := D\<rparr>"
      using sim_command [OF c [unfolded p]] s by auto
    from nw_turn_pending [OF v this l] have t: "completes_at sim_nvme 2 (qs_cid c) w 1"
      "nw_view (nw_turn w) = Some (Done ptr, D, n)" "nw_page (nw_turn w) = ?pg" by blast+
    have "page_of sim_nvme p (nw_turn w) = ?pg" unfolding p using nw_page_of t(3) l by simp
    then show ?thesis unfolding L unat_page using t by (intro exI [of _ 1]) (simp add: sim_sel(3))
  qed
  show "\<exists>k. completes_at sim_nvme 2 (qs_cid c) w k \<and>
      nw_view ((n_spin sim_nvme ^^ k) w) = Some (Done ptr, blit D (lba * unat (nss_lba_size sim_ns)) (page_of sim_nvme p w), n)"
    if v: "nw_view w = Some (Pending ptr c, D, Suc n)" and c: "page_command sim_nvme sim_ns 1 p lba c" and p: "p = 0x20000"
      and fit: "lba * unat (nss_lba_size sim_ns) + unat (n_page_size sim_nvme) \<le> length D" for ptr c D n p lba
  proof -
    note s = nw_viewD [OF v]
    have L: "unat (nss_lba_size sim_ns) = 512" by (simp add: sim_ns_def)
    have lp: "length (nw_page w) = 4096" using s by (simp add: nw_sane_def)
    then have b: "bytes_at 0 4096 (nw_page w) = nw_page w" by (simp add: bytes_at_def)
    have "nw_execute c w = w\<lparr>nw_page := nw_page w, nw_disk := blit D (lba * 512) (nw_page w)\<rparr>"
      using sim_command [OF c [unfolded p]] s b by auto
    from nw_turn_pending [OF v this lp] have t: "completes_at sim_nvme 2 (qs_cid c) w 1"
      "nw_view (nw_turn w) = Some (Done ptr, blit D (lba * 512) (nw_page w), n)" by blast+
    then show ?thesis unfolding L p nw_page_of [OF lp] by (intro exI [of _ 1]) (simp add: sim_sel(3))
  qed
  show "unat i < 256 \<and> nw_view w' = Some (Idle, D, n) \<and> page_of sim_nvme p w' = page_of sim_nvme p w"
    if v: "nw_view w = Some (Done ptr, D, n)" and a: "n_rb_alloc sim_nvme 2 1 w = (i, w1)" and
      e: "w' = n_rb_free sim_nvme 1 ptr (n_store sim_nvme (0x100000 + 4096 + word_of_int (2 * 1 + 1) * push_bit (unat (0 :: u64)) 4)
        (le_bytes 4 ((unat i + 1) mod 256)) w1)" for ptr D n i w1 w' p
  proof -
    note s = nw_viewD [OF v]
    have h: "nw_head w < 256" "nw_tail w = nw_head w + 1" using s by (simp_all add: nw_sane_def)
    have i: "unat i = nw_head w" and w1: "w1 = w\<lparr>nw_head := (nw_head w + 1) mod 256\<rparr>"
      using a h unfolding sim_sel nw_ring_take_def by (auto simp: unat_of_nat)
    have db: "0x100000 + 4096 + word_of_int (2 * 1 + 1) * push_bit (unat (0 :: u64)) 4 = (0x10100C :: u64)" by simp
    have e': "w' = w\<lparr>nw_head := (nw_head w + 1) mod 256, nw_stage := Idle\<rparr>"
      using s unfolding e db sim_sel nw_store_def w1 by (simp add: nw_ring_free_def del: le_bytes.simps)
    have "nw_sane w'" using s h unfolding e' by (simp add: nw_sane_def)
    then show ?thesis using s h i page_of_cong [of w' w p] by (simp add: nw_view_def e')
  qed
  show "\<exists>p w'. n_pmm_alloc sim_nvme (n_page_size sim_nvme) w = (p, w') \<and> p \<noteq> 0 \<and> p = 0x20000 \<and> nw_view w' = Some (Idle, D, n)"
    if "nw_view w = Some (Idle, D, n)" for D n
    using that by (simp add: sim_sel)
  show "nw_view (n_pmm_free sim_nvme p w) = Some (Idle, D, n)" if "nw_view w = Some (Idle, D, n)" for D n p
    using that by (simp add: sim_sel)
  show "nw_view w' = Some (Idle, D, n) \<and> page_of sim_nvme p w' = page_of sim_nvme p w"
    if "nw_view w = Some (Idle, D, n)" "n_page_alloc sim_nvme w = (m, w')" for D n m w' p
    using that by (simp add: sim_sel)
  show "nw_view (n_page_free sim_nvme m w) = Some (Idle, D, n) \<and> page_of sim_nvme p (n_page_free sim_nvme m w) = page_of sim_nvme p w"
    if "nw_view w = Some (Idle, D, n)" for D n m p
    using that by (simp add: sim_sel)
  show "nw_view (n_store sim_nvme (p + word_of_nat k) bs w) = Some (Idle, D, n) \<and>
      page_of sim_nvme p (n_store sim_nvme (p + word_of_nat k) bs w) = blit (page_of sim_nvme p w) k bs"
    if v: "nw_view w = Some (Idle, D, n)" and p: "p = 0x20000" and k: "k + length bs \<le> unat (n_page_size sim_nvme)" for D n p k bs
  proof -
    note s = nw_viewD [OF v]
    have k': "k + length bs \<le> 4096" using k unfolding unat_page .
    have lp: "length (nw_page w) = 4096" using s by (simp add: nw_sane_def)
    have u: "unat (0x20000 + word_of_nat k :: u64) = 0x20000 + k" using k' by (simp add: unat_word_ariths unat_of_nat)
    have e: "n_store sim_nvme (p + word_of_nat k) bs w = w\<lparr>nw_page := blit (nw_page w) k bs\<rparr>"
      unfolding sim_sel nw_store_def p u using k' by simp
    have l: "length (blit (nw_page w) k bs) = 4096" using k' lp by simp
    have "nw_sane (w\<lparr>nw_page := blit (nw_page w) k bs\<rparr>)" using s l by (simp add: nw_sane_def)
    then show ?thesis unfolding e using s l lp by (simp add: nw_view_def p nw_page_of)
  qed
next
  show "n_load sim_nvme (p + word_of_nat k) n w = bytes_at k n (page_of sim_nvme p w)"
    if "p = 0x20000" "k + n \<le> unat (n_page_size sim_nvme)" for p k n w
    using that nw_load_slice unfolding unat_page page_of_sim by (simp add: sim_sel(1))
  show "length (n_load sim_nvme p n w) = n" for p n w
    by (simp add: sim_sel nw_load_def)
  show "p \<noteq> 0" if "p = 0x20000" for p :: u64 using that by simp
qed

end
