(* ===== verification/Nvme_Props.thy ===== *)
theory Nvme_Props
  imports Nvme_Sim
begin

text \<open>
  Properties of the NVMe drivers: transfers of a namespace through the PCI transport, the I/O queue pairs,
  and where bringing up a controller goes wrong. The witnesses use the controller of \<open>Nvme_Sim\<close>.
\<close>

section \<open>Transfers\<close>

text \<open>A transfer of \<open>n\<close> bytes at \<open>x\<close> stays in the namespace, counting the whole pages it touches.\<close>

definition transfer_fits :: "('w, 'z) nvme_kernel_scheme \<Rightarrow> ns_state \<Rightarrow> u8 list \<Rightarrow> nat \<Rightarrow> nat \<Rightarrow> bool" where
  "transfer_fits K st D x n \<longleftrightarrow>
     (let P = unat (n_page_size K); L = unat (nss_lba_size st)
      in x + n < 2 ^ 63 \<and> length D \<le> 2 ^ 31 * L \<and> x + n \<le> length D \<and> x - x mod L + page_count P L x n * P \<le> length D)"

lemmas transfer_fitsD = transfer_fits_def [unfolded Let_def, THEN iffD1]

text \<open>The first piece is shorter than a page.\<close>

definition starts_within_page :: "('w, 'z) nvme_kernel_scheme \<Rightarrow> ns_state \<Rightarrow> nat \<Rightarrow> nat \<Rightarrow> bool" where
  "starts_within_page K st x n \<longleftrightarrow> x mod unat (nss_lba_size st) \<noteq> 0 \<or> n < unat (n_page_size K)"

definition transfer_pages :: "('w, 'z) nvme_kernel_scheme \<Rightarrow> ns_state \<Rightarrow> nat \<Rightarrow> nat \<Rightarrow> nat" where
  "transfer_pages K st x n = page_count (unat (n_page_size K)) (unat (nss_lba_size st)) x n"

definition demo_io :: "u8 list \<Rightarrow> nvme_world nvme_sys" where
  "demo_io D = \<lparr>nv_pci = \<lparr>pci_props = 0x100000, pci_exposed = 0, pci_adminq = \<lparr>qp_subq = 0, qp_cmpq = 0, qp_id = 0, qp_phase = 1\<rparr>\<rparr>,
     nv_core = (blank_driver 0x500 0x600)\<lparr>nd_qs := [\<lparr>qp_subq = 1, qp_cmpq = 2, qp_id = 1, qp_phase = 1\<rparr>]\<rparr>,
     nv_env = \<lparr>nw_stage = Idle, nw_sq = replicate 4096 0, nw_cq = replicate 4096 0, nw_page = replicate 4096 0, nw_disk = D,
       nw_slot = 0, nw_head = 0, nw_tail = 0, nw_irq = True, nw_brk = 0x700\<rparr>\<rparr>"

abbreviation "demo_ready \<equiv> queue_ready sim_ns 0x100000 1 2 1 0"

lemma demo_view: "nw_view (nv_env (demo_io D)) = Some (Idle, D, 256)"
  by (simp add: nw_view_def nw_sane_def demo_io_def)

lemma demo_ok: "media_ok demo_ready nw_view (demo_io D)"
  unfolding media_ok_def demo_view by (simp add: queue_ready_def demo_io_def own_pair_def sim_ns_def blank_driver_def get_pair_def)

lemma demo_content: "media_content nw_view (demo_io D) = D" "media_left nw_view (demo_io D) = 256"
  unfolding media_content_def media_left_def demo_view by simp_all

text \<open>
  C5 (nvme_read_correct): on a controller that follows the protocol of its queue pair, a read through the
  namespace driver and the PCI transport returns, takes the requested bytes of the namespace to the front of
  the caller's buffer, changes nothing else there or on the namespace, and reports them all, as long as
  the completion ring has an entry for each page.
\<close>

theorem nvme_read_correct:
  assumes ctl: "nvme_controller K st view props sq cq dstrd ident depth clen cpu buf"
    and ok: "media_ok (queue_ready st props sq cq ident cpu) view s" and D: "media_content view s = D"
    and fits: "transfer_fits K st D (unat off) (unat (sz * cnt))" and room: "unat (sz * cnt) \<le> length buffer"
    and left: "transfer_pages K st (unat off) (unat (sz * cnt)) \<le> media_left view s"
  shows "\<exists>s'. read_nvme_namespace K (nvme_pci_iden K) buffer sz cnt off (Some st) s =
      Some (Inr (sz * cnt, blit buffer 0 (bytes_at (unat off) (unat (sz * cnt)) D), s')) \<and>
    media_ok (queue_ready st props sq cq ident cpu) view s' \<and> media_content view s' = D"
proof -
  note f = fits [THEN transfer_fitsD]
  show ?thesis
    by (rule nvme_controller.transfer_read [OF ctl ok D _ room, of off])
      (use f left in \<open>auto simp: transfer_pages_def\<close>)
qed

lemma demo_fits: "transfer_fits sim_nvme sim_ns (replicate 5120 x) 700 600" "starts_within_page sim_nvme sim_ns 700 600"
  unfolding transfer_fits_def starts_within_page_def Let_def unat_page by (simp_all add: sim_ns_def page_count_def)

lemma demo_left: "transfer_pages sim_nvme sim_ns 700 600 = 1"
  unfolding transfer_pages_def unat_page by (simp add: sim_ns_def page_count_def)

theorem nvme_read_correct_witness:
  "\<exists>s'. read_nvme_namespace sim_nvme (nvme_pci_iden sim_nvme) (replicate 600 0) 1 600 700 (Some sim_ns) (demo_io (replicate 5120 7)) =
    Some (Inr (600, replicate 600 7, s'))"
  using nvme_read_correct [where off = 700 and sz = 1 and cnt = 600 and buffer = "replicate 600 0" and D = "replicate 5120 7",
      OF sim_ctl.nvme_controller_axioms demo_ok demo_content(1)] demo_fits demo_left demo_content
  by (auto simp: bytes_at_def blit_def)

text \<open>
  C6 (nvme_write_then_read): on the same conditions, and when the first piece is shorter than a page, a
  write returns, changes exactly the bytes written on the namespace, and a read then delivers them.
\<close>

theorem nvme_write_then_read:
  assumes ctl: "nvme_controller K st view props sq cq dstrd ident depth clen cpu buf"
    and ok: "media_ok (queue_ready st props sq cq ident cpu) view s" and D: "media_content view s = D"
    and fits: "transfer_fits K st D (unat off) (unat (sz * cnt))"
    and room: "unat (sz * cnt) \<le> length src" "unat (sz * cnt) \<le> length buffer"
    and part: "starts_within_page K st (unat off) (unat (sz * cnt))"
    and left: "3 * transfer_pages K st (unat off) (unat (sz * cnt)) \<le> media_left view s"
  shows "\<exists>s1 s2. write_nvme_namespace K (nvme_pci_iden K) src sz cnt off (Some st) s = Some (Inr (sz * cnt, s1)) \<and>
    media_content view s1 = blit D (unat off) (bytes_at 0 (unat (sz * cnt)) src) \<and>
    read_nvme_namespace K (nvme_pci_iden K) buffer sz cnt off (Some st) s1 =
      Some (Inr (sz * cnt, blit buffer 0 (bytes_at 0 (unat (sz * cnt)) src), s2))"
proof -
  let ?n = "unat (sz * cnt)"
  note f = fits [THEN transfer_fitsD]
  obtain s1 where w: "write_nvme_namespace K (nvme_pci_iden K) src sz cnt off (Some st) s = Some (Inr (sz * cnt, s1))"
    "media_ok (queue_ready st props sq cq ident cpu) view s1"
    "media_content view s1 = blit D (unat off) (bytes_at 0 ?n src)"
    "media_left view s \<le> media_left view s1 + 2 * transfer_pages K st (unat off) ?n"
    by (rule nvme_controller.transfer_write [OF ctl ok D _ room(1), of off])
      (use f part left in \<open>auto simp: transfer_pages_def starts_within_page_def\<close>)
  let ?D = "blit D (unat off) (bytes_at 0 ?n src)"
  have lD: "length ?D = length D" using f room(1) by simp
  have got: "bytes_at (unat off) ?n ?D = bytes_at 0 ?n src"
    using bytes_at_blit_same [of "unat off" "bytes_at 0 ?n src" D] f room(1) by simp
  have "transfer_fits K st ?D (unat off) ?n" using fits unfolding transfer_fits_def lD .
  moreover have "transfer_pages K st (unat off) ?n \<le> media_left view s1" using w(4) left by linarith
  ultimately obtain s2 where "read_nvme_namespace K (nvme_pci_iden K) buffer sz cnt off (Some st) s1 =
      Some (Inr (sz * cnt, blit buffer 0 (bytes_at (unat off) ?n ?D), s2))"
    using nvme_controller.transfer_read [OF ctl w(2,3) _ room(2), of off] by (auto simp: transfer_fits_def transfer_pages_def Let_def)
  then show ?thesis using w(1,3) got by auto
qed

theorem nvme_write_then_read_witness:
  "\<exists>s1 s2. write_nvme_namespace sim_nvme (nvme_pci_iden sim_nvme) (replicate 600 9) 1 600 700 (Some sim_ns) (demo_io (replicate 5120 7)) =
      Some (Inr (600, s1)) \<and>
    read_nvme_namespace sim_nvme (nvme_pci_iden sim_nvme) (replicate 600 0) 1 600 700 (Some sim_ns) s1 =
      Some (Inr (600, replicate 600 9, s2))"
  using nvme_write_then_read [where off = 700 and sz = 1 and cnt = 600 and src = "replicate 600 9" and buffer = "replicate 600 0"
      and D = "replicate 5120 7", OF sim_ctl.nvme_controller_axioms demo_ok demo_content(1)] demo_fits demo_left demo_content
  by (auto simp: bytes_at_def blit_def)

text \<open>
  C10 (nvme_aligned_write_faults): a write of a page or more that starts at a block boundary copies its first
  page to \<open>NULL\<close>: the page buffer is only allocated by a read or write of the page, and neither has
  happened.
\<close>

theorem nvme_aligned_write_faults:
  assumes laws: "k_min K = min" "\<And>x a. n_align_down K x a = x - x mod a"
    and sizes: "nss_block_size st = n_page_size K" "n_page_size K \<noteq> 0" "nss_lba_size st \<noteq> 0"
    and whole: "n_page_size K \<le> sz * cnt" "unat (sz * cnt) \<le> length src" and aligned: "off mod nss_lba_size st = 0"
  shows "write_nvme_namespace K T src sz cnt off (Some st) s = Some (Inl Null_Deref)"
proof -
  let ?P = "unat (n_page_size K)"
  have P: "0 < ?P" "?P \<le> unat (sz * cnt)" using sizes(2) whole(1) by (simp_all add: unat_gt_0 word_le_nat_alt)
  have t: "0 < sz * cnt" using P by (simp add: word_less_nat_alt)
  obtain lba where pc: "piece K st off (sz * cnt) 0 = Inr (lba, 0, n_page_size K)"
    using sizes whole(1) by (simp add: piece_def laws aligned Let_def min_def)
  have "length (bytes_at 0 ?P src) = ?P" using P(2) whole(2) by simp
  then have ne: "bytes_at 0 ?P src \<noteq> []" using P(1) by (metis list.size(3) less_irrefl)
  have rd: "mem_read src 0 ?P = Inr (bytes_at 0 ?P src)" using P(2) whole(2) by (intro mem_read_ok) simp
  have "write_loop K T st off (sz * cnt) 0 0 src s = Some (Inl Null_Deref)"
    using t pc rd ne by (subst write_loop.simps) (simp add: page_put_def)
  then show ?thesis by (simp add: write_nvme_namespace_def)
qed

theorem nvme_aligned_write_faults_witness:
  "write_nvme_namespace sim_nvme (nvme_pci_iden sim_nvme) (replicate 4096 9) 1 4096 512 (Some sim_ns) (demo_io (replicate 8192 7)) =
    Some (Inl Null_Deref)"
proof (rule nvme_aligned_write_faults)
  show "k_min sim_nvme = min" by (fact sim_sel)
  show "n_align_down sim_nvme x a = x - x mod a" for x a by (fact sim_sel)
qed (simp_all add: sim_ns_def sim_sel)

section \<open>The I/O queue pairs\<close>

definition pair_made :: "nat \<Rightarrow> nvme_qpair \<Rightarrow> bool" where
  "pair_made i q \<longleftrightarrow> qp_id q = int i + 1 \<and> qp_phase q = 1 \<and> qp_subq q \<noteq> 0 \<and> qp_cmpq q \<noteq> 0"

lemma create_io_loop_made:
  assumes "create_io_loop K qsize i n qs w = (j, qs', w')" and "i + n \<le> length qs" and "\<forall>k<i. pair_made k (qs ! k)"
  shows "length qs' = length qs \<and> j \<le> i + n \<and> (\<forall>k<j. pair_made k (qs' ! k))"
  using assms
proof (induction n arbitrary: i qs w)
  case 0
  then show ?case by simp
next
  case (Suc n)
  obtain base w1 where p: "n_pmm_alloc K (qsize * 2) w = (base, w1)" by fastforce
  obtain sub w3 where r: "n_rb_init K base (qsize div 64) 64 (n_store K base (replicate (unat (qsize * 2)) 0) w1) = (sub, w3)" by fastforce
  obtain cmp w4 where c: "n_rb_init K (base + qsize) (qsize div 16) 16 w3 = (cmp, w4)" by fastforce
  show ?case
  proof (cases "base = 0 \<or> sub = 0 \<or> cmp = 0")
    case True
    then show ?thesis using Suc.prems p r c by (auto split: if_splits)
  next
    case False
    let ?qs = "qs[i := \<lparr>qp_subq = sub, qp_cmpq = cmp, qp_id = int i + 1, qp_phase = 1\<rparr>]"
    have "\<forall>k<Suc i. pair_made k (?qs ! k)"
      using Suc.prems(2,3) False by (auto simp: less_Suc_eq nth_list_update pair_made_def)
    moreover have "create_io_loop K qsize (Suc i) n ?qs w4 = (j, qs', w')" using Suc.prems(1) p r c False by simp
    ultimately show ?thesis using Suc.IH [of "Suc i" ?qs w4] Suc.prems(2) by simp
  qed
qed

text \<open>
  Creating the I/O queue pairs reports 0 or -1; after 0 the driver has exactly the
  number asked for, pair \<open>i\<close> carries identifier \<open>i + 1\<close> and expects phase 1, and no ring is \<open>NULL\<close>;
  after -1 its array is as before.
\<close>

theorem nvme_io_pairs_made:
  assumes "nvme_create_io_qpairs K cnt qsize s = (ret, s')"
  shows "ret = 0 \<and> length (nd_qs (nv_core s')) = unat cnt \<and> (\<forall>i < unat cnt. pair_made i (nd_qs (nv_core s') ! i)) \<or>
    ret = - 1 \<and> nd_qs (nv_core s') = nd_qs (nv_core s)"
proof -
  obtain p w1 where p: "k_alloc K (24 * ucast cnt) (nv_env s) = (p, w1)" by fastforce
  let ?qs = "map (junk_pair (fresh_bytes K p (24 * ucast cnt))) [0..<unat cnt]"
  obtain j qs w2 where l: "create_io_loop K qsize 0 (unat cnt) ?qs w1 = (j, qs, w2)" using prod_cases3 by blast
  have "length qs = unat cnt \<and> (\<forall>k<j. pair_made k (qs ! k))"
    using create_io_loop_made [OF l] by simp
  then show ?thesis
    using assms p l by (cases "p = 0"; cases "j = unat cnt") (auto simp: nvme_create_io_qpairs_def Let_def)
qed

lemma demo_pairs_loop:
  assumes "nw_brk w = 0x730"
  shows "fst (create_io_loop sim_nvme 0x1000 0 2 qs w) = 2"
proof -
  have st: "nw_store 0x20000 (replicate 8192 0) v = v" for v by (simp add: nw_store_def)
  have two: "create_io_loop sim_nvme 0x1000 0 2 qs w = create_io_loop sim_nvme 0x1000 0 (Suc (Suc 0)) qs w"
    by (simp add: numeral_2_eq_2)
  show ?thesis
    unfolding two create_io_loop.simps sim_sel using assms by (simp add: st nw_bump_def)
qed

theorem nvme_io_pairs_made_witness:
  "map qp_id (nd_qs (nv_core (snd (nvme_create_io_qpairs sim_nvme 2 0x1000 (demo_io []))))) = [1, 2]"
proof -
  have brk: "nw_brk (nv_env (demo_io [])) = 0x700" by (simp add: demo_io_def)
  have "fst (nvme_create_io_qpairs sim_nvme 2 0x1000 (demo_io [])) = 0"
    using demo_pairs_loop [of "(nv_env (demo_io []))\<lparr>nw_brk := 0x730\<rparr>"] brk
    by (simp add: nvme_create_io_qpairs_def Let_def sim_sel nw_bump_def split: prod.splits) (metis fst_conv)
  then have "length (nd_qs (nv_core (snd (nvme_create_io_qpairs sim_nvme 2 0x1000 (demo_io []))))) = 2 \<and>
      (\<forall>i<2. pair_made i (nd_qs (nv_core (snd (nvme_create_io_qpairs sim_nvme 2 0x1000 (demo_io [])))) ! i))"
    using nvme_io_pairs_made [OF surjective_pairing, of sim_nvme 2 "0x1000" "demo_io []"] by simp
  then show ?thesis
    by (intro nth_equalityI) (auto simp: pair_made_def less_Suc_eq numeral_2_eq_2)
qed

section \<open>Namespaces and their queues\<close>

text \<open>Every administrator command succeeds and leaves the drivers' states alone.\<close>

definition admin_works :: "'w nvme_transport_iden \<Rightarrow> bool" where
  "admin_works T \<longleftrightarrow> (\<forall>cmd s. \<exists>e w. nvme_run T None cmd s = Some (Inr (0, e, s\<lparr>nv_env := w\<rparr>)))"

lemma admin_run:
  assumes "admin_works T"
  obtains e w where "nvme_run T None cmd s = Some (Inr (0, e, s\<lparr>nv_env := w\<rparr>))"
  using assms unfolding admin_works_def by blast

lemma register_works:
  assumes "admin_works T"
  shows "\<exists>r w. nvme_register_io_qpair K T q nvm_set irq s = Some (Inr (r, s\<lparr>nv_env := w\<rparr>))"
proof (cases "qp_cmpq q = 0 \<or> qp_subq q = 0")
  case True
  then show ?thesis by (intro exI [of _ "- 1"] exI [of _ "nv_env s"]) (simp add: nvme_register_io_qpair_def)
next
  case False
  define cmd where "cmd = qs_zero\<lparr>qs_opcode := 5, qs_prp1 := n_to_phys K (n_rb_base K (qp_cmpq q) (nv_env s)),
    qs_cdw10 := word_of_int (qp_id q) OR push_bit 16 (ucast (n_rb_objs K (qp_cmpq q) (nv_env s) - 1)),
    qs_cdw11 := 1 OR (if irq > 31 then 2 else 0) OR push_bit 16 (word_of_int irq AND 0xFFFF), qs_cdw12 := ucast nvm_set\<rparr>"
  obtain e w where 1: "nvme_run T None cmd s = Some (Inr (0, e, s\<lparr>nv_env := w\<rparr>))"
    by (rule admin_run [OF assms])
  define cmd1 where "cmd1 = cmd\<lparr>qs_opcode := 1, qs_prp1 := n_to_phys K (n_rb_base K (qp_subq q) w),
    qs_cdw10 := word_of_int (qp_id q) OR push_bit 16 (ucast (n_rb_objs K (qp_subq q) w - 1)),
    qs_cdw11 := 1 OR push_bit 16 (word_of_int (qp_id q))\<rparr>"
  obtain e' w' where 2: "nvme_run T None cmd1 (s\<lparr>nv_env := w\<rparr>) = Some (Inr (0, e', s\<lparr>nv_env := w, nv_env := w'\<rparr>))"
    by (rule admin_run [OF assms])
  show ?thesis
    using False 1 2 unfolding nvme_register_io_qpair_def Let_def cmd_def [symmetric]
    by (intro exI [of _ 0] exI [of _ w']) (simp add: cmd1_def [symmetric])
qed

lemma register_pairs_works:
  assumes "admin_works T" and "0 \<le> i"
  shows "if nat i + n \<le> length (nd_qs (nv_core s)) \<or> n = 0
    then \<exists>w. register_pairs K T nvm_set i n s = Some (Inr (s\<lparr>nv_env := w\<rparr>))
    else register_pairs K T nvm_set i n s = Some (Inl Out_Of_Bounds)"
  using assms(2)
proof (induction n arbitrary: i s)
  case 0
  then show ?case by (auto intro: exI [of _ "nv_env s"])
next
  case (Suc n)
  have ref: "io_pair_ref i = Inr (Io_Pair (nat i))" using Suc.prems by (simp add: io_pair_ref_def)
  show ?case
  proof (cases "nat i < length (nd_qs (nv_core s))")
    case True
    define q where "q = nd_qs (nv_core s) ! nat i"
    obtain r w where r: "nvme_register_io_qpair K T q nvm_set 0 s = Some (Inr (r, s\<lparr>nv_env := w\<rparr>))"
      using register_works [OF assms(1)] by blast
    have step: "register_pairs K T nvm_set i (Suc n) s = register_pairs K T nvm_set (i + 1) n (s\<lparr>nv_env := w\<rparr>)"
      using ref True r by (simp add: get_pair_def q_def [symmetric])
    have n: "nat (i + 1) = Suc (nat i)" using Suc.prems by simp
    show ?thesis
      unfolding step using Suc.IH [of "i + 1" "s\<lparr>nv_env := w\<rparr>"] Suc.prems True n by (auto split: if_splits)
  next
    case False
    then show ?thesis using ref by (simp add: get_pair_def)
  qed
qed

text \<open>No format entry has an exponent that overflows the shift.\<close>

definition formats_ok :: "('w, 'z) nvme_kernel_scheme \<Rightarrow> bool" where
  "formats_ok K \<longleftrightarrow> (\<forall>p w. unat (drop_bit 16 (load_word K p 4 w :: u32) AND 0xFF) < 32)"

lemma info_works:
  assumes T: "admin_works T" and page: "\<forall>w. fst (n_page_alloc K w) \<noteq> 0" and fmt: "formats_ok K"
  shows "\<exists>st' w. namespace_get_info K T st s = Some (Inr (0, st', s\<lparr>nv_env := w\<rparr>)) \<and>
    nss_qpair_base st' = nss_qpair_base st \<and> nss_qpair_count st' = nss_qpair_count st"
proof -
  obtain data w1 where d: "n_page_alloc K (nv_env s) = (data, w1)" by fastforce
  then have nz: "data \<noteq> 0" using page by (metis fst_conv)
  define sel where "sel = push_bit 24 (word_of_int (nss_command_set st) AND 0xFF :: u32)"
  define cmd where "cmd = qs_zero\<lparr>qs_opcode := 6, qs_prp1 := n_to_phys K data, qs_cdw11 := sel, qs_nsid := word_of_int (nss_namespace st)\<rparr>"
  obtain e1 w2 where 1: "nvme_run T None cmd (s\<lparr>nv_env := w1\<rparr>) = Some (Inr (0, e1, s\<lparr>nv_env := w1, nv_env := w2\<rparr>))"
    by (rule admin_run [OF T])
  obtain e2 w3 where 2: "nvme_run T None (cmd\<lparr>qs_cdw10 := 5\<rparr>) (s\<lparr>nv_env := w2\<rparr>) = Some (Inr (0, e2, s\<lparr>nv_env := w2, nv_env := w3\<rparr>))"
    by (rule admin_run [OF T])
  obtain e3 w4 where 3: "nvme_run T None (cmd\<lparr>qs_cdw10 := 6\<rparr>) (s\<lparr>nv_env := w3\<rparr>) = Some (Inr (0, e3, s\<lparr>nv_env := w3, nv_env := w4\<rparr>))"
    by (rule admin_run [OF T])
  obtain e4 w5 where 4: "nvme_run T None (cmd\<lparr>qs_cdw10 := 8, qs_cdw11 := 0\<rparr>) (s\<lparr>nv_env := w4\<rparr>) =
      Some (Inr (0, e4, s\<lparr>nv_env := w4, nv_env := w5\<rparr>))"
    by (rule admin_run [OF T])
  have "\<exists>st'. take_format K data w2 st = Inr st' \<and> nss_qpair_base st' = nss_qpair_base st \<and> nss_qpair_count st' = nss_qpair_count st"
    using fmt by (simp add: take_format_def lba_size_of_def Let_def formats_ok_def not_le)
  then obtain st' where "take_format K data w2 st = Inr st'" "nss_qpair_base st' = nss_qpair_base st" "nss_qpair_count st' = nss_qpair_count st"
    by blast
  then show ?thesis
    using d nz 1 2 3 4 unfolding namespace_get_info_def Let_def sel_def [symmetric] cmd_def
    by (intro exI [of _ st'] exI [of _ w5]) simp
qed

text \<open>
  When the administrator commands succeed, a namespace driver takes the next
  \<open>min (processors, granted)\<close> queue pairs. It comes up exactly when they are in the array; otherwise
  registering them reads past its end. With fewer queues granted than requested that is what happens to
  a later namespace.
\<close>

theorem nvme_queue_ranges:
  assumes T: "admin_works T" and env: "\<forall>w. fst (n_page_alloc K w) \<noteq> 0" "formats_ok K" "k_min K = min"
    "fst (k_alloc K 80 (nv_env s)) \<noteq> 0"
    and q: "q = min (unat (n_processors K)) (unat (nd_granted (nv_core s)))" "0 < q" "q < 2 ^ 31"
    and base: "unat (nd_init (nv_core s)) < 2 ^ 31"
  shows "if unat (nd_init (nv_core s)) + q \<le> length (nd_qs (nv_core s))
    then \<exists>st s'. init_nvme_namespace K T arg s = Some (Inr (0, Some st, s')) \<and>
      nss_qpair_base st = int (unat (nd_init (nv_core s))) \<and> nss_qpair_count st = int q \<and>
      nv_core s' = (nv_core s)\<lparr>nd_init := nd_init (nv_core s) + word_of_nat q\<rparr>
    else init_nvme_namespace K T arg s = Some (Inl Out_Of_Bounds)"
proof -
  obtain p w1 where p: "k_alloc K 80 (nv_env s) = (p, w1)" "p \<noteq> 0" using env(4) by (metis prod.collapse)
  define cnt where "cnt = k_min K (ucast (n_processors K)) (nd_granted (nv_core s))"
  have "unat cnt = q"
  proof -
    have "unat (ucast (n_processors K) :: u64) = unat (n_processors K)"
      using unsigned_less [of "n_processors K", where 'a = nat] by (simp add: unsigned_ucast_eq take_bit_nat_eq_self)
    then show ?thesis by (simp add: cnt_def env(3) q(1) min_def word_le_nat_alt)
  qed
  then have cnt: "sint (ucast cnt :: u32) = int q" using int32_of_u64 [of cnt] q(3) by simp
  have cnt_word: "word_of_int (int q) = word_of_nat q" by simp
  define b where "b = unat (nd_init (nv_core s))"
  note ini = int32_of_u64 [OF base, folded b_def]
  define m where "m = fresh_bytes K p 80"
  define st where "st = \<lparr>nss_block_size = n_page_size K, nss_lba_size = le_at m 16 8, nss_meta_follows = bit (le_at m 24 1 :: u8) 0,
    nss_meta_size = le_at m 32 8, nss_nsze = le_at m 40 8, nss_ncap = le_at m 48 8, nss_namespace = na_namespace arg,
    nss_nvm_set = sint (le_at m 60 4 :: u32), nss_command_set = na_command_set arg, nss_qpair_base = int b, nss_qpair_count = int q\<rparr>"
  define core where "core = (nv_core s)\<lparr>nd_init := nd_init (nv_core s) + word_of_nat q\<rparr>"
  define s1 where "s1 = s\<lparr>nv_core := core, nv_env := w1\<rparr>"
  obtain st' w where info: "namespace_get_info K T st s1 = Some (Inr (0, st', s1\<lparr>nv_env := w\<rparr>))"
    "nss_qpair_base st' = int b" "nss_qpair_count st' = int q"
    using info_works [OF T env(1,2), of st s1] by (auto simp: st_def)
  have run: "init_nvme_namespace K T arg s =
    run_bind (register_pairs K T (word_of_int (nss_nvm_set st')) (int b) q (s1\<lparr>nv_env := w\<rparr>)) (\<lambda>s3.
      Some (Inr (0, Some st', s3\<lparr>nv_env := n_vfs_create K (namespace_path (nd_id (nv_core s3)) (nss_namespace st')) (nv_env s3)\<rparr>)))"
    using p(2) info(1)
    unfolding init_nvme_namespace_def p(1) prod.case Let_def m_def [symmetric] cnt_def [symmetric] cnt ini st_def [symmetric]
    by (simp add: cnt_word core_def s1_def)
  note reg = register_pairs_works [OF T, of "int b" q "s1\<lparr>nv_env := w\<rparr>" K "word_of_int (nss_nvm_set st')"]
  have qs: "nd_qs (nv_core (s1\<lparr>nv_env := w\<rparr>)) = nd_qs (nv_core s)" by (simp add: s1_def core_def)
  show ?thesis
  proof (cases "b + q \<le> length (nd_qs (nv_core s))")
    case True
    then obtain w' where "register_pairs K T (word_of_int (nss_nvm_set st')) (int b) q (s1\<lparr>nv_env := w\<rparr>) = Some (Inr (s1\<lparr>nv_env := w, nv_env := w'\<rparr>))"
      using reg qs by auto
    then show ?thesis unfolding run using True info(2,3) by (simp add: s1_def core_def b_def)
  next
    case False
    then show ?thesis unfolding run using reg qs q(2) by (simp add: b_def)
  qed
qed


definition demo_admin :: "nvme_world nvme_transport_iden" where
  "demo_admin = \<lparr>ti_type = 0, ti_submit = Some (\<lambda>t q c s. Inr (\<lparr>qw_qpair = None, qw_cmd = c\<rparr>, s)),
     ti_poll = Some (\<lambda>t wrap s. Some (Inr (0, None, s)))\<rparr>"

theorem nvme_queue_ranges_witness:
  "init_nvme_namespace (sim_nvme\<lparr>n_load := \<lambda>p n w. replicate n 0\<rparr>) demo_admin \<lparr>na_namespace = 2, na_command_set = 0\<rparr>
      ((demo_io [])\<lparr>nv_core := (nv_core (demo_io []))\<lparr>nd_granted := 1, nd_init := 1\<rparr>\<rparr>) = Some (Inl Out_Of_Bounds)"
proof -
  let ?K = "sim_nvme\<lparr>n_load := \<lambda>p n w. replicate n 0\<rparr>"
  let ?s = "(demo_io [])\<lparr>nv_core := (nv_core (demo_io []))\<lparr>nd_granted := 1, nd_init := 1\<rparr>\<rparr>"
  have "nvme_run demo_admin None cmd s = Some (Inr (0, None, s\<lparr>nv_env := nv_env s\<rparr>))" for cmd s
    by (simp add: nvme_run_def demo_admin_def)
  then have T: "admin_works demo_admin" unfolding admin_works_def by blast
  have fmt: "formats_ok ?K"
    by (simp add: formats_ok_def load_word_def le_word_def le_nat_zeros)
  have "fst (k_alloc ?K 80 (nv_env ?s)) \<noteq> 0" by (simp add: sim_sel nw_bump_def demo_io_def)
  then show ?thesis
    using nvme_queue_ranges [OF T _ fmt, of ?s 1 "\<lparr>na_namespace = 2, na_command_set = 0\<rparr>"]
    by (simp add: sim_sel demo_io_def)
qed

section \<open>Command sets\<close>

text \<open>
  C14 (nvme_command_sets_uninitialised): with the PCI transport, the capability and configuration registers the
  driver looks at are what the buffer it has just allocated happens to hold, whatever the controller's
  registers are: it passes no file, and the transport copies nothing then. So, unless bit 43 there is set,
  the command sets it goes on with are decided by uninitialised memory.
\<close>

theorem nvme_command_sets_uninitialised:
  assumes alloc: "k_alloc K 4096 (nv_env s) = (p, w)" "p \<noteq> 0"
    and plain: "k_masked_read K (le_at (fresh_bytes K p 4096) 0 8) 43 1 \<noteq> 1"
  shows "\<exists>s'. nvme_set_command_sets K (nvme_pci_driver K) T s =
    Some (Inr (if k_masked_read K (ucast (le_at (fresh_bytes K p 4096) 20 4 :: u32)) 1 7 = 0 then 1 else 0, s'))"
proof -
  have "\<exists>s0. snd (control_nvme_pci K t (Some \<lparr>ni_command = NVME_TRANSPORT_CTRL_TO_PROPS, ni_data = None\<rparr>) s) = s0 \<and> nv_env s0 = nv_env s" for t
    by (simp add: control_nvme_pci_def)
  then obtain s0 where "snd (control_nvme_pci K (nd_transport (nv_core s))
      (Some \<lparr>ni_command = NVME_TRANSPORT_CTRL_TO_PROPS, ni_data = None\<rparr>) s) = s0" "nv_env s0 = nv_env s" by blast
  then show ?thesis
    using alloc plain by (simp add: nvme_set_command_sets_def nvme_pci_driver_def read_nvme_pci_def Let_def)
qed

theorem nvme_command_sets_uninitialised_witness:
  "\<exists>s'. nvme_set_command_sets sim_nvme (nvme_pci_driver sim_nvme) demo_admin (demo_io []) = Some (Inr (1, s'))"
proof -
  have "fresh_bytes sim_nvme 0x700 4096 = replicate 4096 0"
    by (intro nth_equalityI) (simp_all add: fresh_bytes_def sim_sel)
  then have z: "le_at (fresh_bytes sim_nvme 0x700 4096) 0 8 = (0 :: u64)" "le_at (fresh_bytes sim_nvme 0x700 4096) 20 4 = (0 :: u32)"
    by (simp_all add: le_at_def bytes_at_def le_word_def le_nat_zeros)
  have a: "k_alloc sim_nvme 4096 (nv_env (demo_io [])) = (0x700, (nv_env (demo_io []))\<lparr>nw_brk := 0x1700\<rparr>)"
    by (simp add: sim_sel nw_bump_def demo_io_def)
  show ?thesis
    using nvme_command_sets_uninitialised [OF a, of demo_admin] by (simp add: z sim_sel masked_read_ref_def)
qed

end
