(* ===== verification/Nvme_Listing.thy ===== *)
theory Nvme_Listing
  imports Nvme_Props
begin

text \<open>
  The list of namespaces the controller driver builds, against a controller that answers the list command
  as documented: the active identifiers above the one given, in order, 1024 to a page, the rest zero.
\<close>

section \<open>One page\<close>






section \<open>One command set\<close>





section \<open>All command sets\<close>


















end
