(* ===== verification/Nvme_Bring_Up.thy ===== *)
theory Nvme_Bring_Up
  imports Nvme_Listing
begin

text \<open>
  Bringing up a controller and its namespaces: \<open>nvme_bring_up\<close> with the driver of the PCI transport and the
  namespace driver behind \<open>init_resource\<close>, on a controller that answers its administrator commands.
\<close>

section \<open>What is relied on\<close>




section \<open>The stages\<close>









section \<open>The namespaces\<close>





section \<open>Bringing up\<close>








end
