(* ===== verification/Nvme_Reset.thy ===== *)
theory Nvme_Reset
  imports Nvme_Pci
begin

text \<open>
  Resetting a controller through its registers: what \<open>reset_controller\<close> and \<open>create_admin_qpair\<close> leave in
  them, on any controller whose ready bit follows its enable bit.
\<close>

section \<open>Register fields\<close>

definition field32 :: "u32 \<Rightarrow> nat \<Rightarrow> nat \<Rightarrow> u32" where
  "field32 r s k = take_bit k (drop_bit s r)"

definition set_field32 :: "u32 \<Rightarrow> u64 \<Rightarrow> nat \<Rightarrow> nat \<Rightarrow> u32" where
  "set_field32 r v s k = ucast (masked_write_ref (ucast r) v s (mask k))"

lemma bit_set_field32:
  "bit (set_field32 r v s k) n \<longleftrightarrow> n < 32 \<and> (if s \<le> n \<and> n < s + k then bit v (n - s) else bit r n)"
  by (auto simp: set_field32_def masked_write_ref_def bit_simps)

lemma field_set_same: "s + k \<le> 32 \<Longrightarrow> field32 (set_field32 r v s k) s k = take_bit k (ucast v)"
  by (rule bit_word_eqI) (auto simp: field32_def bit_simps bit_set_field32)

lemma field_set_other:
  "s + k \<le> s' \<or> s' + k' \<le> s \<Longrightarrow> field32 (set_field32 r v s k) s' k' = field32 r s' k'"
  by (rule bit_word_eqI) (auto simp: field32_def bit_simps bit_set_field32 dest: bit_imp_le_length)

lemma low_bit: "v AND 1 = (if bit v 0 then 1 else (0 :: u64))"
  by (rule bit_word_eqI) (auto simp: bit_simps intro!: gr0I)

lemmas field_simps32 = field_set_same field_set_other

text \<open>
  The command set \<open>CC.CSS\<close> that the capabilities \<open>cap\<close> ask for: bit 43 says that I/O command sets are selected
  by a vector, bit 37 that the NVM set is there, bit 44 that only the administrator set is; \<open>old\<close> stays otherwise.
\<close>

definition css_choice :: "u64 \<Rightarrow> u32 \<Rightarrow> u32" where
  "css_choice cap old = (if bit cap 43 then 6 else if bit cap 37 then 0 else if bit cap 44 then 7 else old)"

section \<open>The contract\<close>

record nvme_regs =
  rg_cc :: u32
  rg_aqa :: u32
  rg_asq :: u64
  rg_acq :: u64

text \<open>
  \<open>regs\<close> is what the controller's writable registers hold. Stores to the queue memory, allocations and the
  controller's own turns leave them alone, and the ready bit follows the
  enable bit after finitely many of those turns.
\<close>

locale nvme_registers =
  fixes K :: "('w, 'z) nvme_kernel_scheme"
    and props :: u64
    and cap :: u64
    and regs :: "'w \<Rightarrow> nvme_regs"
  assumes masks: "mask_laws K"
    and read_cc: "reg32 K props CC w = rg_cc (regs w)"
    and read_aqa: "reg32 K props AQA w = rg_aqa (regs w)"
    and read_cap: "reg64 K props CAP w = cap"
    and write_cc: "regs (n_store K (props + CC) (le_bytes 4 (unat c)) w) = (regs w)\<lparr>rg_cc := c\<rparr>"
    and write_aqa: "regs (n_store K (props + AQA) (le_bytes 4 (unat c)) w) = (regs w)\<lparr>rg_aqa := c\<rparr>"
    and write_asq: "regs (n_store K (props + ASQ) (le_bytes 8 (unat q)) w) = (regs w)\<lparr>rg_asq := q\<rparr>"
    and write_acq: "regs (n_store K (props + ACQ) (le_bytes 8 (unat q)) w) = (regs w)\<lparr>rg_acq := q\<rparr>"
    and memory: "n_pmm_alloc K n w = (p, w') \<Longrightarrow> regs w' = regs w \<and> (p \<noteq> 0 \<and> length bs \<le> unat n \<longrightarrow> regs (n_store K p bs v) = regs v)"
    and ring_init: "n_rb_init K p n sz w = (rb, w') \<Longrightarrow> regs w' = regs w"
    and turn: "regs (n_spin K w) = regs w"
    and ready: "\<exists>k. bit (reg32 K props CSTS ((n_spin K ^^ k) w)) 0 = bit (rg_cc (regs w)) 0 \<and>
      (\<forall>j<k. bit (reg32 K props CSTS ((n_spin K ^^ j) w)) 0 \<noteq> bit (rg_cc (regs w)) 0)"
begin

lemma write_field:
  "regs (reg32_field K props CC v s (mask k) w) = (regs w)\<lparr>rg_cc := set_field32 (rg_cc (regs w)) v s k\<rparr>"
  "regs (reg32_field K props AQA v s (mask k) w) = (regs w)\<lparr>rg_aqa := set_field32 (rg_aqa (regs w)) v s k\<rparr>"
  using masks by (simp_all add: reg32_field_def write_cc write_aqa read_cc read_aqa set_field32_def mask_laws_def)

lemma write_numeral_field:
  "regs (reg32_field K props CC v s 1 w) = (regs w)\<lparr>rg_cc := set_field32 (rg_cc (regs w)) v s 1\<rparr>"
  "regs (reg32_field K props CC v s 7 w) = (regs w)\<lparr>rg_cc := set_field32 (rg_cc (regs w)) v s 3\<rparr>"
  "regs (reg32_field K props CC v s 15 w) = (regs w)\<lparr>rg_cc := set_field32 (rg_cc (regs w)) v s 4\<rparr>"
  "regs (reg32_field K props AQA v s 0xFFF w) = (regs w)\<lparr>rg_aqa := set_field32 (rg_aqa (regs w)) v s 12\<rparr>"
  using write_field(1) [of v s 1 w] write_field(1) [of v s 3 w] write_field(1) [of v s 4 w] write_field(2) [of v s 12 w]
  by (simp_all add: mask_eq_exp_minus_1)

lemma ready_test: "(k_masked_read K (ucast (reg32 K props CSTS w)) 0 1 \<noteq> 0) = bit (reg32 K props CSTS w) 0"
proof -
  have "k_masked_read K (ucast (reg32 K props CSTS w)) 0 1 = ucast (reg32 K props CSTS w) AND 1"
    using mask_lawsD(1) [OF masks] by simp
  then show ?thesis unfolding low_bit by (simp add: bit_ucast_iff del: bit_0)
qed

lemma turns: "regs ((n_spin K ^^ k) w) = regs w"
  by (induction k) (simp_all add: turn)

lemma wait_ready_at:
  assumes "bit (reg32 K props CSTS ((n_spin K ^^ k) w)) 0 = want" and "\<forall>j<k. bit (reg32 K props CSTS ((n_spin K ^^ j) w)) 0 \<noteq> want"
  shows "wait_ready K props want w = Some ((n_spin K ^^ k) w)"
  using assms
proof (induction k arbitrary: w)
  case 0
  then show ?case by (subst wait_ready.simps) (simp add: ready_test)
next
  case (Suc k)
  have "bit (reg32 K props CSTS w) 0 \<noteq> want" using Suc.prems(2) by (auto dest: spec [of _ 0])
  moreover have "wait_ready K props want (n_spin K w) = Some ((n_spin K ^^ k) (n_spin K w))"
    using Suc.prems by (intro Suc.IH) (auto simp: funpow_swap1 dest: spec [of _ "Suc _"])
  ultimately show ?case by (subst wait_ready.simps) (simp add: ready_test funpow_swap1)
qed

lemma wait_ready_ends:
  assumes "bit (rg_cc (regs w)) 0 = want"
  obtains w' where "wait_ready K props want w = Some w'" "regs w' = regs w"
  using ready [of w] wait_ready_at [of _ w want] turns assms by metis

lemma admin_pair:
  assumes st: "pci_props st = props" and mem: "\<And>w. fst (n_pmm_alloc K (qsize * 2) w) \<noteq> 0" "\<And>p n sz w. fst (n_rb_init K p n sz w) \<noteq> 0"
  obtains queues sub cmp w' where
    "create_admin_qpair K qsize st w = (0, st\<lparr>pci_adminq := \<lparr>qp_subq = sub, qp_cmpq = cmp, qp_id = 0, qp_phase = 1\<rparr>\<rparr>, w')"
    "queues \<noteq> 0" "sub \<noteq> 0" "cmp \<noteq> 0"
    "regs w' = (regs w)\<lparr>rg_asq := n_to_phys K queues, rg_acq := n_to_phys K queues + qsize,
       rg_aqa := set_field32 (set_field32 (rg_aqa (regs w)) 63 0 12) 255 16 12\<rparr>"
proof -
  obtain queues w1 where q: "n_pmm_alloc K (qsize * 2) w = (queues, w1)" by fastforce
  define w2 where "w2 = n_store K queues (replicate (unat (qsize * 2)) 0) w1"
  obtain sub w3 where s: "n_rb_init K queues NVME_ADMIN_QUEUE_SUB_LEN 64 w2 = (sub, w3)" by fastforce
  obtain cmp w4 where c: "n_rb_init K (queues + qsize) NVME_ADMIN_QUEUE_COMP_LEN 16 w3 = (cmp, w4)" by fastforce
  have nz: "queues \<noteq> 0" "sub \<noteq> 0" "cmp \<noteq> 0" using mem q s c by (metis fst_conv)+
  have r: "regs w1 = regs w" "regs w2 = regs w" using memory [OF q] nz(1) by (simp_all add: w2_def)
  then have r4: "regs w4 = regs w" using ring_init [OF s] ring_init [OF c] by simp
  define w8 where "w8 = reg32_field K props AQA (NVME_ADMIN_QUEUE_COMP_LEN - 1) 16 0xFFF
    (reg32_field K props AQA (NVME_ADMIN_QUEUE_SUB_LEN - 1) 0 0xFFF
      (store64 K (props + ACQ) (n_to_phys K queues + qsize) (store64 K (props + ASQ) (n_to_phys K queues) w4)))"
  have "create_admin_qpair K qsize st w = (0, st\<lparr>pci_adminq := \<lparr>qp_subq = sub, qp_cmpq = cmp, qp_id = 0, qp_phase = 1\<rparr>\<rparr>, w8)"
    using nz q s c by (simp add: create_admin_qpair_def Let_def w2_def [symmetric] st w8_def)
  moreover have "regs w8 = (regs w)\<lparr>rg_asq := n_to_phys K queues, rg_acq := n_to_phys K queues + qsize,
      rg_aqa := set_field32 (set_field32 (rg_aqa (regs w)) 63 0 12) 255 16 12\<rparr>"
    unfolding w8_def write_numeral_field store64_def write_acq write_asq r4
    by (simp add: NVME_ADMIN_QUEUE_SUB_LEN_def NVME_ADMIN_QUEUE_COMP_LEN_def)
  ultimately show thesis using nz that by blast
qed

lemma set_css_cc:
  obtains c where "regs (set_css K props w) = (regs w)\<lparr>rg_cc := c\<rparr>"
    "field32 c 4 3 = css_choice cap (field32 (rg_cc (regs w)) 4 3)"
    "\<forall>s' k'. s' + k' \<le> 4 \<or> 7 \<le> s' \<longrightarrow> field32 c s' k' = field32 (rg_cc (regs w)) s' k'"
proof -
  define css where "css = k_masked_read K (reg64 K props CAP w) 37 0xFF"
  have "css = drop_bit 37 cap AND mask 8"
    using mask_lawsD(1) [OF masks] by (simp add: css_def read_cap mask_eq_exp_minus_1)
  then have b: "bit css 7 = bit cap 44" "bit css 6 = bit cap 43" "bit css 0 = bit cap 37"
    by (simp_all add: bit_and_iff bit_mask_iff bit_drop_bit_eq del: bit_0)
  define c7 where "c7 = (if bit cap 44 then set_field32 (rg_cc (regs w)) 7 4 3 else rg_cc (regs w))"
  define c6 where "c6 = (if bit cap 43 then set_field32 c7 6 4 3 else c7)"
  define c0 where "c0 = (if \<not> bit cap 43 \<and> bit cap 37 then set_field32 c6 0 4 3 else c6)"
  have "regs (set_css K props w) = (regs w)\<lparr>rg_cc := c0\<rparr>"
    unfolding set_css_def Let_def css_def [symmetric] b by (simp add: write_numeral_field c0_def c6_def c7_def)
  moreover have "take_bit 3 (7 :: u32) = 7" "take_bit 3 (6 :: u32) = 6" by (simp_all add: take_bit_eq_mask mask_eq_exp_minus_1)
  then have "field32 c0 4 3 = css_choice cap (field32 (rg_cc (regs w)) 4 3)"
    by (simp add: c0_def c6_def c7_def css_choice_def field_set_same)
  moreover have "\<forall>s' k'. s' + k' \<le> 4 \<or> 7 \<le> s' \<longrightarrow> field32 c0 s' k' = field32 (rg_cc (regs w)) s' k'"
    by (auto simp: c0_def c6_def c7_def field_set_other)
  ultimately show thesis by (rule that)
qed

lemma reset_programs:
  assumes st: "pci_props st = props"
    and mem: "\<And>w. fst (n_pmm_alloc K (n_page_size K * 2) w) \<noteq> 0" "\<And>p n sz w. fst (n_rb_init K p n sz w) \<noteq> 0"
  obtains queues sub cmp w' where
    "reset_controller K (Some st) w = Some (0, Some (st\<lparr>pci_adminq := \<lparr>qp_subq = sub, qp_cmpq = cmp, qp_id = 0, qp_phase = 1\<rparr>\<rparr>), w')"
    "queues \<noteq> 0" "sub \<noteq> 0" "cmp \<noteq> 0" "rg_asq (regs w') = n_to_phys K queues" "rg_acq (regs w') = n_to_phys K queues + n_page_size K"
    "field32 (rg_aqa (regs w')) 0 12 = 63" "field32 (rg_aqa (regs w')) 16 12 = 255"
    "field32 (rg_cc (regs w')) 0 1 = 1" "field32 (rg_cc (regs w')) 7 4 = 0" "field32 (rg_cc (regs w')) 11 3 = 0"
    "field32 (rg_cc (regs w')) 4 3 = css_choice cap (field32 (rg_cc (regs w)) 4 3)"
proof -
  define off where "off = reg32_field K props CC 0 0 1 w"
  have off: "regs off = (regs w)\<lparr>rg_cc := set_field32 (rg_cc (regs w)) 0 0 1\<rparr>" by (simp add: off_def write_numeral_field)
  have "bit (rg_cc (regs off)) 0 = False" by (simp add: off bit_set_field32 del: bit_0)
  then obtain w1 where w1: "wait_ready K props False off = Some w1" "regs w1 = regs off" by (rule wait_ready_ends)
  obtain queues sub cmp w2 where q: "create_admin_qpair K (n_page_size K) st w1 =
      (0, st\<lparr>pci_adminq := \<lparr>qp_subq = sub, qp_cmpq = cmp, qp_id = 0, qp_phase = 1\<rparr>\<rparr>, w2)"
    "queues \<noteq> 0" "sub \<noteq> 0" "cmp \<noteq> 0"
    "regs w2 = (regs w1)\<lparr>rg_asq := n_to_phys K queues, rg_acq := n_to_phys K queues + n_page_size K,
       rg_aqa := set_field32 (set_field32 (rg_aqa (regs w1)) 63 0 12) 255 16 12\<rparr>"
    by (rule admin_pair [OF st mem])
  obtain c where c: "regs (set_css K props w2) = (regs w2)\<lparr>rg_cc := c\<rparr>"
    "field32 c 4 3 = css_choice cap (field32 (rg_cc (regs w2)) 4 3)"
    "\<forall>s' k'. s' + k' \<le> 4 \<or> 7 \<le> s' \<longrightarrow> field32 c s' k' = field32 (rg_cc (regs w2)) s' k'"
    by (rule set_css_cc [of w2])
  define on where "on = reg32_field K props CC 1 0 1 (reg32_field K props CC 0 11 7 (reg32_field K props CC 0 7 15 (set_css K props w2)))"
  define cc where "cc = set_field32 (set_field32 (set_field32 c 0 7 4) 0 11 3) 1 0 1"
  have on: "regs on = (regs w2)\<lparr>rg_cc := cc\<rparr>" by (simp add: on_def write_numeral_field c cc_def)
  have "bit (rg_cc (regs on)) 0 = True" by (simp add: on cc_def bit_set_field32 del: bit_0)
  then obtain w3 where w3: "wait_ready K props True on = Some w3" "regs w3 = regs on" by (rule wait_ready_ends)
  have r: "regs w3 = (regs w2)\<lparr>rg_cc := cc\<rparr>" using w3 on by simp
  show thesis
  proof (rule that [of sub cmp w3 queues])
    show "reset_controller K (Some st) w = Some (0, Some (st\<lparr>pci_adminq := \<lparr>qp_subq = sub, qp_cmpq = cmp, qp_id = 0, qp_phase = 1\<rparr>\<rparr>), w3)"
      using w1 q(1) w3 by (simp add: reset_controller_def Let_def st off_def on_def)
    have "take_bit 12 (63 :: u32) = 63" "take_bit 12 (255 :: u32) = 255" by (simp_all add: take_bit_eq_mask mask_eq_exp_minus_1)
    then show "field32 (rg_aqa (regs w3)) 0 12 = 63" "field32 (rg_aqa (regs w3)) 16 12 = 255"
      by (simp_all add: r q(5) field_simps32)
    show "field32 (rg_cc (regs w3)) 0 1 = 1" "field32 (rg_cc (regs w3)) 7 4 = 0" "field32 (rg_cc (regs w3)) 11 3 = 0"
      by (simp_all add: r cc_def field_simps32)
    show "field32 (rg_cc (regs w3)) 4 3 = css_choice cap (field32 (rg_cc (regs w)) 4 3)"
      by (simp add: r cc_def field_simps32 c(2) q(5) w1(2) off)
  qed (use q r in simp_all)
qed

text \<open>Starting the transport: the registers are mapped, the controller is reset, then the entry sizes are set.\<close>

lemma transport_programs:
  assumes hdr: "ph_type hdr = n_hdr_device K" "\<not> n_bar_is_io K (ph_bar2 hdr)"
      "(ucast (ph_bar0 hdr) AND NOT 0x3FFF) OR push_bit 32 (ucast (ph_bar1 hdr)) = props"
    and mem: "\<And>w. fst (n_pmm_alloc K (n_page_size K * 2) w) \<noteq> 0" "\<And>p n sz w. fst (n_rb_init K p n sz w) \<noteq> 0"
    and heap: "\<And>w. fst (k_alloc K 40 w) \<noteq> 0 \<and> regs (snd (k_alloc K 40 w)) = regs w"
    and pager: "\<And>a n f w. fst (n_pager_map K a a n f w) = 0 \<and> regs (snd (n_pager_map K a a n f w)) = regs w"
  obtains queues sub cmp s1 where
    "init_nvme_pci K spawn hdr s = run_bind (spawn s1) (\<lambda>(created, s2). Some (Inr (if created then 0 else - 2, True, s2)))"
    "nv_core s1 = nv_core s" "pci_props (nv_pci s1) = props"
    "pci_adminq (nv_pci s1) = \<lparr>qp_subq = sub, qp_cmpq = cmp, qp_id = 0, qp_phase = 1\<rparr>"
    "queues \<noteq> 0" "sub \<noteq> 0" "cmp \<noteq> 0"
    "rg_asq (regs (nv_env s1)) = n_to_phys K queues" "rg_acq (regs (nv_env s1)) = n_to_phys K queues + n_page_size K"
    "field32 (rg_aqa (regs (nv_env s1))) 0 12 = 63" "field32 (rg_aqa (regs (nv_env s1))) 16 12 = 255"
    "field32 (rg_cc (regs (nv_env s1))) 0 1 = 1" "field32 (rg_cc (regs (nv_env s1))) 7 4 = 0"
    "field32 (rg_cc (regs (nv_env s1))) 11 3 = 0" "field32 (rg_cc (regs (nv_env s1))) 16 4 = 6" "field32 (rg_cc (regs (nv_env s1))) 20 4 = 4"
    "field32 (rg_cc (regs (nv_env s1))) 4 3 = css_choice cap (field32 (rg_cc (regs (nv_env s))) 4 3)"
proof -
  obtain p w1 where p: "k_alloc K 40 (nv_env s) = (p, w1)" "p \<noteq> 0" "regs w1 = regs (nv_env s)"
    using heap [of "nv_env s"] by (cases "k_alloc K 40 (nv_env s)") auto
  obtain w2 where m: "n_pager_map K props props 0x2000 (n_pager_attrs K) w1 = (0, w2)" "regs w2 = regs w1"
    using pager [of props "0x2000" "n_pager_attrs K" w1] by (cases "n_pager_map K props props 0x2000 (n_pager_attrs K) w1") auto
  define mm where "mm = fresh_bytes K p 40"
  define st where "st = \<lparr>pci_props = props, pci_exposed = sint (le_at mm 8 4 :: u32),
    pci_adminq = \<lparr>qp_subq = le_at mm 16 8, qp_cmpq = le_at mm 24 8, qp_id = sint (le_at mm 32 4 :: u32), qp_phase = sint (le_at mm 36 4 :: u32)\<rparr>\<rparr>"
  have "pci_props st = props" by (simp add: st_def)
  from reset_programs [OF this mem, of w2]
  obtain queues sub cmp w3 where r:
    "reset_controller K (Some st) w2 = Some (0, Some (st\<lparr>pci_adminq := \<lparr>qp_subq = sub, qp_cmpq = cmp, qp_id = 0, qp_phase = 1\<rparr>\<rparr>), w3)"
    "queues \<noteq> 0" "sub \<noteq> 0" "cmp \<noteq> 0" "rg_asq (regs w3) = n_to_phys K queues" "rg_acq (regs w3) = n_to_phys K queues + n_page_size K"
    "field32 (rg_aqa (regs w3)) 0 12 = 63" "field32 (rg_aqa (regs w3)) 16 12 = 255"
    "field32 (rg_cc (regs w3)) 0 1 = 1" "field32 (rg_cc (regs w3)) 7 4 = 0" "field32 (rg_cc (regs w3)) 11 3 = 0"
    "field32 (rg_cc (regs w3)) 4 3 = css_choice cap (field32 (rg_cc (regs w2)) 4 3)" by metis
  define st' where "st' = st\<lparr>pci_adminq := \<lparr>qp_subq = sub, qp_cmpq = cmp, qp_id = 0, qp_phase = 1\<rparr>\<rparr>"
  define w5 where "w5 = reg32_field K props CC 4 20 15 (reg32_field K props CC 6 16 15 w3)"
  have w5: "regs w5 = (regs w3)\<lparr>rg_cc := set_field32 (set_field32 (rg_cc (regs w3)) 6 16 4) 4 20 4\<rparr>"
    by (simp add: w5_def write_numeral_field)
  have out: "(\<lambda>(created, s2 :: 'w nvme_sys). if created then Some (Inr (0 :: int, True, s2)) else Some (Inr (- 2, True, s2))) =
      (\<lambda>(created, s2). Some (Inr (if created then 0 else - 2, True, s2)) :: (int \<times> bool \<times> 'w nvme_sys) res option)"
    by (auto simp: fun_eq_iff)
  have "init_nvme_pci K spawn hdr s = run_bind (spawn (s\<lparr>nv_pci := st', nv_env := w5\<rparr>))
      (\<lambda>(created, s2). Some (Inr (if created then 0 else - 2, True, s2)))"
    unfolding init_nvme_pci_def p(1) prod.case Let_def hdr(3) mm_def [symmetric]
    using p(2) hdr(1,2) m(1) r(1)
    by (simp add: st_def st'_def w5_def out)
  moreover have "take_bit 4 (6 :: u32) = 6" "take_bit 4 (4 :: u32) = 4" by (simp_all add: take_bit_eq_mask mask_eq_exp_minus_1)
  ultimately show thesis
    using r p(3) m(2) by (intro that [of "s\<lparr>nv_pci := st', nv_env := w5\<rparr>" sub cmp queues])
      (simp_all add: st'_def st_def w5 field_simps32)
qed

end

section \<open>A controller\<close>

text \<open>
  Registers at 0x100000, capabilities with the NVM command set and nothing else, and a controller that
  copies the enable bit into the ready bit on its turn.
\<close>

record reset_world =
  rw_regs :: nvme_regs
  rw_ready :: bool

definition rw_cap :: u64 where "rw_cap = 0x2000000000"

definition rw_load :: "u64 \<Rightarrow> nat \<Rightarrow> reset_world \<Rightarrow> u8 list" where
  "rw_load p n w =
     (if p = 0x100000 + CAP then le_bytes n (unat rw_cap)
      else if p = 0x100000 + CC then le_bytes n (unat (rg_cc (rw_regs w)))
      else if p = 0x100000 + CSTS then le_bytes n (of_bool (rw_ready w))
      else if p = 0x100000 + AQA then le_bytes n (unat (rg_aqa (rw_regs w)))
      else replicate n 0)"

definition rw_store :: "u64 \<Rightarrow> u8 list \<Rightarrow> reset_world \<Rightarrow> reset_world" where
  "rw_store p bs w =
     (let r = rw_regs w
      in if p = 0x100000 + CC then w\<lparr>rw_regs := r\<lparr>rg_cc := le_word bs\<rparr>\<rparr>
         else if p = 0x100000 + AQA then w\<lparr>rw_regs := r\<lparr>rg_aqa := le_word bs\<rparr>\<rparr>
         else if p = 0x100000 + ASQ then w\<lparr>rw_regs := r\<lparr>rg_asq := le_word bs\<rparr>\<rparr>
         else if p = 0x100000 + ACQ then w\<lparr>rw_regs := r\<lparr>rg_acq := le_word bs\<rparr>\<rparr>
         else w)"

definition rw_turn :: "reset_world \<Rightarrow> reset_world" where
  "rw_turn w = w\<lparr>rw_ready := bit (rg_cc (rw_regs w)) 0\<rparr>"

definition reset_sim :: "reset_world nvme_kernel" where
  "reset_sim =
     \<lparr>k_masked_read = masked_read_ref, k_masked_write = masked_write_ref, k_min = min, k_align_up = (\<lambda>x a. x),
      k_atomic_inc = (\<lambda>x. (x + 1, x + 1)), k_std_buff_size = 512, k_alloc = (\<lambda>n w. (0x40000, w)), k_fresh = (\<lambda>p i. 0),
      k_free = (\<lambda>p w. w), k_inb = (\<lambda>p w. (0, w)), k_outb = (\<lambda>p b w. w), k_vfs_open = (\<lambda>p h w. (0, w)),
      k_vfs_close = (\<lambda>h w. w), k_vfs_seek = (\<lambda>h o' w. w), k_vfs_read = (\<lambda>h a b w. (0, [], w)),
      k_vfs_write = (\<lambda>h bs a b w. (0, w)), n_load = rw_load, n_store = rw_store, n_spin = rw_turn,
      n_irq_enabled = (\<lambda>w. True), n_irq_set = (\<lambda>b w. w), n_pmm_alloc = (\<lambda>n w. (0x20000, w)), n_pmm_free = (\<lambda>p w. w),
      n_page_alloc = (\<lambda>w. (0x30000, w)), n_page_free = (\<lambda>p w. w), n_page_size = 4096, n_to_phys = (\<lambda>p. p),
      n_align_down = (\<lambda>x a. x), n_rb_init = (\<lambda>p n sz w. (0x40000, w)), n_rb_base = (\<lambda>rb w. rb), n_rb_objs = (\<lambda>rb w. 64),
      n_rb_idx = (\<lambda>rb w. 0), n_rb_alloc = (\<lambda>rb n w. (0, w)), n_rb_write = (\<lambda>rb i bs w. w), n_rb_free = (\<lambda>rb i w. w),
      n_hdr_device = 0, n_bar_is_io = (\<lambda>b. False), n_pager_attrs = 0, n_pager_map = (\<lambda>a b n f w. (0, w)), n_processors = 1,
      n_processor_id = (\<lambda>w. 0), n_vfs_create = (\<lambda>p w. w)\<rparr>"

lemmas reset_offsets = CAP_def CC_def CSTS_def AQA_def ASQ_def ACQ_def

lemma reset_sel:
  "n_load reset_sim = rw_load" "n_store reset_sim = rw_store" "n_spin reset_sim = rw_turn"
  "n_pmm_alloc reset_sim n w = (0x20000, w)" "n_rb_init reset_sim p n sz w = (0x40000, w)" "n_page_size reset_sim = 4096"
  "n_to_phys reset_sim p = p" "k_alloc reset_sim n w = (0x40000, w)" "n_pager_map reset_sim a b n f w = (0, w)" "k_masked_read reset_sim = masked_read_ref" "k_masked_write reset_sim = masked_write_ref"
  by (simp_all add: reset_sim_def)

lemma rw_ready_follows:
  "\<exists>k. bit (reg32 reset_sim 0x100000 CSTS ((n_spin reset_sim ^^ k) w)) 0 = bit (rg_cc (rw_regs w)) 0 \<and>
     (\<forall>j<k. bit (reg32 reset_sim 0x100000 CSTS ((n_spin reset_sim ^^ j) w)) 0 \<noteq> bit (rg_cc (rw_regs w)) 0)"
proof -
  have csts: "bit (reg32 reset_sim 0x100000 CSTS v) 0 = rw_ready v" for v
    using le_word_entry [of "of_bool (rw_ready v)"]
    by (auto simp: reg32_def reset_sel rw_load_def reset_offsets)
  show ?thesis
  proof (cases "rw_ready w = bit (rg_cc (rw_regs w)) 0")
    case True
    then show ?thesis by (intro exI [of _ 0]) (simp add: csts del: bit_0)
  next
    case False
    then show ?thesis by (intro exI [of _ 1]) (simp add: csts reset_sel rw_turn_def del: bit_0)
  qed
qed

interpretation reset_ctl: nvme_registers reset_sim "0x100000" rw_cap rw_regs
proof
  show "mask_laws reset_sim" by (simp add: mask_laws_def reset_sel)
  show "reg64 reset_sim 0x100000 CAP w = rw_cap" for w
    by (simp add: reg64_def reset_sel rw_load_def)
  show "n_pmm_alloc reset_sim n w = (p, w') \<Longrightarrow> rw_regs w' = rw_regs w \<and>
      (p \<noteq> 0 \<and> length bs \<le> unat n \<longrightarrow> rw_regs (n_store reset_sim p bs v) = rw_regs v)" for n w p w' bs v
    by (auto simp: reset_sel rw_store_def reset_offsets)
qed (rule rw_ready_follows |
  simp add: reg32_def reset_sel rw_load_def rw_store_def rw_turn_def reset_offsets | auto simp: reset_sel)+

section \<open>Starting the transport\<close>

text \<open>
  C12 (nvme_transport_comes_up): on a controller whose ready bit follows its enable bit, with its registers in
  memory space and allocations that succeed, the transport's initialisation returns. Before it starts the
  controller driver it has made the administrator pair, with identifier 0 and phase 1; \<open>ASQ\<close> and \<open>ACQ\<close> hold the
  physical addresses of the two pages of the pair, \<open>AQA\<close> the two queue sizes less one, and \<open>CC\<close> has the enable
  bit, the smallest page size, round robin arbitration, entries of 64 and 16 bytes and the command set that the
  capabilities ask for. Its result is 0 exactly when the controller driver's resource is created.
\<close>

theorem nvme_transport_comes_up:
  assumes ctl: "nvme_registers K props cap regs" and hdr: "ph_type hdr = n_hdr_device K" "\<not> n_bar_is_io K (ph_bar2 hdr)"
      "(ucast (ph_bar0 hdr) AND NOT 0x3FFF) OR push_bit 32 (ucast (ph_bar1 hdr)) = props"
    and mem: "\<And>w. fst (n_pmm_alloc K (n_page_size K * 2) w) \<noteq> 0" "\<And>p n sz w. fst (n_rb_init K p n sz w) \<noteq> 0"
      "\<And>w. fst (k_alloc K 40 w) \<noteq> 0 \<and> regs (snd (k_alloc K 40 w)) = regs w"
      "\<And>a n f w. fst (n_pager_map K a a n f w) = 0 \<and> regs (snd (n_pager_map K a a n f w)) = regs w"
  shows "\<exists>queues sub cmp s1.
    init_nvme_pci K spawn hdr s = run_bind (spawn s1) (\<lambda>(created, s2). Some (Inr (if created then 0 else - 2, True, s2))) \<and>
    nv_core s1 = nv_core s \<and> pci_props (nv_pci s1) = props \<and>
    pci_adminq (nv_pci s1) = \<lparr>qp_subq = sub, qp_cmpq = cmp, qp_id = 0, qp_phase = 1\<rparr> \<and>
    queues \<noteq> 0 \<and> sub \<noteq> 0 \<and> cmp \<noteq> 0 \<and>
    (let r = regs (nv_env s1) in
       rg_asq r = n_to_phys K queues \<and> rg_acq r = n_to_phys K queues + n_page_size K \<and>
       field32 (rg_aqa r) 0 12 = 63 \<and> field32 (rg_aqa r) 16 12 = 255 \<and>
       field32 (rg_cc r) 0 1 = 1 \<and> field32 (rg_cc r) 7 4 = 0 \<and> field32 (rg_cc r) 11 3 = 0 \<and>
       field32 (rg_cc r) 16 4 = 6 \<and> field32 (rg_cc r) 20 4 = 4 \<and>
       field32 (rg_cc r) 4 3 = css_choice cap (field32 (rg_cc (regs (nv_env s))) 4 3))"
  unfolding Let_def by (rule nvme_registers.transport_programs [OF ctl hdr mem, of spawn s]) blast

text \<open>The controller driver's part is left out: \<open>spawn\<close> creates its resource and does nothing.\<close>

definition reset_sys :: "reset_world nvme_sys" where
  "reset_sys = \<lparr>nv_pci = \<lparr>pci_props = 0, pci_exposed = 0, pci_adminq = \<lparr>qp_subq = 0, qp_cmpq = 0, qp_id = 0, qp_phase = 0\<rparr>\<rparr>,
     nv_core = \<lparr>nd_self = 0, nd_transport = 0, nd_max_transfer = 0, nd_id = 0, nd_version = 0, nd_type = 0, nd_ctratt = 0,
       nd_requested = 0, nd_granted = 0, nd_init = 0, nd_qs = []\<rparr>,
     nv_env = \<lparr>rw_regs = \<lparr>rg_cc = 0x70, rg_aqa = 0, rg_asq = 0, rg_acq = 0\<rparr>, rw_ready = True\<rparr>\<rparr>"

theorem nvme_transport_comes_up_witness:
  "\<exists>s1. init_nvme_pci reset_sim (\<lambda>s. Some (Inr (True, s))) \<lparr>ph_type = 0, ph_bar0 = 0x100004, ph_bar1 = 0, ph_bar2 = 0\<rparr> reset_sys =
      Some (Inr (0, True, s1)) \<and>
    pci_props (nv_pci s1) = 0x100000 \<and> rg_acq (rw_regs (nv_env s1)) = rg_asq (rw_regs (nv_env s1)) + 4096 \<and>
    field32 (rg_aqa (rw_regs (nv_env s1))) 16 12 = 255 \<and> field32 (rg_cc (rw_regs (nv_env s1))) 0 1 = 1 \<and>
    field32 (rg_cc (rw_regs (nv_env s1))) 20 4 = 4 \<and> field32 (rg_cc (rw_regs (nv_env s1))) 4 3 = 0"
proof -
  let ?hdr = "\<lparr>ph_type = 0, ph_bar0 = 0x100004, ph_bar1 = 0, ph_bar2 = 0\<rparr>"
  have css: "css_choice rw_cap x = 0" for x by (simp add: css_choice_def rw_cap_def)
  have "ph_type ?hdr = n_hdr_device reset_sim" "\<not> n_bar_is_io reset_sim (ph_bar2 ?hdr)"
    "(ucast (ph_bar0 ?hdr) AND NOT 0x3FFF) OR push_bit 32 (ucast (ph_bar1 ?hdr)) = (0x100000 :: u64)"
    by (simp_all add: reset_sim_def)
  note up = nvme_transport_comes_up [OF reset_ctl.nvme_registers_axioms this, of "\<lambda>s. Some (Inr (True, s))" reset_sys]
  show ?thesis using up by (simp add: reset_sel css Let_def) blast
qed

end
