(* ===== verification/Spec2Isabelle.thy ===== *)
theory Spec2Isabelle
  imports Dri_Repo Partition Acpi_Drivers Initramfs_Props Ext2_Mount_Props Nvme_Bring_Up Nvme_Reset
begin

text \<open>
  The device drivers of the Arctan kernel (\<open>src/c\<close>) as a shallow embedding, with the theorems
  that say what they do.

  \<^bold>\<open>The program.\<close> A driver is a record of functions (\<open>ARC_DriverDef\<close>) in a generated table; the resource
  manager (\<open>resource.c\<close>) makes resources, which bind a table entry to a state of the driver. File-like
  operations get a buffer, sizes, a file with an offset, and the resource. Drivers are stacked: a
  partition serves a byte range of a drive it opens through the virtual file system; ext2 mounts such a
  partition and makes file and directory resources; the NVMe transport starts the NVMe controller
  driver, which starts one namespace driver for each namespace, which are drives.

  \<^bold>\<open>Conventions.\<close> Machine integers are words of their C width and wrap as in C; an \<open>int\<close> of the program is an
  \<open>int\<close> where it stays small. A C structure is a record; structures read from a device are decoded from
  byte lists by \<open>le_at\<close> and the like. A pointer argument that may be \<open>NULL\<close> is an option. An object of memory
  is the list of its bytes, and an access outside it, through \<open>NULL\<close>, a division by zero or an oversized
  shift is a fault: the left side of the result type (\<open>Drv_Prelude\<close>). Effects on the rest of the kernel are threaded
  through a world \<open>'w\<close>. A loop whose end depends on a device or on data is a \<open>partial_function (option)\<close>, where
  \<open>None\<close> is not returning; so no fuel is needed, and each theorem about such a loop states that it returns
  (or that it does not). What the allocator leaves in fresh memory is a parameter (\<open>fresh_bytes\<close>), and so
  is visible where the code reads a field it has not set.

  \<^bold>\<open>The environment.\<close> Code that is not in the repository (allocator, virtual file system, ports, bit-field
  macros, ring buffers, pages, interrupt flag) is a record of functions over the world (\<open>Kernel_Api\<close>, extended in
  \<open>Nvme_Defs\<close>), the first argument of every operation. What a theorem relies on is a named predicate or a locale
  over that record: \<open>mask_laws\<close>, \<open>min_law\<close>, \<open>atomic_law\<close>, \<open>kernel_heap\<close> (a ledger of the allocator),
  \<open>vfs_disk\<close> (a seekable file of bytes), \<open>uart_port\<close>, \<open>nvme_controller\<close>, \<open>nvme_registers\<close>. \<open>Sim_Kernel\<close> holds a concrete kernel (\<open>sim_kernel\<close>) on
  which the locales are interpreted and the witnesses are computed; \<open>roomy_kernel\<close> in \<open>Ext2_Props\<close> is one that
  is never out of memory.

  \<^bold>\<open>Theories and sources.\<close>
  \<^item> \<open>Drv_Prelude\<close>, \<open>Kernel_Api\<close>, \<open>Drv_Iface\<close>: memory, little-endian encodings, faults, results, the environment, files and
    \<open>struct stat\<close>.
  \<^item> \<open>Resource\<close>, \<open>Resource_Props\<close>: \<open>resource.c\<close>, \<open>include/drivers/resource.h\<close>. The driver table is a parameter
    with its well-formedness (\<open>table_laws\<close>). Lookup by code is the first match, creation allocates distinct
    identifiers and releases what it allocated when a driver refuses.
  \<^item> \<open>Dri_Gen\<close>: \<open>tools/gen_dri_defs.py\<close>, which makes that table: reading, numbering, writing; \<open>Dri_Gen_Props\<close>: the invariant of the
    numbering loops; \<open>Dri_Table\<close>: a generated table has \<open>table_laws\<close> and its macros select the drivers, and the case in which
    two drivers get one number; \<open>Dri_Repo\<close>: the registrations (\<open>ARC_REGISTER_DRIVER\<close>) of all drivers and this repository's table.
  \<^item> \<open>Buffer\<close>: \<open>sysfs/buffer.c\<close>. Reads and writes, their invariant and the wrapped offset past the end.
  \<^item> \<open>Partition\<close>: \<open>sysdev/partition_dummy.c\<close>. A refinement: a partition is a slice of the drive.
  \<^item> \<open>Uart\<close>, \<open>Acpi_Drivers\<close>: \<open>sysdev/serial/uart.c\<close>, \<open>sysdev/rtc.c\<close>, \<open>sysdev/hpet.c\<close>. Line settings as bit fields, start-up, and
    the drivers bound through \<open>init_acpi_resource\<close>.
  \<^item> \<open>Initramfs\<close>, \<open>Initramfs_Archive\<close>, \<open>Initramfs_Props\<close>: \<open>sysfs/initramfs/super.c\<close> and \<open>file.c\<close>. Archives are described by a list of
    entries and their encoding; the search is compared with the first entry of the list that matches.
  \<^item> \<open>Ext2_Util\<close>: \<open>sysfs/ext2/util.c\<close> and \<open>ext2.h\<close>, the walk over the blocks of an inode, reading, writing, directories;
    \<open>Ext2_Read\<close>, \<open>Ext2_Write\<close>, \<open>Ext2_Dir\<close>: its correctness against the layout of the format (\<open>ext2_data\<close>, \<open>ext2_directory\<close>) over
    any \<open>vfs_disk\<close>, for blocks reached directly or through the singly indirect table; \<open>Ext2_Props\<close>: the
    properties and the two ways the deeper tables go wrong.
  \<^item> \<open>Ext2_Super\<close>, \<open>Ext2_Nodes\<close>: \<open>sysfs/ext2/super.c\<close>, \<open>directory.c\<close>, \<open>file.c\<close>; \<open>Ext2_Super_Props\<close>, \<open>Ext2_Mount_Props\<close>: mounting, inodes by
    number, opening by name, failures.
  \<^item> \<open>Nvme_Defs\<close>, \<open>Nvme_Pci\<close>, \<open>Nvme_Core\<close>, \<open>Nvme_Namespace\<close>: \<open>include/drivers/sysdev/nvme/nvme.h\<close>, \<open>sysdev/nvme/pci.c\<close>, \<open>nvme.c\<close>, \<open>namespace.c\<close>;
    \<open>Nvme_Queue\<close>: identifiers, the phase, and the protocol of a queue pair as a step relation whose driver
    steps use the tests and updates of the code; \<open>Nvme_Media\<close>: transfers at byte offsets over an interface of
    page-sized commands (locale \<open>nvme_media\<close>); \<open>Nvme_Controller\<close>: the contract of a controller and its rings (locale
    \<open>nvme_controller\<close>), over which the PCI transport gives that interface (a sublocale); \<open>Nvme_Sim\<close>: a
    controller with rings, memory and a disk for which the contract is proved; \<open>Nvme_Props\<close>: the properties;
    \<open>Nvme_Listing\<close>: the enumeration of the namespaces; \<open>Nvme_Reset\<close>: the contract of the controller's registers
    (locale \<open>nvme_registers\<close>) and what starting the transport leaves in them; \<open>Nvme_Bring_Up\<close>: a controller with
    its namespaces, brought up from identification to the last namespace driver.

  \<^bold>\<open>Not modelled.\<close> Debug output (\<open>ARC_DEBUG\<close>) and the fields only it prints; the progress messages of the generator and
  the text of the files it writes, which are values of the model (\<open>gen_table\<close>, \<open>dridef\<close>; the macros are keyed by the
  driver's name, not by its upper case); \<open>cntrl_defs.h\<close>, whose constants nothing uses; the licence headers, build
  rules and text. Where a theorem goes through the table with drivers of one kind (\<open>Acpi_Drivers\<close>), their definitions are
  records of the model. Real concurrency is not modelled: the drivers take no locks, and each operation is one
  function; the interleaving of a driver and a controller is the step relation of \<open>Nvme_Queue\<close>.
\<close>

end
